theory Spec2Isabelle
  imports Main "HOL-Library.Sublist" "HOL-Library.Char_ord" "HOL-Library.List_Lexorder"
begin

section \<open>JavaScript strings\<close>

text \<open>
  A JavaScript string is modelled as a \<open>string\<close>: the list of its code units, restricted
  to the 8-bit range. \<open>length\<close> is the source's \<open>.length\<close>.
\<close>

definition nl :: char where
  "nl = CHR 0x0A"

definition dq :: char where
  "dq = CHR 0x22"

text \<open>The white space that \<open>String.prototype.trim\<close> strips, among code units below 256:
  TAB, LF, VT, FF, CR, SPACE and NBSP.\<close>

definition isWhitespace :: "char \<Rightarrow> bool" where
  "isWhitespace c = (c = CHR 0x09 \<or> c = CHR 0x0A \<or> c = CHR 0x0B \<or> c = CHR 0x0C
                     \<or> c = CHR 0x0D \<or> c = CHR 0x20 \<or> c = CHR 0xA0)"

definition trimStart :: "string \<Rightarrow> string" where
  "trimStart s = dropWhile isWhitespace s"

definition trimEnd :: "string \<Rightarrow> string" where
  "trimEnd s = rev (dropWhile isWhitespace (rev s))"

definition trim :: "string \<Rightarrow> string" where
  "trim s = trimEnd (trimStart s)"

text \<open>\<open>s.indexOf(pat)\<close>: the index of the first occurrence, or \<open>-1\<close>.\<close>

fun indexOfFrom :: "string \<Rightarrow> string \<Rightarrow> nat \<Rightarrow> int" where
  "indexOfFrom pat [] i = (if pat = [] then int i else -1)"
| "indexOfFrom pat (c # cs) i =
     (if prefix pat (c # cs) then int i else indexOfFrom pat cs (Suc i))"

definition indexOf :: "string \<Rightarrow> string \<Rightarrow> int" where
  "indexOf s pat = indexOfFrom pat s 0"

text \<open>\<open>s.slice(start, end)\<close>: a negative index counts from the end, both indices are
  clamped to the string, and an empty range gives the empty string.\<close>

definition sliceIndex :: "string \<Rightarrow> int \<Rightarrow> nat" where
  "sliceIndex s i =
     (if i < 0 then nat (max 0 (int (length s) + i)) else min (nat i) (length s))"

definition slice :: "string \<Rightarrow> int \<Rightarrow> int \<Rightarrow> string" where
  "slice s start end =
     (let from = sliceIndex s start; to = sliceIndex s end
      in take (to - from) (drop from s))"

text \<open>\<open>s.split(sep)\<close> for a one-character separator: always at least one piece;
  \<open>''.split(sep)\<close> is \<open>['']\<close>.\<close>

fun splitOn :: "char \<Rightarrow> string \<Rightarrow> string list" where
  "splitOn sep [] = [[]]"
| "splitOn sep (c # cs) =
     (if c = sep then [] # splitOn sep cs
      else (case splitOn sep cs of [] \<Rightarrow> [[c]] | l # ls \<Rightarrow> (c # l) # ls))"

definition splitLines :: "string \<Rightarrow> string list" where
  "splitLines s = splitOn nl s"

text \<open>\<open>lines.join('\n')\<close>.\<close>

fun joinLines :: "string list \<Rightarrow> string" where
  "joinLines [] = []"
| "joinLines [l] = l"
| "joinLines (l # ls) = l @ [nl] @ joinLines ls"

text \<open>A string is truthy when it is not empty; \<open>undefined\<close> and \<open>null\<close> are falsy.\<close>

fun truthy :: "string option \<Rightarrow> bool" where
  "truthy None = False"
| "truthy (Some s) = (s \<noteq> [])"

text \<open>Decimal rendering of a number inside a template literal.\<close>

definition digitChar :: "nat \<Rightarrow> char" where
  "digitChar d = char_of (of_char (CHR ''0'') + d)"

function natToString :: "nat \<Rightarrow> string" where
  "natToString n = (if n < 10 then [digitChar n] else natToString (n div 10) @ [digitChar (n mod 10)])"
  by pat_completeness auto
termination
  by (relation "measure id") auto

declare natToString.simps [simp del]

definition intToString :: "int \<Rightarrow> string" where
  "intToString i = (if i < 0 then CHR ''-'' # natToString (nat (- i)) else natToString (nat i))"

section \<open>Container runner: data\<close>

definition OUTPUT_START_MARKER :: string where
  "OUTPUT_START_MARKER = ''---GIGACLAW_OUTPUT_START---''"

definition OUTPUT_END_MARKER :: string where
  "OUTPUT_END_MARKER = ''---GIGACLAW_OUTPUT_END---''"

definition ALLOWED_ENV_VARS :: "string list" where
  "ALLOWED_ENV_VARS =
     [''CLAUDE_CODE_OAUTH_TOKEN'', ''ANTHROPIC_API_KEY'', ''ANTHROPIC_BASE_URL'',
      ''ANTHROPIC_AUTH_TOKEN'', ''TZ'']"

datatype status = Success | Error

record ContainerInput =
  prompt :: string
  sessionId :: "string option"
  groupFolder :: string
  chatJid :: string
  isMain :: bool
  isScheduledTask :: "bool option"

record ContainerOutput =
  status :: status
  result :: "string option"
  newSessionId :: "string option"
  error :: "string option"

record VolumeMount =
  hostPath :: string
  containerPath :: string
  readonly :: bool

text \<open>The literal \<open>{ status: 'error', result: null, error: msg }\<close>.\<close>

definition errorOutput :: "string \<Rightarrow> ContainerOutput" where
  "errorOutput msg = \<lparr>status = Error, result = None, newSessionId = None, error = Some msg\<rparr>"

section \<open>Host data\<close>

text \<open>Modelled from the spec: \<open>types.ts\<close> is not among the sources. An extra mount request
  of a group names a host path, a container path and an optional read-only flag; the runner
  only hands the requests to \<open>validateAdditionalMounts\<close>.\<close>

datatype AdditionalMount = AdditionalMount string string "bool option"

record ContainerConfig =
  timeout :: "nat option"
  additionalMounts :: "AdditionalMount list option"

record RegisteredGroup =
  name :: string
  folder :: string
  containerConfig :: "ContainerConfig option"

record NewMessage =
  msg_id :: string
  chat_jid :: string
  sender :: string
  sender_name :: string
  content :: string
  timestamp :: string

text \<open>The projection of a scheduled task that \<open>runAgent\<close> builds for the snapshot.\<close>

record TaskSnapshot =
  task_id :: string
  group_folder :: string
  task_prompt :: string
  schedule_type :: string
  schedule_value :: string
  task_status :: string
  next_run :: "string option"

record ChatInfo =
  ci_jid :: string
  ci_name :: string
  last_message_time :: string

record AvailableGroup =
  jid :: string
  ag_name :: string
  lastActivity :: string
  isRegistered :: bool

text \<open>The values the host serialises with \<open>JSON.stringify\<close> or hands to \<open>saveJson\<close>.\<close>

datatype json_doc =
    TasksDoc "TaskSnapshot list"
  | GroupsDoc "AvailableGroup list" string
  | SessionsDoc "string \<rightharpoonup> string"
  | RouterStateDoc "string \<rightharpoonup> string"

section \<open>Host file system\<close>

text \<open>
  The host file system is a map from absolute paths to nodes. \<open>path.join\<close> is the
  concatenation with a separator (no normalisation of \<open>.\<close> and \<open>..\<close> segments), and the
  parents of a path are not tracked. The \<open>fs\<close> calls of the source are steps on the file
  system that either return a value or throw; a step that throws leaves the file system as
  it found it.
\<close>

datatype node = Dir | File string

datatype exn = EEXIST string | EISDIR string | ENOENT string

type_synonym filesystem = "string \<rightharpoonup> node"

type_synonym ('s, 'a) step = "'s \<Rightarrow> (exn + 'a) \<times> 's"

definition returnOk :: "'a \<Rightarrow> ('s, 'a) step" where
  "returnOk a s = (Inr a, s)"

definition thenDo :: "('s, 'a) step \<Rightarrow> ('a \<Rightarrow> ('s, 'b) step) \<Rightarrow> ('s, 'b) step" where
  "thenDo m f s = (case m s of (Inl e, s') \<Rightarrow> (Inl e, s') | (Inr a, s') \<Rightarrow> f a s')"

definition pathJoin :: "string \<Rightarrow> string \<Rightarrow> string" where
  "pathJoin a b = a @ ''/'' @ b"

definition existsSync :: "string \<Rightarrow> (filesystem, bool) step" where
  "existsSync p fs = (Inr (fs p \<noteq> None), fs)"

text \<open>\<open>fs.mkdirSync(p, { recursive: true })\<close>: no error when the directory exists, \<open>EEXIST\<close>
  when the path is a regular file. The error for a parent that is a regular file
  (\<open>ENOTDIR\<close>) is not modelled.\<close>

definition mkdirSync :: "string \<Rightarrow> (filesystem, unit) step" where
  "mkdirSync p fs =
     (case fs p of Some (File c) \<Rightarrow> (Inl (EEXIST p), fs) | _ \<Rightarrow> (Inr (), fs(p \<mapsto> Dir)))"

definition readFileSync :: "string \<Rightarrow> (filesystem, string) step" where
  "readFileSync p fs =
     (case fs p of None \<Rightarrow> (Inl (ENOENT p), fs)
      | Some Dir \<Rightarrow> (Inl (EISDIR p), fs)
      | Some (File c) \<Rightarrow> (Inr c, fs))"

definition writeFileSync :: "string \<Rightarrow> string \<Rightarrow> (filesystem, unit) step" where
  "writeFileSync p c fs =
     (case fs p of Some Dir \<Rightarrow> (Inl (EISDIR p), fs) | _ \<Rightarrow> (Inr (), fs(p \<mapsto> File c)))"

section \<open>Configuration, collaborators and host state\<close>

text \<open>
  What the modelled functions read but do not define: the process environment
  (\<open>config.ts\<close>), the JSON built-ins, and the collaborators whose sources are absent
  (\<open>db.ts\<close>, \<open>mount-security.ts\<close>, \<open>utils.ts\<close>). \<open>JSON_parse\<close> is \<open>JSON.parse\<close> read at the
  declared type \<open>ContainerOutput\<close>: \<open>None\<close> when the \<open>try\<close> block of the close handler
  throws. Calls to the logger are not modelled.
\<close>

record env =
  cwd :: string
  ASSISTANT_NAME :: string
  MESSAGE_PREFIX :: string
  CONTAINER_IMAGE :: string
  CONTAINER_MAX_OUTPUT_SIZE :: nat
  platform :: string
  getuid :: "nat option"
  getgid :: "nat option"
  now :: string
  JSON_parse :: "string \<Rightarrow> ContainerOutput option"
  JSON_stringify :: "json_doc \<Rightarrow> string"
  validateAdditionalMounts :: "AdditionalMount list \<Rightarrow> string \<Rightarrow> bool \<Rightarrow> VolumeMount list"
  saveJson :: "string \<Rightarrow> json_doc \<Rightarrow> (filesystem, unit) step"
  getMessagesSince :: "string \<Rightarrow> string \<Rightarrow> string \<Rightarrow> NewMessage list"
  getAllTasks :: "TaskSnapshot list"
  getAllChats :: "ChatInfo list"

definition GROUPS_DIR :: "env \<Rightarrow> string" where
  "GROUPS_DIR env = pathJoin (cwd env) ''groups''"

definition DATA_DIR :: "env \<Rightarrow> string" where
  "DATA_DIR env = pathJoin (cwd env) ''data''"

definition MAIN_GROUP_FOLDER :: string where
  "MAIN_GROUP_FOLDER = ''main''"

text \<open>A child process started by \<open>spawn\<close>, with the input written to its stdin.\<close>

record spawn_call =
  cmd :: string
  args :: "string list"
  stdin :: ContainerInput

text \<open>Calls made to the transport (\<open>telegram.ts\<close>), which swallows its own failures.\<close>

datatype transport_call = TypingAction "int option" | SendText int string

text \<open>The mutable state of the host: the file system, the shared maps of \<open>state.ts\<close>, and
  the traces of the processes started and of the transport calls made.\<close>

record world =
  fs :: filesystem
  sessions :: "string \<rightharpoonup> string"
  lastAgentTimestamp :: "string \<rightharpoonup> string"
  registeredGroups :: "string \<rightharpoonup> RegisteredGroup"
  spawned :: "spawn_call list"
  outbox :: "transport_call list"

definition onFs :: "(filesystem, 'a) step \<Rightarrow> (world, 'a) step" where
  "onFs m w = (case m (fs w) of (r, fs') \<Rightarrow> (r, w\<lparr>fs := fs'\<rparr>))"

text \<open>The settlement of an \<open>async\<close> function. \<open>Pending\<close> is a promise that is never
  settled; nothing that awaits it runs again.\<close>

datatype 'a promise = Resolved 'a | Rejected exn | Pending

section \<open>Container runner: volume mounts\<close>

text \<open>The line filter of \<open>buildVolumeMounts\<close> over the content of the host's \<open>.env\<close>.\<close>

definition filterEnvLines :: "string \<Rightarrow> string list" where
  "filterEnvLines envContent =
     filter (\<lambda>line. let trimmed = trim line
                    in if trimmed = [] \<or> prefix ''#'' trimmed then False
                       else list_ex (\<lambda>v. prefix (v @ ''='') trimmed) ALLOWED_ENV_VARS)
            (splitLines envContent)"

definition envDirMount :: "env \<Rightarrow> VolumeMount" where
  "envDirMount env =
     \<lparr>hostPath = pathJoin (DATA_DIR env) ''env'', containerPath = ''/workspace/env-dir'',
      readonly = True\<rparr>"

definition envFileStep :: "env \<Rightarrow> VolumeMount list \<Rightarrow> (filesystem, VolumeMount list) step" where
  "envFileStep env mounts =
     (let envDir = pathJoin (DATA_DIR env) ''env'';
          envFile = pathJoin (cwd env) ''.env''
      in thenDo (mkdirSync envDir) (\<lambda>_.
         thenDo (existsSync envFile) (\<lambda>ex.
           if ex then
             thenDo (readFileSync envFile) (\<lambda>envContent.
               let filteredLines = filterEnvLines envContent
               in if length filteredLines > 0
                  then thenDo (writeFileSync (pathJoin envDir ''env'')
                                 (joinLines filteredLines @ [nl]))
                         (\<lambda>_. returnOk (mounts @ [envDirMount env]))
                  else returnOk mounts)
           else returnOk mounts)))"

definition buildVolumeMounts ::
  "env \<Rightarrow> RegisteredGroup \<Rightarrow> bool \<Rightarrow> (filesystem, VolumeMount list) step" where
  "buildVolumeMounts env grp isMain' =
     (let projectRoot = cwd env;
          groupMount = \<lparr>hostPath = pathJoin (GROUPS_DIR env) (folder grp),
                        containerPath = ''/workspace/group'', readonly = False\<rparr>;
          globalDir = pathJoin (GROUPS_DIR env) ''global'';
          groupSessionsDir = pathJoin (pathJoin (DATA_DIR env) ''sessions'') (folder grp);
          groupIpcDir = pathJoin (pathJoin (DATA_DIR env) ''ipc'') (folder grp)
      in thenDo (if isMain'
                 then returnOk [\<lparr>hostPath = projectRoot, containerPath = ''/workspace/project'',
                                  readonly = False\<rparr>, groupMount]
                 else thenDo (existsSync globalDir) (\<lambda>ex.
                        returnOk (if ex
                                  then [groupMount,
                                        \<lparr>hostPath = globalDir, containerPath = ''/workspace/global'',
                                         readonly = True\<rparr>]
                                  else [groupMount]))) (\<lambda>mounts1.
         thenDo (mkdirSync (pathJoin groupSessionsDir ''.claude'')) (\<lambda>_.
         thenDo (mkdirSync (pathJoin groupIpcDir ''messages'')) (\<lambda>_.
         thenDo (mkdirSync (pathJoin groupIpcDir ''tasks'')) (\<lambda>_.
         thenDo (envFileStep env
                   (mounts1 @
                    [\<lparr>hostPath = groupSessionsDir, containerPath = ''/home/user'',
                      readonly = False\<rparr>,
                     \<lparr>hostPath = groupIpcDir, containerPath = ''/workspace/ipc'',
                      readonly = False\<rparr>])) (\<lambda>mounts2.
         returnOk
           (mounts2 @
            (case containerConfig grp of
               None \<Rightarrow> []
             | Some cc \<Rightarrow>
                 (case additionalMounts cc of
                    None \<Rightarrow> []
                  | Some ams \<Rightarrow> validateAdditionalMounts env ams (name grp) isMain')))))))))"

definition buildContainerArgs :: "env \<Rightarrow> VolumeMount list \<Rightarrow> string list" where
  "buildContainerArgs env mounts =
     (let uid = (case getuid env of Some u \<Rightarrow> u | None \<Rightarrow> 1000);
          gid = (case getgid env of Some g \<Rightarrow> g | None \<Rightarrow> 1000)
      in [''run'', ''-i'', ''--rm'']
         @ [''--user'', natToString uid @ '':'' @ natToString gid]
         @ [''-e'', ''HOME=/home/user'']
         @ concat (map (\<lambda>mount.
               if readonly mount
               then [''--mount'',
                     ''type=bind,source='' @ hostPath mount @ '',target='' @ containerPath mount
                       @ '',readonly'']
               else [''-v'', hostPath mount @ '':'' @ containerPath mount]) mounts)
         @ [CONTAINER_IMAGE env])"

section \<open>Container runner: the child process\<close>

text \<open>
  What the spawned child does is a list of events, in the order in which the event loop of
  the host emits them: chunks on stdout and stderr (each as \<open>data.toString()\<close> decodes
  it), the \<open>close\<close> event with the exit code (\<open>null\<close> when the child was killed), the
  \<open>error\<close> event of a failed spawn, the \<open>error\<close> event of the stdin stream of the child
  (\<open>EPIPE\<close> when the child goes away before it has read what \<open>container.stdin.write\<close>
  sent), and the expiry of the timeout timer. What the child writes into the directories
  mounted from the host is not modelled.
\<close>

datatype proc_event =
    StdoutData string
  | StderrData string
  | Close "int option"
  | SpawnError
  | StdinError
  | TimerFired

text \<open>The local variables of the promise executor; \<open>settled\<close> is the value the promise
  was resolved with, and a promise keeps its first resolution. \<open>hostExited\<close> says that the
  host process has ended on an uncaught exception.\<close>

record run_state =
  stdout :: string
  stderr :: string
  stdoutTruncated :: bool
  stderrTruncated :: bool
  timerArmed :: bool
  killed :: bool
  settled :: "ContainerOutput option"
  hostExited :: bool

definition initialRun :: run_state where
  "initialRun = \<lparr>stdout = [], stderr = [], stdoutTruncated = False, stderrTruncated = False,
                  timerArmed = True, killed = False, settled = None, hostExited = False\<rparr>"

definition resolve :: "ContainerOutput \<Rightarrow> run_state \<Rightarrow> run_state" where
  "resolve out st = (if settled st = None then st\<lparr>settled := Some out\<rparr> else st)"

definition onStdoutData :: "env \<Rightarrow> string \<Rightarrow> run_state \<Rightarrow> run_state" where
  "onStdoutData env chunk st =
     (if stdoutTruncated st then st
      else let remaining = int (CONTAINER_MAX_OUTPUT_SIZE env) - int (length (stdout st))
           in if int (length chunk) > remaining
              then st\<lparr>stdout := stdout st @ slice chunk 0 remaining, stdoutTruncated := True\<rparr>
              else st\<lparr>stdout := stdout st @ chunk\<rparr>)"

definition onStderrData :: "env \<Rightarrow> string \<Rightarrow> run_state \<Rightarrow> run_state" where
  "onStderrData env chunk st =
     (if stderrTruncated st then st
      else let remaining = int (CONTAINER_MAX_OUTPUT_SIZE env) - int (length (stderr st))
           in if int (length chunk) > remaining
              then st\<lparr>stderr := stderr st @ slice chunk 0 remaining, stderrTruncated := True\<rparr>
              else st\<lparr>stderr := stderr st @ chunk\<rparr>)"

definition onTimeout :: "run_state \<Rightarrow> run_state" where
  "onTimeout st =
     (if timerArmed st
      then resolve (errorOutput ''Container timed out'') (st\<lparr>timerArmed := False, killed := True\<rparr>)
      else st)"

text \<open>The payload selected by the \<open>close\<close> handler from the accumulated stdout.\<close>

definition extractJsonLine :: "string \<Rightarrow> string" where
  "extractJsonLine out =
     (let startIdx = indexOf out OUTPUT_START_MARKER;
          endIdx = indexOf out OUTPUT_END_MARKER
      in if startIdx \<noteq> -1 \<and> endIdx \<noteq> -1 \<and> endIdx > startIdx
         then trim (slice out (startIdx + int (length OUTPUT_START_MARKER)) endIdx)
         else let lines = splitLines (trim out)
              in (if lines = [] then [] else last lines))"

definition onClose :: "env \<Rightarrow> int option \<Rightarrow> run_state \<Rightarrow> run_state" where
  "onClose env code st0 =
     (let st = st0\<lparr>timerArmed := False\<rparr>
      in if code \<noteq> Some 0
         then resolve (errorOutput (''Container exited with code '' @
                         (case code of None \<Rightarrow> ''null'' | Some c \<Rightarrow> intToString c))) st
         else (case JSON_parse env (extractJsonLine (stdout st)) of
                 Some output \<Rightarrow> resolve output st
               | None \<Rightarrow> resolve (errorOutput ''Failed to parse container output'') st))"

definition onError :: "run_state \<Rightarrow> run_state" where
  "onError st = resolve (errorOutput ''Container spawn error'') (st\<lparr>timerArmed := False\<rparr>)"

text \<open>What an event does to the executor. No listener is registered on
  \<open>container.stdin\<close>, so Node throws its \<open>error\<close> event as an uncaught exception; the host
  installs no handler for uncaught exceptions (\<open>index.ts\<close>), and the process exits.\<close>

fun handleEvent :: "env \<Rightarrow> run_state \<Rightarrow> proc_event \<Rightarrow> run_state" where
  "handleEvent env st (StdoutData chunk) = onStdoutData env chunk st"
| "handleEvent env st (StderrData chunk) = onStderrData env chunk st"
| "handleEvent env st (Close code) = onClose env code st"
| "handleEvent env st SpawnError = onError st"
| "handleEvent env st StdinError = st\<lparr>hostExited := True\<rparr>"
| "handleEvent env st TimerFired = onTimeout st"

text \<open>The event loop hands an event to its handler as long as the host process runs.\<close>

definition dispatch :: "env \<Rightarrow> run_state \<Rightarrow> proc_event \<Rightarrow> run_state" where
  "dispatch env st e = (if hostExited st then st else handleEvent env st e)"

text \<open>The timer runs out after the events delivered before the deadline, unless a handler
  has cleared it. When the host exits after the promise was settled, the continuations of
  the settlement have run before; that the host is gone for the turns that follow is not
  recorded.\<close>

definition runChild :: "env \<Rightarrow> proc_event list \<Rightarrow> run_state" where
  "runChild env events = foldl (dispatch env) initialRun (events @ [TimerFired])"

text \<open>The synchronous part of \<open>runContainerAgent\<close>, before the promise is created.\<close>

definition prepareRun ::
  "env \<Rightarrow> RegisteredGroup \<Rightarrow> ContainerInput \<Rightarrow> (filesystem, VolumeMount list) step" where
  "prepareRun env grp input =
     (let groupDir = pathJoin (GROUPS_DIR env) (folder grp);
          logsDir = pathJoin (pathJoin (GROUPS_DIR env) (folder grp)) ''logs''
      in thenDo (mkdirSync groupDir) (\<lambda>_.
         thenDo (buildVolumeMounts env grp (isMain input)) (\<lambda>mounts.
         thenDo (mkdirSync logsDir) (\<lambda>_. returnOk mounts))))"

definition runContainerAgent ::
  "env \<Rightarrow> RegisteredGroup \<Rightarrow> ContainerInput \<Rightarrow> proc_event list
     \<Rightarrow> world \<Rightarrow> ContainerOutput promise \<times> world" where
  "runContainerAgent env grp input events w =
     (case onFs (prepareRun env grp input) w of
        (Inl e, w1) \<Rightarrow> (Rejected e, w1)
      | (Inr mounts, w1) \<Rightarrow>
          (let containerArgs = buildContainerArgs env mounts;
               containerCmd = (if platform env = ''darwin'' then ''container'' else ''docker'');
               w2 = w1\<lparr>spawned := spawned w1 @
                         [\<lparr>cmd = containerCmd, args = containerArgs, stdin = input\<rparr>]\<rparr>
           in (case settled (runChild env events) of
                 Some out \<Rightarrow> Resolved out
               | None \<Rightarrow> Pending, w2)))"

section \<open>IPC snapshots\<close>

definition writeTasksSnapshot ::
  "env \<Rightarrow> string \<Rightarrow> bool \<Rightarrow> TaskSnapshot list \<Rightarrow> (filesystem, unit) step" where
  "writeTasksSnapshot env groupFolder' isMain' tasks =
     (let groupIpcDir = pathJoin (pathJoin (DATA_DIR env) ''ipc'') groupFolder'
      in thenDo (mkdirSync groupIpcDir) (\<lambda>_.
           let filteredTasks =
                 (if isMain' then tasks else filter (\<lambda>t. group_folder t = groupFolder') tasks);
               tasksFile = pathJoin groupIpcDir ''current_tasks.json''
           in writeFileSync tasksFile (JSON_stringify env (TasksDoc filteredTasks))))"

definition writeGroupsSnapshot ::
  "env \<Rightarrow> string \<Rightarrow> bool \<Rightarrow> AvailableGroup list \<Rightarrow> (filesystem, unit) step" where
  "writeGroupsSnapshot env groupFolder' isMain' groups =
     (let groupIpcDir = pathJoin (pathJoin (DATA_DIR env) ''ipc'') groupFolder'
      in thenDo (mkdirSync groupIpcDir) (\<lambda>_.
           let visibleGroups = (if isMain' then groups else []);
               groupsFile = pathJoin groupIpcDir ''available_groups.json''
           in writeFileSync groupsFile (JSON_stringify env (GroupsDoc visibleGroups (now env)))))"

section \<open>Environment loader of the agent runner\<close>

text \<open>\<open>loadContainerEnv\<close> of \<open>load-env.ts\<close>, as the list of the assignments
  \<open>process.env[key] = value\<close> it makes, in order, for a given content of the mounted file.\<close>

definition loadContainerEnv :: "string \<Rightarrow> (string \<times> string) list" where
  "loadContainerEnv envContent =
     concat (map (\<lambda>line.
        let trimmed = trim line
        in if trimmed = [] \<or> prefix ''#'' trimmed then []
           else let eqIndex = indexOf trimmed ''=''
                in if eqIndex > 0
                   then [(trim (slice trimmed 0 eqIndex),
                          trim (slice trimmed (eqIndex + 1) (int (length trimmed))))]
                   else [])
       (splitLines envContent))"

section \<open>Message router\<close>

text \<open>\<open>TRIGGER_PATTERN\<close> is \<open>^@NAME\b\<close> with the \<open>i\<close> flag, the name matched literally:
  the content starts with \<open>@NAME\<close> up to the case folding of the regular expression, and a
  word boundary follows. \<open>canonicalize\<close> gives the code unit that the case-insensitive
  comparison uses for a character below 256.\<close>

definition isWordChar :: "char \<Rightarrow> bool" where
  "isWordChar c = ((CHR ''a'' \<le> c \<and> c \<le> CHR ''z'') \<or> (CHR ''A'' \<le> c \<and> c \<le> CHR ''Z'')
                   \<or> (CHR ''0'' \<le> c \<and> c \<le> CHR ''9'') \<or> c = CHR ''_'')"

definition canonicalize :: "char \<Rightarrow> nat" where
  "canonicalize c =
     (if (CHR ''a'' \<le> c \<and> c \<le> CHR ''z'') \<or> (CHR 0xE0 \<le> c \<and> c \<le> CHR 0xFE \<and> c \<noteq> CHR 0xF7)
      then of_char c - 32 else of_char c)"

definition TRIGGER_PATTERN_test :: "env \<Rightarrow> string \<Rightarrow> bool" where
  "TRIGGER_PATTERN_test env s =
     (let pat = ''@'' @ ASSISTANT_NAME env;
          matched = take (length pat) s
      in map canonicalize matched = map canonicalize pat
         \<and> (isWordChar (last matched)
              \<noteq> (case drop (length pat) s of [] \<Rightarrow> False | c # _ \<Rightarrow> isWordChar c)))"

text \<open>\<open>parseInt(s, 10)\<close>: leading white space, an optional sign and the longest run of
  digits; \<open>None\<close> is \<open>NaN\<close>. The value is the exact integer, which JavaScript rounds to a
  double above \<open>2^53\<close>.\<close>

definition isDigit :: "char \<Rightarrow> bool" where
  "isDigit c = (CHR ''0'' \<le> c \<and> c \<le> CHR ''9'')"

definition digitsValue :: "string \<Rightarrow> int" where
  "digitsValue ds = foldl (\<lambda>a c. 10 * a + (int (of_char c) - 48)) 0 ds"

definition parseInt10 :: "string \<Rightarrow> int option" where
  "parseInt10 s =
     (let t = trimStart s;
          neg = prefix ''-'' t;
          r = (if prefix ''-'' t \<or> prefix ''+'' t then drop 1 t else t);
          ds = takeWhile isDigit r
      in if ds = [] then None else Some (if neg then - digitsValue ds else digitsValue ds))"

text \<open>\<open>s.replace(pat, rep)\<close> with a string pattern: the first occurrence only.\<close>

definition replaceFirst :: "string \<Rightarrow> string \<Rightarrow> string \<Rightarrow> string" where
  "replaceFirst pat rep s =
     (let i = indexOf s pat
      in if i = -1 then s else take (nat i) s @ rep @ drop (nat i + length pat) s)"

text \<open>\<open>s.replace(/c/g, rep)\<close> for a one-character pattern.\<close>

definition replaceAll :: "char \<Rightarrow> string \<Rightarrow> string \<Rightarrow> string" where
  "replaceAll c rep s = concat (map (\<lambda>x. if x = c then rep else [x]) s)"

definition escapeXml :: "string \<Rightarrow> string" where
  "escapeXml s =
     replaceAll dq ''&quot;''
       (replaceAll (CHR ''>'') ''&gt;''
         (replaceAll (CHR ''<'') ''&lt;''
           (replaceAll (CHR ''&'') ''&amp;'' s)))"

definition formatMessage :: "NewMessage \<Rightarrow> string" where
  "formatMessage m =
     ''<message sender='' @ [dq] @ escapeXml (sender_name m) @ [dq] @ '' time='' @ [dq]
       @ timestamp m @ [dq] @ ''>'' @ escapeXml (content m) @ ''</message>''"

definition getAvailableGroups :: "env \<Rightarrow> world \<Rightarrow> AvailableGroup list" where
  "getAvailableGroups env w =
     map (\<lambda>c. \<lparr>jid = ci_jid c, ag_name = ci_name c, lastActivity = last_message_time c,
               isRegistered = (registeredGroups w (ci_jid c) \<noteq> None)\<rparr>)
         (getAllChats env)"

definition sendTypingAction :: "int option \<Rightarrow> world \<Rightarrow> world" where
  "sendTypingAction chatId w = w\<lparr>outbox := outbox w @ [TypingAction chatId]\<rparr>"

definition sendTelegramResponse :: "int \<Rightarrow> string \<Rightarrow> world \<Rightarrow> world" where
  "sendTelegramResponse chatId text w = w\<lparr>outbox := outbox w @ [SendText chatId text]\<rparr>"

definition sendMessage :: "string \<Rightarrow> string \<Rightarrow> world \<Rightarrow> world" where
  "sendMessage jid' text w =
     (if prefix ''telegram@chat:'' jid'
      then (case splitOn (CHR '':'') jid' of
              _ # chatIdStr # _ \<Rightarrow>
                (if chatIdStr = [] then w
                 else (case parseInt10 chatIdStr of
                         None \<Rightarrow> w
                       | Some chatId \<Rightarrow> sendTelegramResponse chatId text w))
            | _ \<Rightarrow> w)
      else w)"

text \<open>\<open>saveState\<close> of \<open>state.ts\<close>.\<close>

definition saveState :: "env \<Rightarrow> (world, unit) step" where
  "saveState env w =
     onFs (thenDo (saveJson env (pathJoin (DATA_DIR env) ''router_state.json'')
                     (RouterStateDoc (lastAgentTimestamp w))) (\<lambda>_.
           saveJson env (pathJoin (DATA_DIR env) ''sessions.json'') (SessionsDoc (sessions w)))) w"

text \<open>The statement \<open>if (output.newSessionId) { ... }\<close> of \<open>runAgent\<close>.\<close>

definition storeSession :: "env \<Rightarrow> RegisteredGroup \<Rightarrow> ContainerOutput \<Rightarrow> (world, unit) step" where
  "storeSession env grp output w =
     (if truthy (newSessionId output)
      then (let w1 = w\<lparr>sessions := (sessions w)(folder grp := newSessionId output)\<rparr>
            in onFs (saveJson env (pathJoin (DATA_DIR env) ''sessions.json'')
                       (SessionsDoc (sessions w1))) w1)
      else returnOk () w)"

definition runAgent ::
  "env \<Rightarrow> RegisteredGroup \<Rightarrow> string \<Rightarrow> string \<Rightarrow> proc_event list
     \<Rightarrow> world \<Rightarrow> string option promise \<times> world" where
  "runAgent env grp prompt' chatJid' events w =
     (let isMain' = (folder grp = MAIN_GROUP_FOLDER);
          sessionId' = sessions w (folder grp);
          tasks = getAllTasks env
      in case onFs (writeTasksSnapshot env (folder grp) isMain'
                      (map (\<lambda>t. \<lparr>task_id = task_id t, group_folder = group_folder t,
                                 task_prompt = task_prompt t, schedule_type = schedule_type t,
                                 schedule_value = schedule_value t, task_status = task_status t,
                                 next_run = next_run t\<rparr>) tasks)) w of
           (Inl e, w1) \<Rightarrow> (Rejected e, w1)
         | (Inr _, w1) \<Rightarrow>
            (let availableGroups = getAvailableGroups env w1
             in case onFs (writeGroupsSnapshot env (folder grp) isMain' availableGroups) w1 of
                  (Inl e, w2) \<Rightarrow> (Rejected e, w2)
                | (Inr _, w2) \<Rightarrow>
                   (case runContainerAgent env grp
                           \<lparr>prompt = prompt', sessionId = sessionId', groupFolder = folder grp,
                            chatJid = chatJid', isMain = isMain', isScheduledTask = None\<rparr>
                           events w2 of
                      (Pending, w3) \<Rightarrow> (Pending, w3)
                    | (Rejected err, w3) \<Rightarrow> (Resolved None, w3)
                    | (Resolved output, w3) \<Rightarrow>
                       (case storeSession env grp output w3 of
                          (Inl err, w4) \<Rightarrow> (Resolved None, w4)
                        | (Inr _, w4) \<Rightarrow>
                            if status output = Error then (Resolved None, w4)
                            else (Resolved (result output), w4)))))"

text \<open>The prompt assembled from the messages since the last agent interaction.\<close>

definition turnPrompt :: "env \<Rightarrow> NewMessage \<Rightarrow> world \<Rightarrow> string" where
  "turnPrompt env msg w =
     (let sinceTimestamp =
            (case lastAgentTimestamp w (chat_jid msg) of Some t \<Rightarrow> t | None \<Rightarrow> []);
          missedMessages =
            getMessagesSince env (chat_jid msg) sinceTimestamp (ASSISTANT_NAME env);
          lines = map formatMessage missedMessages
      in ''<messages>'' @ [nl] @ joinLines lines @ [nl] @ ''</messages>'')"

text \<open>The typing indicator sent before the agent runs.\<close>

definition typingIndicator :: "NewMessage \<Rightarrow> world \<Rightarrow> world" where
  "typingIndicator msg w =
     (if prefix ''telegram@chat:'' (chat_jid msg)
      then sendTypingAction (parseInt10 (replaceFirst ''telegram@chat:'' [] (chat_jid msg))) w
      else w)"

text \<open>The statement \<open>if (response) { ... }\<close> that ends \<open>processMessage\<close>.\<close>

definition deliver :: "env \<Rightarrow> NewMessage \<Rightarrow> string option \<Rightarrow> world \<Rightarrow> unit promise \<times> world" where
  "deliver env msg response w =
     (case response of
        None \<Rightarrow> (Resolved (), w)
      | Some text \<Rightarrow>
          if text = [] then (Resolved (), w)
          else
           (let w1 = w\<lparr>lastAgentTimestamp :=
                         (lastAgentTimestamp w)(chat_jid msg \<mapsto> timestamp msg)\<rparr>
            in case saveState env w1 of
                 (Inl e, w2) \<Rightarrow> (Rejected e, w2)
               | (Inr _, w2) \<Rightarrow>
                   (Resolved (),
                    sendMessage (chat_jid msg)
                      (MESSAGE_PREFIX env @ ASSISTANT_NAME env @ '': '' @ text) w2)))"

definition processMessage ::
  "env \<Rightarrow> NewMessage \<Rightarrow> proc_event list \<Rightarrow> world \<Rightarrow> unit promise \<times> world" where
  "processMessage env msg events w =
     (case registeredGroups w (chat_jid msg) of
        None \<Rightarrow> (Resolved (), w)
      | Some grp \<Rightarrow>
         (let content' = trim (content msg);
              isMainGroup = (folder grp = MAIN_GROUP_FOLDER)
          in if \<not> isMainGroup \<and> \<not> TRIGGER_PATTERN_test env content' then (Resolved (), w)
             else
              (let prompt' = turnPrompt env msg w
               in if prompt' = [] then (Resolved (), w)
                  else
                   (case runAgent env grp prompt' (chat_jid msg) events (typingIndicator msg w) of
                      (Pending, w2) \<Rightarrow> (Pending, w2)
                    | (Rejected e, w2) \<Rightarrow> (Rejected e, w2)
                    | (Resolved response, w2) \<Rightarrow> deliver env msg response w2))))"

text \<open>
  A turn is a triggering message together with what the configuration and the
  collaborators answer at that time and what the child does if one is spawned. The
  transport hands its messages to \<open>processMessage\<close> one after the other and logs what a
  call throws; a call that never returns, because the host has exited, ends the sequence.
\<close>

type_synonym turn = "env \<times> NewMessage \<times> proc_event list"

fun processMessages :: "turn list \<Rightarrow> world \<Rightarrow> world" where
  "processMessages [] w = w"
| "processMessages ((env, msg, events) # rest) w =
     (case processMessage env msg events w of
        (Pending, w') \<Rightarrow> w'
      | (_, w') \<Rightarrow> processMessages rest w')"

section \<open>Entrypoint of the container\<close>

text \<open>
  \<open>entrypoint.sh\<close> loads the mounted file with
  \<open>export $(cat /workspace/env-dir/env | xargs)\<close> and hands the same words to \<open>env\<close> in
  front of the \<open>node\<close> command. \<open>xargs\<close> splits its input into words at spaces, tabs and
  line feeds and echoes the words on one line; the shell splits the unquoted substitution
  at the same characters, and \<open>export\<close> assigns every word of the form \<open>NAME=value\<close> and
  marks a word that is a bare name. A word that is neither makes \<open>export\<close> fail, and the
  script stops (\<open>set -e\<close>). Quotes and backslashes, which \<open>xargs\<close> interprets, the
  characters of a glob pattern, which the shell expands, and \<open>NAME+=value\<close> are outside
  this model. \<open>None\<close> stands for the script that stops and for a content outside the model.
\<close>

definition isBlank :: "char \<Rightarrow> bool" where
  "isBlank c = (c = CHR 0x20 \<or> c = CHR 0x09 \<or> c = CHR 0x0A)"

fun splitBlank :: "string \<Rightarrow> string list" where
  "splitBlank [] = [[]]"
| "splitBlank (c # cs) =
     (if isBlank c then [] # splitBlank cs
      else (case splitBlank cs of [] \<Rightarrow> [[c]] | w # ws \<Rightarrow> (c # w) # ws))"

definition shellWords :: "string \<Rightarrow> string list" where
  "shellWords s = filter (\<lambda>w. w \<noteq> []) (splitBlank s)"

definition isShellSpecial :: "char \<Rightarrow> bool" where
  "isShellSpecial c = (c = CHR 0x27 \<or> c = dq \<or> c = CHR 0x5C \<or> c = CHR ''*'' \<or> c = CHR ''?''
                        \<or> c = CHR ''['')"

definition isIdentifier :: "string \<Rightarrow> bool" where
  "isIdentifier s = (s \<noteq> [] \<and> \<not> isDigit (hd s) \<and> list_all isWordChar s)"

text \<open>The assignment that \<open>export\<close> makes for one word.\<close>

definition exportWord :: "string \<Rightarrow> (string \<times> string) list option" where
  "exportWord w =
     (let name = takeWhile (\<lambda>c. c \<noteq> CHR ''='') w
      in if \<not> isIdentifier name then None
         else if length name = length w then Some []
         else Some [(name, drop (length name + 1) w)])"

fun exportWords :: "string list \<Rightarrow> (string \<times> string) list option" where
  "exportWords [] = Some []"
| "exportWords (w # ws) =
     (case exportWord w of
        None \<Rightarrow> None
      | Some a \<Rightarrow> (case exportWords ws of None \<Rightarrow> None | Some b \<Rightarrow> Some (a @ b)))"

text \<open>The assignments to the environment of the agent, in order, for a given content of
  the mounted file.\<close>

definition entrypointExports :: "string \<Rightarrow> (string \<times> string) list option" where
  "entrypointExports envContent =
     (if list_ex isShellSpecial envContent then None
      else exportWords (shellWords envContent))"

section \<open>Vocabulary of the properties\<close>

text \<open>What the child wrote on each stream, over a whole list of events.\<close>

definition stdoutChunks :: "proc_event list \<Rightarrow> string" where
  "stdoutChunks events = concat (map (\<lambda>e. case e of StdoutData c \<Rightarrow> c | _ \<Rightarrow> []) events)"

definition stderrChunks :: "proc_event list \<Rightarrow> string" where
  "stderrChunks events = concat (map (\<lambda>e. case e of StderrData c \<Rightarrow> c | _ \<Rightarrow> []) events)"

text \<open>The events that the host lives to handle.\<close>

definition handled :: "proc_event list \<Rightarrow> proc_event list" where
  "handled events = takeWhile (\<lambda>e. e \<noteq> StdinError) events"

text \<open>The bytes of a code unit below 256 in UTF-8, the encoding of the output of the child
  that \<open>data.toString()\<close> decodes: one byte below 128, two bytes from 128 on. The byte
  count of a string is \<open>Buffer.byteLength\<close>.\<close>

definition utf8 :: "char \<Rightarrow> nat list" where
  "utf8 c = (if of_char c < (128 :: nat) then [of_char c]
             else [192 + of_char c div 64, 128 + of_char c mod 64])"

definition byteLength :: "string \<Rightarrow> nat" where
  "byteLength s = length (concat (map utf8 s))"

text \<open>The buffers of a run state hold the capped output of the events seen so far.\<close>

definition buffersOf :: "env \<Rightarrow> run_state \<Rightarrow> proc_event list \<Rightarrow> bool" where
  "buffersOf env st events =
     (stdout st = take (CONTAINER_MAX_OUTPUT_SIZE env) (stdoutChunks events)
      \<and> stdoutTruncated st = (CONTAINER_MAX_OUTPUT_SIZE env < length (stdoutChunks events))
      \<and> stderr st = take (CONTAINER_MAX_OUTPUT_SIZE env) (stderrChunks events)
      \<and> stderrTruncated st = (CONTAINER_MAX_OUTPUT_SIZE env < length (stderrChunks events)))"

text \<open>The snapshot files of a group.\<close>

definition tasksFile :: "env \<Rightarrow> string \<Rightarrow> string" where
  "tasksFile env gf = pathJoin (pathJoin (pathJoin (DATA_DIR env) ''ipc'') gf) ''current_tasks.json''"

definition groupsFile :: "env \<Rightarrow> string \<Rightarrow> string" where
  "groupsFile env gf = pathJoin (pathJoin (pathJoin (DATA_DIR env) ''ipc'') gf) ''available_groups.json''"

text \<open>The events that only feed the buffers.\<close>

fun isData :: "proc_event \<Rightarrow> bool" where
  "isData (StdoutData c) = True"
| "isData (StderrData c) = True"
| "isData e = False"

text \<open>The event that decides the run: the first one that is not a chunk, the expiry of
  the timer when the child produced nothing else. It settles the promise, unless it is the
  error of the stdin stream, on which the host exits.\<close>

definition decisive :: "proc_event list \<Rightarrow> proc_event" where
  "decisive events = hd (dropWhile isData (events @ [TimerFired]))"

text \<open>The output with which the handler of such an event resolves a pending promise, given
  the stdout accumulated so far. The error of the stdin stream has no handler and resolves
  nothing; the value given for it is never used as an output.\<close>

fun verdict :: "env \<Rightarrow> string \<Rightarrow> proc_event \<Rightarrow> ContainerOutput" where
  "verdict env out (Close code) =
     (if code \<noteq> Some 0
      then errorOutput (''Container exited with code '' @
             (case code of None \<Rightarrow> ''null'' | Some c \<Rightarrow> intToString c))
      else (case JSON_parse env (extractJsonLine out) of
              Some output \<Rightarrow> output
            | None \<Rightarrow> errorOutput ''Failed to parse container output''))"
| "verdict env out SpawnError = errorOutput ''Container spawn error''"
| "verdict env out e = errorOutput ''Container timed out''"

text \<open>The stdout accumulated when the promise settles.\<close>

definition stdoutAtSettlement :: "env \<Rightarrow> proc_event list \<Rightarrow> string" where
  "stdoutAtSettlement env events =
     take (CONTAINER_MAX_OUTPUT_SIZE env) (stdoutChunks (takeWhile isData events))"

text \<open>The output with which the runner resolves when the child behaves as the events say
  and the deciding event is not the error of the stdin stream.\<close>

definition turnOutput :: "env \<Rightarrow> proc_event list \<Rightarrow> ContainerOutput" where
  "turnOutput env events = verdict env (stdoutAtSettlement env events) (decisive events)"

text \<open>The input that \<open>runAgent\<close> hands to the runner.\<close>

definition agentInput :: "RegisteredGroup \<Rightarrow> string \<Rightarrow> string \<Rightarrow> world \<Rightarrow> ContainerInput" where
  "agentInput grp p j w =
     \<lparr>prompt = p, sessionId = sessions w (folder grp), groupFolder = folder grp, chatJid = j,
      isMain = (folder grp = MAIN_GROUP_FOLDER), isScheduledTask = None\<rparr>"

text \<open>The stored watermark of a chat, as \<open>processMessage\<close> reads it
  (\<open>lastAgentTimestamp[jid] || ''\<close>).\<close>

definition watermark :: "world \<Rightarrow> string \<Rightarrow> string" where
  "watermark w j = (case lastAgentTimestamp w j of Some t \<Rightarrow> t | None \<Rightarrow> [])"

text \<open>What \<open>runAgent\<close> returns to \<open>processMessage\<close> for a message: the response of the
  turn, \<open>null\<close> when the message runs no turn.\<close>

definition turnResponse ::
  "env \<Rightarrow> NewMessage \<Rightarrow> proc_event list \<Rightarrow> world \<Rightarrow> string option promise" where
  "turnResponse env msg events w =
     (case registeredGroups w (chat_jid msg) of
        None \<Rightarrow> Resolved None
      | Some grp \<Rightarrow>
          if folder grp = MAIN_GROUP_FOLDER \<or> TRIGGER_PATTERN_test env (trim (content msg))
          then fst (runAgent env grp (turnPrompt env msg w) (chat_jid msg) events
                      (typingIndicator msg w))
          else Resolved None)"

text \<open>The watermarks after a call of \<open>processMessage\<close> that got the given response.\<close>

definition advanced ::
  "NewMessage \<Rightarrow> string option promise \<Rightarrow> (string \<rightharpoonup> string) \<Rightarrow> (string \<rightharpoonup> string)" where
  "advanced msg response marks =
     (case response of
        Resolved (Some text) \<Rightarrow>
          if text = [] then marks else marks(chat_jid msg \<mapsto> timestamp msg)
      | _ \<Rightarrow> marks)"

definition turnMsg :: "turn \<Rightarrow> NewMessage" where
  "turnMsg t = fst (snd t)"

text \<open>The timestamps of the triggering messages of a chat, in the order of the turns.\<close>

definition chatTimes :: "string \<Rightarrow> turn list \<Rightarrow> string list" where
  "chatTimes j turns = map (timestamp \<circ> turnMsg) (filter (\<lambda>t. chat_jid (turnMsg t) = j) turns)"

text \<open>A line that begins with one of the allowed variable names followed by \<open>=\<close>.\<close>

definition allowedLine :: "string \<Rightarrow> bool" where
  "allowedLine l = list_ex (\<lambda>v. prefix (v @ ''='') l) ALLOWED_ENV_VARS"

text \<open>The content written to the environment file of the container.\<close>

definition envFileContent :: "string \<Rightarrow> string" where
  "envFileContent envContent = joinLines (filterEnvLines envContent) @ [nl]"

text \<open>The environment mounts among a list of mounts.\<close>

definition envMounts :: "VolumeMount list \<Rightarrow> VolumeMount list" where
  "envMounts ms = filter (\<lambda>m. containerPath m = ''/workspace/env-dir'') ms"

text \<open>The extra mounts of a group that the validator accepts.\<close>

definition validatedMounts :: "env \<Rightarrow> RegisteredGroup \<Rightarrow> bool \<Rightarrow> VolumeMount list" where
  "validatedMounts env grp isMain' =
     (case containerConfig grp of
        None \<Rightarrow> []
      | Some cc \<Rightarrow>
          (case additionalMounts cc of
             None \<Rightarrow> []
           | Some ams \<Rightarrow> validateAdditionalMounts env ams (name grp) isMain'))"

text \<open>Both markers occur in the stdout and the first end marker starts after the first
  start marker: the condition under which the close handler takes what lies between them.\<close>

definition markersFound :: "string \<Rightarrow> bool" where
  "markersFound out =
     (indexOf out OUTPUT_START_MARKER \<noteq> -1 \<and> indexOf out OUTPUT_END_MARKER \<noteq> -1
      \<and> indexOf out OUTPUT_END_MARKER > indexOf out OUTPUT_START_MARKER)"

text \<open>Where the text after the first start marker begins, and where the first end marker
  begins.\<close>

definition payloadStart :: "string \<Rightarrow> nat" where
  "payloadStart out = nat (indexOf out OUTPUT_START_MARKER) + length OUTPUT_START_MARKER"

definition payloadEnd :: "string \<Rightarrow> nat" where
  "payloadEnd out = nat (indexOf out OUTPUT_END_MARKER)"

text \<open>The last line of a string: what follows its last line feed.\<close>

definition lastLine :: "string \<Rightarrow> string" where
  "lastLine s = rev (takeWhile (\<lambda>c. c \<noteq> nl) (rev s))"

text \<open>A string without the line feeds that end it.\<close>

definition stripNl :: "string \<Rightarrow> string" where
  "stripNl s = rev (dropWhile (\<lambda>c. c = nl) (rev s))"

text \<open>The last non-empty line of a string, in the words of the specification; the empty
  string when every line is empty.\<close>

definition lastNonEmptyLine :: "string \<Rightarrow> string" where
  "lastNonEmptyLine s =
     (case filter (\<lambda>l. l \<noteq> []) (splitLines s) of [] \<Rightarrow> [] | l # ls \<Rightarrow> last (l # ls))"

section \<open>A concrete host\<close>

text \<open>
  A configuration, collaborators and a host state on which the model is evaluated in the
  examples below. \<open>demoStringify\<close> and \<open>demoParse\<close> stand for \<open>JSON.stringify\<close> and
  \<open>JSON.parse\<close> on the documents and payloads of the examples.
\<close>

definition quoted :: "string \<Rightarrow> string" where
  "quoted s = [dq] @ s @ [dq]"

definition demoStringify :: "json_doc \<Rightarrow> string" where
  "demoStringify d =
     (case d of
        TasksDoc ts \<Rightarrow> ''['' @ concat (map (\<lambda>t. task_id t @ '';'') ts) @ '']''
      | GroupsDoc gs t \<Rightarrow> ''['' @ concat (map (\<lambda>g. jid g @ '';'') gs) @ '']@'' @ t
      | SessionsDoc m \<Rightarrow> ''{sessions}''
      | RouterStateDoc m \<Rightarrow> ''{router_state}'')"

definition demoSaveJson :: "string \<Rightarrow> json_doc \<Rightarrow> (filesystem, unit) step" where
  "demoSaveJson p d = writeFileSync p (demoStringify d)"

definition successJson :: string where
  "successJson = ''{'' @ quoted ''status'' @ '':'' @ quoted ''success'' @ '','' @ quoted ''result''
       @ '':'' @ quoted ''hello'' @ '','' @ quoted ''newSessionId'' @ '':'' @ quoted ''s1'' @ ''}''"

definition errorJson :: string where
  "errorJson = ''{'' @ quoted ''status'' @ '':'' @ quoted ''error'' @ '','' @ quoted ''result''
       @ '':null,'' @ quoted ''newSessionId'' @ '':'' @ quoted ''s2'' @ '','' @ quoted ''error''
       @ '':'' @ quoted ''x'' @ ''}''"

definition emptyResultJson :: string where
  "emptyResultJson = ''{'' @ quoted ''status'' @ '':'' @ quoted ''success'' @ '','' @ quoted ''result''
       @ '':'' @ quoted [] @ ''}''"

definition demoParse :: "string \<Rightarrow> ContainerOutput option" where
  "demoParse s =
     (if s = successJson
      then Some \<lparr>status = Success, result = Some ''hello'', newSessionId = Some ''s1'', error = None\<rparr>
      else if s = errorJson
      then Some \<lparr>status = Error, result = None, newSessionId = Some ''s2'', error = Some ''x''\<rparr>
      else if s = emptyResultJson
      then Some \<lparr>status = Success, result = Some [], newSessionId = None, error = None\<rparr>
      else None)"

definition demoMessage :: "string \<Rightarrow> string \<Rightarrow> string \<Rightarrow> NewMessage" where
  "demoMessage chat text time =
     \<lparr>msg_id = ''telegram_1'', chat_jid = chat, sender = ''42'', sender_name = ''alice'',
      content = text, timestamp = time\<rparr>"

definition mainMessage :: NewMessage where
  "mainMessage = demoMessage ''telegram@chat:1'' ''hi'' ''2026-01-01T00:00:01.000Z''"

definition sameSecondMessage :: NewMessage where
  "sameSecondMessage = demoMessage ''telegram@chat:1'' ''are you there'' ''2026-01-01T00:00:01.000Z''"

definition laterMessage :: NewMessage where
  "laterMessage = demoMessage ''telegram@chat:1'' ''again'' ''2026-01-01T00:00:02.000Z''"

text \<open>Three messages of the family chat: one that addresses the assistant, one that
  does not, and one that addresses it but carries an older timestamp.\<close>

definition familyMessage :: NewMessage where
  "familyMessage = demoMessage ''telegram@chat:2'' ''@Neo hi'' ''2026-01-01T00:00:02.000Z''"

definition familyChatter :: NewMessage where
  "familyChatter = demoMessage ''telegram@chat:2'' ''see you at 8'' ''2026-01-01T00:00:03.000Z''"

definition familyOlder :: NewMessage where
  "familyOlder = demoMessage ''telegram@chat:2'' ''@Neo and this'' ''2026-01-01T00:00:01.000Z''"

text \<open>Modelled from the spec: \<open>db.ts\<close> is not among the sources. \<open>getMessagesSince\<close> over a
  list of stored messages: the messages of the chat strictly after the timestamp, without
  those whose sender name is the excluded one.\<close>

definition messagesSince ::
  "NewMessage list \<Rightarrow> string \<Rightarrow> string \<Rightarrow> string \<Rightarrow> NewMessage list" where
  "messagesSince store j since excluded =
     filter (\<lambda>m. chat_jid m = j \<and> since < timestamp m \<and> sender_name m \<noteq> excluded) store"

text \<open>The host over a given list of stored messages.\<close>

definition hostEnv :: "NewMessage list \<Rightarrow> env" where
  "hostEnv store =
     \<lparr>cwd = ''/srv/gigaclaw'', ASSISTANT_NAME = ''Neo'', MESSAGE_PREFIX = [],
      CONTAINER_IMAGE = ''gigaclaw-agent:latest'', CONTAINER_MAX_OUTPUT_SIZE = 10485760,
      platform = ''linux'', getuid = Some 1000, getgid = Some 1000,
      now = ''2026-01-01T00:00:00.000Z'',
      JSON_parse = demoParse, JSON_stringify = demoStringify,
      validateAdditionalMounts = (\<lambda>_ _ _. []), saveJson = demoSaveJson,
      getMessagesSince = messagesSince store, getAllTasks = [], getAllChats = []\<rparr>"

definition demoEnv :: env where
  "demoEnv = hostEnv [mainMessage]"

definition demoTasks :: "TaskSnapshot list" where
  "demoTasks =
     [\<lparr>task_id = ''t1'', group_folder = ''family'', task_prompt = ''p'', schedule_type = ''once'',
       schedule_value = ''v'', task_status = ''active'', next_run = None\<rparr>,
      \<lparr>task_id = ''t2'', group_folder = ''work'', task_prompt = ''p'', schedule_type = ''once'',
       schedule_value = ''v'', task_status = ''active'', next_run = None\<rparr>,
      \<lparr>task_id = ''t3'', group_folder = ''family'', task_prompt = ''p'', schedule_type = ''cron'',
       schedule_value = ''v'', task_status = ''paused'', next_run = None\<rparr>]"

definition demoGroups :: "AvailableGroup list" where
  "demoGroups =
     [\<lparr>jid = ''telegram@chat:1'', ag_name = ''Family'', lastActivity = ''2026-01-01'',
       isRegistered = True\<rparr>]"

definition demoWorld :: world where
  "demoWorld =
     \<lparr>fs = Map.empty, sessions = Map.empty, lastAgentTimestamp = Map.empty,
      registeredGroups =
        [''telegram@chat:1'' \<mapsto> \<lparr>name = ''Main'', folder = ''main'', containerConfig = None\<rparr>,
         ''telegram@chat:2'' \<mapsto> \<lparr>name = ''Family'', folder = ''family'', containerConfig = None\<rparr>],
      spawned = [], outbox = []\<rparr>"


text \<open>A host \<open>.env\<close> with an indented allowed variable, a secret, a comment and a second
  allowed variable; and one that holds a secret only.\<close>

definition demoDotEnv :: string where
  "demoDotEnv = '' TZ=UTC'' @ [nl] @ ''SECRET=1'' @ [nl] @ ''#TZ=x'' @ [nl] @ ''ANTHROPIC_API_KEY=k''"

definition secretDotEnv :: string where
  "secretDotEnv = ''SECRET=1'' @ [nl]"

definition familyGroup :: RegisteredGroup where
  "familyGroup = \<lparr>name = ''Family'', folder = ''family'', containerConfig = None\<rparr>"

text \<open>A host \<open>.env\<close> whose only line assigns an allowed variable and goes on with a
  second assignment.\<close>

definition wordyDotEnv :: string where
  "wordyDotEnv = ''TZ=UTC SECRET=hunter2''"

text \<open>The same host with an output cap of ten, and a chunk of six times the letter
  \<open>U+00E9\<close> followed by \<open>zz\<close>.\<close>

definition smallCapEnv :: env where
  "smallCapEnv = demoEnv\<lparr>CONTAINER_MAX_OUTPUT_SIZE := 10\<rparr>"

definition accentedChunk :: string where
  "accentedChunk = [CHR 0xE9, CHR 0xE9, CHR 0xE9, CHR 0xE9, CHR 0xE9, CHR 0xE9] @ ''zz''"

text \<open>A stdout whose result line is followed by a line that holds one space.\<close>

definition trailingBlankStdout :: string where
  "trailingBlankStdout = successJson @ [nl] @ '' '' @ [nl]"

text \<open>A stdout that wraps the result in the markers, between other output.\<close>

definition markedStdout :: string where
  "markedStdout = ''noise'' @ [nl] @ OUTPUT_START_MARKER @ [nl] @ successJson @ [nl]
                    @ OUTPUT_END_MARKER @ [nl] @ ''more noise''"

text \<open>A stdout without markers that ends with the result line.\<close>

definition plainStdout :: string where
  "plainStdout = ''noise'' @ [nl] @ errorJson @ [nl]"

section \<open>Shared lemmas\<close>

lemma thenDo_Inl: "m s = (Inl e, s') \<Longrightarrow> thenDo m f s = (Inl e, s')"
  by (simp add: thenDo_def)

lemma thenDo_Inr_eq: "m s = (Inr a, s') \<Longrightarrow> thenDo m f s = f a s'"
  by (simp add: thenDo_def)

lemma thenDo_Inr:
  assumes "fst (thenDo m f s) = Inr b"
  shows "\<exists>a s'. m s = (Inr a, s') \<and> f a s' = (Inr b, snd (thenDo m f s))"
proof (cases "m s")
  case (Pair r s')
  show ?thesis
  proof (cases r)
    case (Inl e)
    with Pair assms show ?thesis by (simp add: thenDo_Inl)
  next
    case (Inr a)
    with Pair have eq: "thenDo m f s = f a s'" by (simp add: thenDo_Inr_eq)
    with assms have "f a s' = (Inr b, snd (thenDo m f s))" by (simp add: prod_eq_iff)
    with Pair Inr show ?thesis by blast
  qed
qed

lemma writeFileSync_Inr:
  "fst (writeFileSync p c fs0) = Inr u \<Longrightarrow> snd (writeFileSync p c fs0) p = Some (File c)"
  by (auto simp add: writeFileSync_def split: option.splits node.splits)

lemmas fs_defs = thenDo_def returnOk_def mkdirSync_def writeFileSync_def readFileSync_def
  existsSync_def pathJoin_def DATA_DIR_def GROUPS_DIR_def onFs_def

lemma slice_from_zero: "0 \<le> r \<Longrightarrow> slice c 0 r = take (nat r) c"
  by (cases "nat r \<le> length c") (simp_all add: slice_def sliceIndex_def Let_def min_def)

section \<open>Output caps\<close>

lemma onStdoutData_take:
  assumes "stdout st = take (CONTAINER_MAX_OUTPUT_SIZE env) xs"
    and "stdoutTruncated st = (CONTAINER_MAX_OUTPUT_SIZE env < length xs)"
  shows "stdout (onStdoutData env c st) = take (CONTAINER_MAX_OUTPUT_SIZE env) (xs @ c)
       \<and> stdoutTruncated (onStdoutData env c st) = (CONTAINER_MAX_OUTPUT_SIZE env < length (xs @ c))"
proof (cases "stdoutTruncated st")
  case True
  with assms show ?thesis by (simp add: onStdoutData_def)
next
  case False
  with assms have le: "length xs \<le> CONTAINER_MAX_OUTPUT_SIZE env" and eq: "stdout st = xs"
    by simp_all
  show ?thesis
  proof (cases "int (length c) > int (CONTAINER_MAX_OUTPUT_SIZE env) - int (length xs)")
    case True
    with False le eq show ?thesis
      by (simp add: onStdoutData_def Let_def slice_from_zero nat_diff_distrib')
  next
    case False
    with \<open>\<not> stdoutTruncated st\<close> le eq show ?thesis
      by (auto simp add: onStdoutData_def Let_def)
  qed
qed

lemma onStderrData_take:
  assumes "stderr st = take (CONTAINER_MAX_OUTPUT_SIZE env) xs"
    and "stderrTruncated st = (CONTAINER_MAX_OUTPUT_SIZE env < length xs)"
  shows "stderr (onStderrData env c st) = take (CONTAINER_MAX_OUTPUT_SIZE env) (xs @ c)
       \<and> stderrTruncated (onStderrData env c st) = (CONTAINER_MAX_OUTPUT_SIZE env < length (xs @ c))"
proof (cases "stderrTruncated st")
  case True
  with assms show ?thesis by (simp add: onStderrData_def)
next
  case False
  with assms have le: "length xs \<le> CONTAINER_MAX_OUTPUT_SIZE env" and eq: "stderr st = xs"
    by simp_all
  show ?thesis
  proof (cases "int (length c) > int (CONTAINER_MAX_OUTPUT_SIZE env) - int (length xs)")
    case True
    with False le eq show ?thesis
      by (simp add: onStderrData_def Let_def slice_from_zero nat_diff_distrib')
  next
    case False
    with \<open>\<not> stderrTruncated st\<close> le eq show ?thesis
      by (auto simp add: onStderrData_def Let_def)
  qed
qed

lemma resolve_buffers [simp]:
  "stdout (resolve out st) = stdout st" "stderr (resolve out st) = stderr st"
  "stdoutTruncated (resolve out st) = stdoutTruncated st"
  "stderrTruncated (resolve out st) = stderrTruncated st"
  by (simp_all add: resolve_def)

lemma other_handlers_buffers:
  "stdout (onClose env code st) = stdout st \<and> stderr (onClose env code st) = stderr st
   \<and> stdoutTruncated (onClose env code st) = stdoutTruncated st
   \<and> stderrTruncated (onClose env code st) = stderrTruncated st"
  "stdout (onError st) = stdout st \<and> stderr (onError st) = stderr st
   \<and> stdoutTruncated (onError st) = stdoutTruncated st
   \<and> stderrTruncated (onError st) = stderrTruncated st"
  "stdout (onTimeout st) = stdout st \<and> stderr (onTimeout st) = stderr st
   \<and> stdoutTruncated (onTimeout st) = stdoutTruncated st
   \<and> stderrTruncated (onTimeout st) = stderrTruncated st"
  by (simp_all add: onClose_def onError_def onTimeout_def Let_def split: option.splits)

lemma onStdoutData_stderr:
  "stderr (onStdoutData env c st) = stderr st \<and> stderrTruncated (onStdoutData env c st) = stderrTruncated st"
  by (simp add: onStdoutData_def Let_def)

lemma onStderrData_stdout:
  "stdout (onStderrData env c st) = stdout st \<and> stdoutTruncated (onStderrData env c st) = stdoutTruncated st"
  by (simp add: onStderrData_def Let_def)

lemma handleEvent_buffers:
  assumes "buffersOf env st pre"
  shows "buffersOf env (handleEvent env st e) (pre @ [e])"
proof (cases e)
  case (StdoutData c)
  with assms onStdoutData_take[of st env "stdoutChunks pre" c] show ?thesis
    by (simp add: buffersOf_def stdoutChunks_def stderrChunks_def onStdoutData_stderr)
next
  case (StderrData c)
  with assms onStderrData_take[of st env "stderrChunks pre" c] show ?thesis
    by (simp add: buffersOf_def stdoutChunks_def stderrChunks_def onStderrData_stdout)
next
  case (Close code)
  with assms show ?thesis
    by (simp add: buffersOf_def stdoutChunks_def stderrChunks_def other_handlers_buffers)
next
  case SpawnError
  with assms show ?thesis
    by (simp add: buffersOf_def stdoutChunks_def stderrChunks_def other_handlers_buffers)
next
  case StdinError
  with assms show ?thesis
    by (simp add: buffersOf_def stdoutChunks_def stderrChunks_def)
next
  case TimerFired
  with assms show ?thesis
    by (simp add: buffersOf_def stdoutChunks_def stderrChunks_def other_handlers_buffers)
qed

lemma foldl_buffers:
  "buffersOf env st pre \<Longrightarrow> buffersOf env (foldl (handleEvent env) st events) (pre @ events)"
proof (induction events arbitrary: st pre)
  case Nil
  then show ?case by simp
next
  case (Cons e events)
  from handleEvent_buffers[OF Cons.prems, of e]
  have "buffersOf env (handleEvent env st e) (pre @ [e])" .
  from Cons.IH[OF this] show ?case by simp
qed

lemma initial_buffers: "buffersOf env initialRun []"
  by (simp add: buffersOf_def initialRun_def stdoutChunks_def stderrChunks_def)

lemma resolve_host [simp]: "hostExited (resolve out st) = hostExited st"
  by (simp add: resolve_def)

lemma handler_host:
  "e \<noteq> StdinError \<Longrightarrow> hostExited (handleEvent env st e) = hostExited st"
  by (cases e)
     (simp_all add: onStdoutData_def onStderrData_def onClose_def onError_def onTimeout_def
        Let_def split: option.splits)

lemma dispatch_exited: "hostExited st \<Longrightarrow> foldl (dispatch env) st events = st"
  by (induction events) (simp_all add: dispatch_def)

lemma dispatch_alive:
  "\<not> hostExited st \<Longrightarrow> StdinError \<notin> set events \<Longrightarrow>
     foldl (dispatch env) st events = foldl (handleEvent env) st events
     \<and> \<not> hostExited (foldl (handleEvent env) st events)"
proof (induction events arbitrary: st)
  case Nil
  then show ?case by simp
next
  case (Cons e events)
  from Cons.prems have e: "e \<noteq> StdinError" and rest: "StdinError \<notin> set events" by auto
  from handler_host[OF e, of env st] Cons.prems(1)
  have alive: "\<not> hostExited (handleEvent env st e)" by simp
  from Cons.IH[OF alive rest] Cons.prems(1) show ?case by (simp add: dispatch_def)
qed

lemma handled_alive: "StdinError \<notin> set (handled events)"
  by (auto simp add: handled_def dest: set_takeWhileD)

lemma handled_split:
  "StdinError \<in> set events \<Longrightarrow> \<exists>rest. events = handled events @ StdinError # rest"
proof -
  assume "StdinError \<in> set events"
  then have "dropWhile (\<lambda>e. e \<noteq> StdinError) events \<noteq> []" by (simp add: dropWhile_eq_Nil_conv)
  then obtain e rest where dw: "dropWhile (\<lambda>e. e \<noteq> StdinError) events = e # rest"
    by (cases "dropWhile (\<lambda>e. e \<noteq> StdinError) events") auto
  from hd_dropWhile[of "\<lambda>e. e \<noteq> StdinError" events] dw have "e = StdinError" by simp
  with dw takeWhile_dropWhile_id[of "\<lambda>e. e \<noteq> StdinError" events]
  have "events = handled events @ StdinError # rest" by (simp add: handled_def)
  then show ?thesis by blast
qed

lemma handled_all: "StdinError \<notin> set events \<Longrightarrow> handled events = events"
  by (auto simp add: handled_def takeWhile_eq_all_conv)

text \<open>The run of the host over a list of events: its handlers run on the events that
  precede an error of the stdin stream.\<close>

lemma foldl_dispatch:
  "foldl (dispatch env) initialRun events
     = (if StdinError \<in> set events
        then (foldl (handleEvent env) initialRun (handled events))\<lparr>hostExited := True\<rparr>
        else foldl (handleEvent env) initialRun (handled events))"
proof (cases "StdinError \<in> set events")
  case True
  from handled_split[OF True] obtain rest where sp: "events = handled events @ StdinError # rest"
    by blast
  have init: "\<not> hostExited initialRun" by (simp add: initialRun_def)
  note A = dispatch_alive[OF init handled_alive, of env events]
  have "foldl (dispatch env) initialRun events
          = foldl (dispatch env) (foldl (dispatch env) initialRun (handled events)) (StdinError # rest)"
    by (subst sp) simp
  also have "\<dots> = foldl (dispatch env)
                     ((foldl (handleEvent env) initialRun (handled events))\<lparr>hostExited := True\<rparr>) rest"
    using A by (simp add: dispatch_def)
  also have "\<dots> = (foldl (handleEvent env) initialRun (handled events))\<lparr>hostExited := True\<rparr>"
    by (simp add: dispatch_exited)
  finally show ?thesis using True by simp
next
  case False
  have init: "\<not> hostExited initialRun" by (simp add: initialRun_def)
  from dispatch_alive[OF init False, of env] False show ?thesis
    by (simp add: handled_all)
qed

lemma dispatch_buffers:
  "buffersOf env (foldl (dispatch env) initialRun events) (handled events)"
  using foldl_buffers[OF initial_buffers, of env "handled events"]
  by (simp add: foldl_dispatch buffersOf_def)

lemma ascii_bytes: "list_all (\<lambda>c. of_char c < (128 :: nat)) s \<Longrightarrow> byteLength s = length s"
  by (induction s) (simp_all add: byteLength_def utf8_def)

text \<open>
  C6, as stated, fails: the handlers measure the buffer and the chunk with \<open>.length\<close>, the
  number of code units of the decoded text, and not in bytes. Under a cap of ten the chunk
  of six accented letters and \<open>zz\<close>, eight code units that the child wrote as fourteen
  bytes, is kept whole and nothing is marked as truncated.
\<close>

theorem C6_counterexample:
  "CONTAINER_MAX_OUTPUT_SIZE smallCapEnv = 10
   \<and> stdout (foldl (dispatch smallCapEnv) initialRun [StdoutData accentedChunk]) = accentedChunk
   \<and> \<not> stdoutTruncated (foldl (dispatch smallCapEnv) initialRun [StdoutData accentedChunk])
   \<and> length accentedChunk = 8
   \<and> byteLength (stdout (foldl (dispatch smallCapEnv) initialRun [StdoutData accentedChunk])) = 14"
  by (simp add: smallCapEnv_def accentedChunk_def dispatch_def initialRun_def onStdoutData_def
        byteLength_def utf8_def Let_def)

text \<open>
  C6, amended: for every sequence of events of the child, the accumulated stdout and stderr
  never exceed \<open>CONTAINER_MAX_OUTPUT_SIZE\<close> counted in code units of the decoded text: each
  buffer is the first \<open>CONTAINER_MAX_OUTPUT_SIZE\<close> code units of what the child wrote on
  that stream while the host ran, so the chunk that crosses the cap is kept up to the cap
  and everything after it is dropped, and the truncation flag is set exactly when
  something was dropped. The handlers stay total on every later chunk. The cap bounds the
  byte count of a buffer when the child wrote ASCII only.
\<close>

theorem C6_output_cap:
  "length (stdout (foldl (dispatch env) initialRun events)) \<le> CONTAINER_MAX_OUTPUT_SIZE env
   \<and> length (stderr (foldl (dispatch env) initialRun events)) \<le> CONTAINER_MAX_OUTPUT_SIZE env
   \<and> stdout (foldl (dispatch env) initialRun events)
       = take (CONTAINER_MAX_OUTPUT_SIZE env) (stdoutChunks (handled events))
   \<and> stderr (foldl (dispatch env) initialRun events)
       = take (CONTAINER_MAX_OUTPUT_SIZE env) (stderrChunks (handled events))
   \<and> stdoutTruncated (foldl (dispatch env) initialRun events)
       = (CONTAINER_MAX_OUTPUT_SIZE env < length (stdoutChunks (handled events)))
   \<and> stderrTruncated (foldl (dispatch env) initialRun events)
       = (CONTAINER_MAX_OUTPUT_SIZE env < length (stderrChunks (handled events)))
   \<and> (list_all (\<lambda>c. of_char c < (128 :: nat)) (stdoutChunks (handled events))
        \<longrightarrow> byteLength (stdout (foldl (dispatch env) initialRun events))
              \<le> CONTAINER_MAX_OUTPUT_SIZE env)
   \<and> (list_all (\<lambda>c. of_char c < (128 :: nat)) (stderrChunks (handled events))
        \<longrightarrow> byteLength (stderr (foldl (dispatch env) initialRun events))
              \<le> CONTAINER_MAX_OUTPUT_SIZE env)"
proof -
  note B = dispatch_buffers[of env events, unfolded buffersOf_def]
  have ascii: "\<And>xs. list_all (\<lambda>c. of_char c < (128 :: nat)) xs
      \<Longrightarrow> byteLength (take (CONTAINER_MAX_OUTPUT_SIZE env) xs) \<le> CONTAINER_MAX_OUTPUT_SIZE env"
  proof -
    fix xs :: string
    assume "list_all (\<lambda>c. of_char c < (128 :: nat)) xs"
    then have "list_all (\<lambda>c. of_char c < (128 :: nat)) (take (CONTAINER_MAX_OUTPUT_SIZE env) xs)"
      by (auto simp add: list_all_iff dest: in_set_takeD)
    from ascii_bytes[OF this] show
      "byteLength (take (CONTAINER_MAX_OUTPUT_SIZE env) xs) \<le> CONTAINER_MAX_OUTPUT_SIZE env"
      by simp
  qed
  from B ascii show ?thesis by simp
qed

theorem C6_output_cap_witness:
  "list_all (\<lambda>c. of_char c < (128 :: nat))
     (stdoutChunks (handled [StdoutData ''0123456'', StdoutData ''789abc'', StdoutData ''more'']))
   \<and> stdout (foldl (dispatch smallCapEnv) initialRun
               [StdoutData ''0123456'', StdoutData ''789abc'', StdoutData ''more''])
       = ''0123456789''
   \<and> stdoutTruncated (foldl (dispatch smallCapEnv) initialRun
               [StdoutData ''0123456'', StdoutData ''789abc'', StdoutData ''more''])
   \<and> byteLength (stdout (foldl (dispatch smallCapEnv) initialRun
               [StdoutData ''0123456'', StdoutData ''789abc'', StdoutData ''more''])) \<le> 10"
proof -
  let ?ev = "[StdoutData ''0123456'', StdoutData ''789abc'', StdoutData ''more'']"
  have chunks: "stdoutChunks (handled ?ev) = ''0123456789abcmore''"
    by (simp add: handled_def stdoutChunks_def)
  have h: "list_all (\<lambda>c. of_char c < (128 :: nat)) (stdoutChunks (handled ?ev))"
    unfolding chunks by simp
  have cap: "CONTAINER_MAX_OUTPUT_SIZE smallCapEnv = 10"
    by (simp add: smallCapEnv_def)
  have tk: "take 10 ''0123456789abcmore'' = ''0123456789''"
    by simp
  have len: "(10 < length ''0123456789abcmore'') = True"
    by simp
  note T = C6_output_cap[of smallCapEnv ?ev, unfolded chunks cap tk len]
  from T have a: "stdout (foldl (dispatch smallCapEnv) initialRun ?ev) = ''0123456789''"
    by blast
  from T have b: "stdoutTruncated (foldl (dispatch smallCapEnv) initialRun ?ev)"
    by blast
  from T h[unfolded chunks]
  have c: "byteLength (stdout (foldl (dispatch smallCapEnv) initialRun ?ev)) \<le> 10"
    by blast
  from h a b c show ?thesis by (intro conjI)
qed

section \<open>Snapshot visibility\<close>

text \<open>
  C7: whenever \<open>writeTasksSnapshot\<close> completes, the tasks file of the group holds the
  serialisation of exactly the tasks whose \<open>group_folder\<close> is the group's folder when the
  group is not main, in their original order, and of the full input list, unmodified, when
  it is main.
\<close>

theorem C7_tasks_snapshot:
  assumes "fst (writeTasksSnapshot env gf im tasks fs0) = Inr u"
  shows "snd (writeTasksSnapshot env gf im tasks fs0) (tasksFile env gf)
           = Some (File (JSON_stringify env
                (TasksDoc (if im then tasks else filter (\<lambda>t. group_folder t = gf) tasks))))"
proof -
  let ?dir = "pathJoin (pathJoin (DATA_DIR env) ''ipc'') gf"
  let ?doc = "JSON_stringify env
                (TasksDoc (if im then tasks else filter (\<lambda>t. group_folder t = gf) tasks))"
  have unfold: "writeTasksSnapshot env gf im tasks fs0
      = thenDo (mkdirSync ?dir) (\<lambda>_. writeFileSync (tasksFile env gf) ?doc) fs0"
    by (simp add: writeTasksSnapshot_def tasksFile_def Let_def)
  from assms obtain a :: unit and s' where
    step: "writeFileSync (tasksFile env gf) ?doc s' = (Inr u, snd (writeTasksSnapshot env gf im tasks fs0))"
    unfolding unfold by (blast dest: thenDo_Inr)
  from writeFileSync_Inr[of "tasksFile env gf" ?doc s' u] step
  show ?thesis by simp
qed

theorem C7_tasks_snapshot_witness:
  "fst (writeTasksSnapshot demoEnv ''family'' False demoTasks Map.empty) = Inr ()
   \<and> snd (writeTasksSnapshot demoEnv ''family'' False demoTasks Map.empty)
        ''/srv/gigaclaw/data/ipc/family/current_tasks.json'' = Some (File ''[t1;t3;]'')
   \<and> fst (writeTasksSnapshot demoEnv ''main'' True demoTasks Map.empty) = Inr ()
   \<and> snd (writeTasksSnapshot demoEnv ''main'' True demoTasks Map.empty)
        ''/srv/gigaclaw/data/ipc/main/current_tasks.json'' = Some (File ''[t1;t2;t3;]'')"
proof -
  have h1: "fst (writeTasksSnapshot demoEnv ''family'' False demoTasks Map.empty) = Inr ()"
    by (simp add: writeTasksSnapshot_def fs_defs demoEnv_def hostEnv_def Let_def)
  have h2: "fst (writeTasksSnapshot demoEnv ''main'' True demoTasks Map.empty) = Inr ()"
    by (simp add: writeTasksSnapshot_def fs_defs demoEnv_def hostEnv_def Let_def)
  from C7_tasks_snapshot[OF h1] C7_tasks_snapshot[OF h2] h1 h2
  show ?thesis
    by (simp add: tasksFile_def demoEnv_def hostEnv_def demoStringify_def demoTasks_def pathJoin_def DATA_DIR_def)
qed

text \<open>
  C8: whenever \<open>writeGroupsSnapshot\<close> completes for a group that is not main, the
  \<open>groups\<close> array of the snapshot it wrote is empty, whatever the input list; only with
  \<open>isMain\<close> set is the input list written.
\<close>

theorem C8_groups_snapshot:
  assumes "fst (writeGroupsSnapshot env gf im groups fs0) = Inr u"
  shows "snd (writeGroupsSnapshot env gf im groups fs0) (groupsFile env gf)
           = Some (File (JSON_stringify env (GroupsDoc (if im then groups else []) (now env))))"
proof -
  let ?dir = "pathJoin (pathJoin (DATA_DIR env) ''ipc'') gf"
  let ?doc = "JSON_stringify env (GroupsDoc (if im then groups else []) (now env))"
  have unfold: "writeGroupsSnapshot env gf im groups fs0
      = thenDo (mkdirSync ?dir) (\<lambda>_. writeFileSync (groupsFile env gf) ?doc) fs0"
    by (simp add: writeGroupsSnapshot_def groupsFile_def Let_def)
  from assms obtain a :: unit and s' where
    step: "writeFileSync (groupsFile env gf) ?doc s' = (Inr u, snd (writeGroupsSnapshot env gf im groups fs0))"
    unfolding unfold by (blast dest: thenDo_Inr)
  from writeFileSync_Inr[of "groupsFile env gf" ?doc s' u] step
  show ?thesis by simp
qed

theorem C8_groups_snapshot_witness:
  "fst (writeGroupsSnapshot demoEnv ''family'' False demoGroups Map.empty) = Inr ()
   \<and> snd (writeGroupsSnapshot demoEnv ''family'' False demoGroups Map.empty)
        ''/srv/gigaclaw/data/ipc/family/available_groups.json''
       = Some (File ''[]@2026-01-01T00:00:00.000Z'')"
proof -
  have h1: "fst (writeGroupsSnapshot demoEnv ''family'' False demoGroups Map.empty) = Inr ()"
    by (simp add: writeGroupsSnapshot_def fs_defs demoEnv_def hostEnv_def Let_def)
  from C8_groups_snapshot[OF h1] h1
  show ?thesis
    by (simp add: groupsFile_def demoEnv_def hostEnv_def demoStringify_def pathJoin_def DATA_DIR_def)
qed

section \<open>Settlement of the runner\<close>

lemma resolve_settled: "settled (resolve out st) = Some (case settled st of None \<Rightarrow> out | Some o' \<Rightarrow> o')"
  by (simp add: resolve_def split: option.splits)

lemma resolve_timer [simp]: "timerArmed (resolve out st) = timerArmed st"
  by (simp add: resolve_def)

lemma data_settled:
  "isData e \<Longrightarrow> settled (handleEvent env st e) = settled st \<and> timerArmed (handleEvent env st e) = timerArmed st"
  by (cases e) (simp_all add: onStdoutData_def onStderrData_def Let_def)

lemma handleEvent_keeps:
  "settled st = Some out \<Longrightarrow> settled (handleEvent env st e) = Some out"
  by (cases e)
     (simp_all add: onStdoutData_def onStderrData_def onClose_def onError_def onTimeout_def
        resolve_def Let_def split: option.splits)

lemma foldl_keeps:
  "settled st = Some out \<Longrightarrow> settled (foldl (dispatch env) st events) = Some out"
  by (induction events arbitrary: st) (simp_all add: dispatch_def handleEvent_keeps)

lemma foldl_data:
  "list_all isData pre \<Longrightarrow>
     settled (foldl (handleEvent env) st pre) = settled st
     \<and> timerArmed (foldl (handleEvent env) st pre) = timerArmed st"
  by (induction pre arbitrary: st) (simp_all add: data_settled)

lemma handleEvent_verdict:
  assumes "\<not> isData e" and "e \<noteq> StdinError" and "settled st = None" and "timerArmed st"
  shows "settled (handleEvent env st e) = Some (verdict env (stdout st) e)"
  using assms
  by (cases e)
     (simp_all add: onClose_def onError_def onTimeout_def resolve_def Let_def split: option.splits)

lemma takeWhile_with_timer:
  "takeWhile isData (events @ [TimerFired]) = takeWhile isData events"
  by (induction events) simp_all

lemma dropWhile_with_timer: "dropWhile isData (events @ [TimerFired]) \<noteq> []"
  by (induction events) simp_all

lemma data_alive: "list_all isData pre \<Longrightarrow> StdinError \<notin> set pre"
  by (auto simp add: list_all_iff)

text \<open>The promise is settled by the first event that is not a chunk, unless that event is
  the error of the stdin stream, with which the host exits and the promise stays as it
  is.\<close>

lemma runChild_settled:
  "settled (runChild env events)
     = (if decisive events = StdinError then None else Some (turnOutput env events))"
proof -
  let ?all = "events @ [TimerFired]"
  let ?pre = "takeWhile isData events"
  obtain e rest where dw: "dropWhile isData ?all = e # rest"
    using dropWhile_with_timer[of events] by (cases "dropWhile isData ?all") auto
  have split: "?all = ?pre @ e # rest"
    using takeWhile_dropWhile_id[of isData ?all] dw by (simp add: takeWhile_with_timer)
  have nd: "\<not> isData e"
    using hd_dropWhile[of isData ?all] dw by simp
  have dec: "decisive events = e" by (simp add: decisive_def dw)
  let ?st = "foldl (handleEvent env) initialRun ?pre"
  have pre_data: "list_all isData ?pre"
    by (simp add: list_all_iff) (meson set_takeWhileD)
  have init: "\<not> hostExited initialRun" by (simp add: initialRun_def)
  from dispatch_alive[OF init data_alive[OF pre_data], of env]
  have run_pre: "foldl (dispatch env) initialRun ?pre = ?st" and alive: "\<not> hostExited ?st"
    by simp_all
  from foldl_data[OF pre_data, of env initialRun]
  have pending: "settled ?st = None" and armed: "timerArmed ?st"
    by (simp_all add: initialRun_def)
  from foldl_buffers[OF initial_buffers, of env ?pre]
  have out: "stdout ?st = stdoutAtSettlement env events"
    by (simp add: buffersOf_def stdoutAtSettlement_def)
  have run: "runChild env events = foldl (dispatch env) (dispatch env ?st e) rest"
    by (simp add: runChild_def split run_pre)
  show ?thesis
  proof (cases "e = StdinError")
    case True
    with alive have "dispatch env ?st e = ?st\<lparr>hostExited := True\<rparr>"
      by (simp add: dispatch_def)
    with run have "runChild env events = ?st\<lparr>hostExited := True\<rparr>"
      by (simp add: dispatch_exited)
    with pending True dec show ?thesis by simp
  next
    case False
    from handleEvent_verdict[OF nd False pending armed, of env] alive
    have "settled (dispatch env ?st e) = Some (verdict env (stdoutAtSettlement env events) e)"
      by (simp add: out dispatch_def)
    from foldl_keeps[OF this, where events = rest] False dec run
    show ?thesis by (simp add: turnOutput_def)
  qed
qed

lemma decisive_chunk_close: "decisive (StdoutData c # Close code # rest) = Close code"
  by (simp add: decisive_def)

lemma decisive_not_data: "\<not> isData (decisive events)"
  using hd_dropWhile[of isData "events @ [TimerFired]"] dropWhile_with_timer[of events]
  by (simp add: decisive_def)




lemma onFs_eqD:
  "onFs m w = (r, w') \<Longrightarrow> r = fst (m (fs w)) \<and> w' = w\<lparr>fs := snd (m (fs w))\<rparr>"
  by (auto simp add: onFs_def split: prod.splits)

lemma runContainerAgent_eqD:
  assumes "runContainerAgent env grp input events w = (r, w')"
  shows "sessions w' = sessions w \<and> lastAgentTimestamp w' = lastAgentTimestamp w
       \<and> registeredGroups w' = registeredGroups w \<and> outbox w' = outbox w
       \<and> (((\<exists>e. r = Rejected e) \<and> spawned w' = spawned w)
          \<or> (r = (if decisive events = StdinError then Pending
                   else Resolved (turnOutput env events))
              \<and> (\<exists>c a. spawned w' = spawned w @ [\<lparr>cmd = c, args = a, stdin = input\<rparr>])))"
proof (cases "onFs (prepareRun env grp input) w")
  case (Pair r1 w1)
  from onFs_eqD[OF Pair] have w1: "w1 = w\<lparr>fs := snd (prepareRun env grp input (fs w))\<rparr>" by simp
  show ?thesis
  proof (cases r1)
    case (Inl e)
    with Pair assms w1 show ?thesis by (auto simp add: runContainerAgent_def)
  next
    case (Inr mounts)
    with Pair assms w1 show ?thesis
      by (auto simp add: runContainerAgent_def Let_def runChild_settled)
  qed
qed

lemma storeSession_eqD:
  assumes "storeSession env grp out w = (r, w')"
  shows "sessions w' = (if truthy (newSessionId out)
                        then (sessions w)(folder grp := newSessionId out) else sessions w)
       \<and> lastAgentTimestamp w' = lastAgentTimestamp w
       \<and> registeredGroups w' = registeredGroups w \<and> outbox w' = outbox w
       \<and> spawned w' = spawned w"
  using assms
  by (auto simp add: storeSession_def returnOk_def Let_def onFs_def split: if_splits prod.splits)

text \<open>What a call of \<open>runAgent\<close> does: it stops before the spawn, or the host exits while
  the child runs, or the runner resolves and the session handle of the output is stored.\<close>

lemma runAgent_eqD:
  assumes "runAgent env grp p j events w = (r, w')"
  shows "lastAgentTimestamp w' = lastAgentTimestamp w
       \<and> registeredGroups w' = registeredGroups w \<and> outbox w' = outbox w
       \<and> ((spawned w' = spawned w \<and> sessions w' = sessions w \<and> r \<noteq> Pending
             \<and> (\<forall>t. r \<noteq> Resolved (Some t)))
          \<or> ((\<exists>c a. spawned w' = spawned w @ [\<lparr>cmd = c, args = a, stdin = agentInput grp p j w\<rparr>])
              \<and> decisive events = StdinError \<and> r = Pending \<and> sessions w' = sessions w)
          \<or> ((\<exists>c a. spawned w' = spawned w @ [\<lparr>cmd = c, args = a, stdin = agentInput grp p j w\<rparr>])
              \<and> decisive events \<noteq> StdinError
              \<and> sessions w' =
                  (if truthy (newSessionId (turnOutput env events))
                   then (sessions w)(folder grp :=
                          newSessionId (turnOutput env events))
                   else sessions w)
              \<and> (r = Resolved None
                  \<or> (status (turnOutput env events) \<noteq> Error
                      \<and> r = Resolved (result (turnOutput env events))))))"
proof -
  define im where "im = (folder grp = MAIN_GROUP_FOLDER)"
  define snap where "snap = map (\<lambda>t. \<lparr>task_id = task_id t, group_folder = group_folder t,
                                 task_prompt = task_prompt t, schedule_type = schedule_type t,
                                 schedule_value = schedule_value t, task_status = task_status t,
                                 next_run = next_run t\<rparr>) (getAllTasks env)"
  obtain r1 w1 where s1: "onFs (writeTasksSnapshot env (folder grp) im snap) w = (r1, w1)"
    by (cases "onFs (writeTasksSnapshot env (folder grp) im snap) w")
  obtain r2 w2 where
    s2: "onFs (writeGroupsSnapshot env (folder grp) im (getAvailableGroups env w1)) w1 = (r2, w2)"
    by (cases "onFs (writeGroupsSnapshot env (folder grp) im (getAvailableGroups env w1)) w1")
  obtain rc w3 where s3: "runContainerAgent env grp (agentInput grp p j w) events w2 = (rc, w3)"
    by (cases "runContainerAgent env grp (agentInput grp p j w) events w2")
  from onFs_eqD[OF s1] have f1: "sessions w1 = sessions w" "lastAgentTimestamp w1 = lastAgentTimestamp w"
    "registeredGroups w1 = registeredGroups w" "spawned w1 = spawned w" "outbox w1 = outbox w"
    by simp_all
  from onFs_eqD[OF s2] f1 have f2: "sessions w2 = sessions w"
    "lastAgentTimestamp w2 = lastAgentTimestamp w"
    "registeredGroups w2 = registeredGroups w" "spawned w2 = spawned w" "outbox w2 = outbox w"
    by simp_all
  note C = runContainerAgent_eqD[OF s3, unfolded f2]
  from C have f3: "sessions w3 = sessions w" "lastAgentTimestamp w3 = lastAgentTimestamp w"
    "registeredGroups w3 = registeredGroups w" "outbox w3 = outbox w"
    by simp_all
  have run: "(r, w') =
      (case r1 of
         Inl e \<Rightarrow> (Rejected e, w1)
       | Inr u \<Rightarrow>
           (case r2 of
              Inl e \<Rightarrow> (Rejected e, w2)
            | Inr u \<Rightarrow>
                (case rc of
                   Pending \<Rightarrow> (Pending, w3)
                 | Rejected err \<Rightarrow> (Resolved None, w3)
                 | Resolved output \<Rightarrow>
                     (case storeSession env grp output w3 of
                        (Inl err, w4) \<Rightarrow> (Resolved None, w4)
                      | (Inr u, w4) \<Rightarrow>
                          if status output = Error then (Resolved None, w4)
                          else (Resolved (result output), w4)))))"
    using assms s1 s2 s3
    by (simp add: runAgent_def Let_def agentInput_def im_def snap_def split: sum.splits)
  show ?thesis
  proof (cases r1)
    case (Inl e)
    with run f1 show ?thesis by simp
  next
    case u1: (Inr u)
    show ?thesis
    proof (cases r2)
      case (Inl e)
      with run u1 f2 show ?thesis by simp
    next
      case u2: (Inr u')
      show ?thesis
      proof (cases rc)
        case Pending
        with run u1 u2 have "r = Pending" "w' = w3" by simp_all
        with C f3 Pending show ?thesis by (auto split: if_splits)
      next
        case (Rejected err)
        with run u1 u2 have "r = Resolved None" "w' = w3" by simp_all
        with C f3 Rejected show ?thesis by (auto split: if_splits)
      next
        case (Resolved res0)
        obtain rs w4 where s4: "storeSession env grp res0 w3 = (rs, w4)"
          by (cases "storeSession env grp res0 w3")
        note S = storeSession_eqD[OF s4, unfolded f3]
        from C Resolved have nd: "decisive events \<noteq> StdinError"
          and outEq: "res0 = turnOutput env events"
          and sp: "\<exists>c a. spawned w3 = spawned w @ [\<lparr>cmd = c, args = a, stdin = agentInput grp p j w\<rparr>]"
          by (auto split: if_splits)
        from run u1 u2 Resolved s4 have res: "w' = w4"
          "r = Resolved None \<or> (status res0 \<noteq> Error \<and> r = Resolved (result res0))"
          by (auto split: sum.splits if_splits)
        from S sp have sp4: "\<exists>c a. spawned w4 = spawned w @ [\<lparr>cmd = c, args = a, stdin = agentInput grp p j w\<rparr>]"
          by simp
        from S res nd outEq sp4 show ?thesis by simp
      qed
    qed
  qed
qed

lemma turnPrompt_nonempty: "turnPrompt env msg w \<noteq> []"
  by (simp add: turnPrompt_def Let_def)

lemma sendMessage_fields:
  "sessions (sendMessage j t w) = sessions w"
  "lastAgentTimestamp (sendMessage j t w) = lastAgentTimestamp w"
  "registeredGroups (sendMessage j t w) = registeredGroups w"
  "spawned (sendMessage j t w) = spawned w"
  "fs (sendMessage j t w) = fs w"
  by (simp_all add: sendMessage_def sendTelegramResponse_def split: list.splits option.splits)

lemma typingIndicator_fields:
  "sessions (typingIndicator msg w) = sessions w"
  "lastAgentTimestamp (typingIndicator msg w) = lastAgentTimestamp w"
  "registeredGroups (typingIndicator msg w) = registeredGroups w"
  "spawned (typingIndicator msg w) = spawned w"
  "fs (typingIndicator msg w) = fs w"
  by (simp_all add: typingIndicator_def sendTypingAction_def)

lemma saveState_eqD:
  "saveState env w = (r, w') \<Longrightarrow>
     sessions w' = sessions w \<and> lastAgentTimestamp w' = lastAgentTimestamp w
     \<and> registeredGroups w' = registeredGroups w \<and> spawned w' = spawned w \<and> outbox w' = outbox w"
  by (auto simp add: saveState_def dest!: onFs_eqD)

lemma deliver_eqD:
  assumes "deliver env msg response w = (r, w')"
  shows "r \<noteq> Pending \<and> sessions w' = sessions w \<and> spawned w' = spawned w
       \<and> registeredGroups w' = registeredGroups w
       \<and> lastAgentTimestamp w' =
           (if truthy response then (lastAgentTimestamp w)(chat_jid msg \<mapsto> timestamp msg)
            else lastAgentTimestamp w)"
  using assms
  unfolding deliver_def Let_def
  by (auto split: option.splits if_splits prod.splits sum.splits
        simp add: sendMessage_fields dest!: saveState_eqD)

lemma deliver_falsy: "\<not> truthy response \<Longrightarrow> deliver env msg response w = (Resolved (), w)"
  by (cases response) (simp_all add: deliver_def)

lemma agentInput_typing [simp]:
  "agentInput grp p j (typingIndicator msg w) = agentInput grp p j w"
  by (simp add: agentInput_def typingIndicator_fields)

lemma processMessage_triggered:
  assumes "registeredGroups w (chat_jid msg) = Some grp"
    and "folder grp = MAIN_GROUP_FOLDER \<or> TRIGGER_PATTERN_test env (trim (content msg))"
  shows "processMessage env msg events w =
           (case runAgent env grp (turnPrompt env msg w) (chat_jid msg) events (typingIndicator msg w) of
              (Pending, w2) \<Rightarrow> (Pending, w2)
            | (Rejected e, w2) \<Rightarrow> (Rejected e, w2)
            | (Resolved response, w2) \<Rightarrow> deliver env msg response w2)"
  using assms by (auto simp add: processMessage_def Let_def turnPrompt_nonempty)

lemma processMessage_untriggered:
  assumes "registeredGroups w (chat_jid msg) = Some grp"
    and "\<not> (folder grp = MAIN_GROUP_FOLDER \<or> TRIGGER_PATTERN_test env (trim (content msg)))"
  shows "processMessage env msg events w = (Resolved (), w)"
  using assms by (auto simp add: processMessage_def Let_def)

text \<open>What a call of \<open>processMessage\<close> does to the host state: nothing that touches the
  sessions or the watermarks when no child is spawned; when one is spawned, either the
  host exits while it runs, or the session handle of its output is stored and the
  watermark moves on a truthy result.\<close>

lemma processMessage_eqD:
  assumes "processMessage env msg events w = (r, w')"
  shows "registeredGroups w' = registeredGroups w
       \<and> ((spawned w' = spawned w \<and> sessions w' = sessions w
             \<and> lastAgentTimestamp w' = lastAgentTimestamp w \<and> r \<noteq> Pending)
          \<or> (\<exists>grp c a.
               registeredGroups w (chat_jid msg) = Some grp
               \<and> (folder grp = MAIN_GROUP_FOLDER \<or> TRIGGER_PATTERN_test env (trim (content msg)))
               \<and> spawned w' = spawned w @
                    [\<lparr>cmd = c, args = a,
                      stdin = agentInput grp (turnPrompt env msg w) (chat_jid msg) w\<rparr>]
               \<and> ((decisive events = StdinError \<and> r = Pending \<and> sessions w' = sessions w
                     \<and> lastAgentTimestamp w' = lastAgentTimestamp w)
                  \<or> (decisive events \<noteq> StdinError \<and> r \<noteq> Pending
                      \<and> sessions w' =
                         (if truthy (newSessionId (turnOutput env events))
                          then (sessions w)(folder grp :=
                                 newSessionId (turnOutput env events))
                          else sessions w)
                      \<and> (lastAgentTimestamp w' = lastAgentTimestamp w
                          \<or> (status (turnOutput env events) \<noteq> Error
                              \<and> truthy (result (turnOutput env events))
                              \<and> lastAgentTimestamp w' =
                                  (lastAgentTimestamp w)(chat_jid msg \<mapsto> timestamp msg)))))))"
proof (cases "registeredGroups w (chat_jid msg)")
  case None
  with assms show ?thesis by (auto simp add: processMessage_def)
next
  case (Some grp)
  show ?thesis
  proof (cases "folder grp = MAIN_GROUP_FOLDER \<or> TRIGGER_PATTERN_test env (trim (content msg))")
    case False
    from processMessage_untriggered[OF Some False] assms show ?thesis by auto
  next
    case True
    obtain ra wa where ra: "runAgent env grp (turnPrompt env msg w) (chat_jid msg) events
                              (typingIndicator msg w) = (ra, wa)"
      by (cases "runAgent env grp (turnPrompt env msg w) (chat_jid msg) events (typingIndicator msg w)")
    note A = runAgent_eqD[OF ra, simplified typingIndicator_fields agentInput_typing]
    from processMessage_triggered[OF Some True, of events] assms ra
    have pm: "(case ra of Pending \<Rightarrow> (Pending, wa) | Rejected e \<Rightarrow> (Rejected e, wa)
               | Resolved response \<Rightarrow> deliver env msg response wa) = (r, w')"
      by simp
    show ?thesis
    proof (cases ra)
      case Pending
      with pm have "r = Pending" "w' = wa" by simp_all
      with A Pending Some True show ?thesis by auto
    next
      case (Rejected e)
      with pm have "r = Rejected e" "w' = wa" by simp_all
      with A Rejected Some True show ?thesis by auto
    next
      case (Resolved response)
      with pm have d: "deliver env msg response wa = (r, w')" by simp
      note D = deliver_eqD[OF d]
      from A D Resolved Some True show ?thesis
        by (cases "truthy response") auto
    qed
  qed
qed

lemma advanced_Resolved:
  "advanced msg (Resolved response) marks
     = (if truthy response then marks(chat_jid msg \<mapsto> timestamp msg) else marks)"
  by (cases response) (simp_all add: advanced_def)

lemma processMessage_watermarks:
  "lastAgentTimestamp (snd (processMessage env msg events w))
     = advanced msg (turnResponse env msg events w) (lastAgentTimestamp w)"
proof (cases "registeredGroups w (chat_jid msg)")
  case None
  then show ?thesis by (simp add: processMessage_def turnResponse_def advanced_def)
next
  case (Some grp)
  show ?thesis
  proof (cases "folder grp = MAIN_GROUP_FOLDER \<or> TRIGGER_PATTERN_test env (trim (content msg))")
    case False
    from processMessage_untriggered[OF Some False, of events] Some False
    show ?thesis by (simp add: turnResponse_def advanced_def)
  next
    case True
    obtain ra wa where ra: "runAgent env grp (turnPrompt env msg w) (chat_jid msg) events
                              (typingIndicator msg w) = (ra, wa)"
      by (cases "runAgent env grp (turnPrompt env msg w) (chat_jid msg) events (typingIndicator msg w)")
    note A = runAgent_eqD[OF ra, simplified typingIndicator_fields agentInput_typing]
    have tr: "turnResponse env msg events w = ra"
      using Some True ra by (simp add: turnResponse_def)
    note pm = processMessage_triggered[OF Some True, of events, simplified ra prod.case]
    show ?thesis
    proof (cases ra)
      case Pending
      with pm A tr show ?thesis by (simp add: advanced_def)
    next
      case (Rejected e)
      with pm A tr show ?thesis by (simp add: advanced_def)
    next
      case (Resolved response)
      obtain r w' where d: "deliver env msg response wa = (r, w')"
        by (cases "deliver env msg response wa")
      from A have wa: "lastAgentTimestamp wa = lastAgentTimestamp w" by simp
      from deliver_eqD[OF d] have
        "lastAgentTimestamp w' =
           (if truthy response then (lastAgentTimestamp wa)(chat_jid msg \<mapsto> timestamp msg)
            else lastAgentTimestamp wa)" by simp
      with wa pm Resolved d tr show ?thesis
        by (simp add: advanced_Resolved)
    qed
  qed
qed

lemma turnResponse_output:
  assumes "turnResponse env msg events w = Resolved (Some text)"
  shows "status (turnOutput env events) = Success \<and> result (turnOutput env events) = Some text"
proof (cases "registeredGroups w (chat_jid msg)")
  case None
  with assms show ?thesis by (simp add: turnResponse_def)
next
  case (Some grp)
  show ?thesis
  proof (cases "folder grp = MAIN_GROUP_FOLDER \<or> TRIGGER_PATTERN_test env (trim (content msg))")
    case False
    with Some assms show ?thesis by (auto simp add: turnResponse_def)
  next
    case True
    obtain ra wa where ra: "runAgent env grp (turnPrompt env msg w) (chat_jid msg) events
                              (typingIndicator msg w) = (ra, wa)"
      by (cases "runAgent env grp (turnPrompt env msg w) (chat_jid msg) events (typingIndicator msg w)")
    have tr: "ra = Resolved (Some text)"
      using Some True ra assms by (simp add: turnResponse_def)
    from runAgent_eqD[OF ra] tr show ?thesis
      by (cases "status (turnOutput env events)") auto
  qed
qed

lemma watermark_step:
  "watermark (snd (processMessage env msg events w)) j = watermark w j
   \<or> (chat_jid msg = j \<and> watermark (snd (processMessage env msg events w)) j = timestamp msg)"
  by (auto simp add: watermark_def processMessage_watermarks advanced_def
        split: promise.splits option.splits)

lemma pending_response:
  "(fst (processMessage env msg events w) = Pending) = (turnResponse env msg events w = Pending)"
proof (cases "registeredGroups w (chat_jid msg)")
  case None
  then show ?thesis by (simp add: processMessage_def turnResponse_def)
next
  case (Some grp)
  show ?thesis
  proof (cases "folder grp = MAIN_GROUP_FOLDER \<or> TRIGGER_PATTERN_test env (trim (content msg))")
    case False
    from processMessage_untriggered[OF Some False, of events] Some False
    show ?thesis by (simp add: turnResponse_def)
  next
    case True
    obtain ra wa where ra: "runAgent env grp (turnPrompt env msg w) (chat_jid msg) events
                              (typingIndicator msg w) = (ra, wa)"
      by (cases "runAgent env grp (turnPrompt env msg w) (chat_jid msg) events (typingIndicator msg w)")
    have tr: "turnResponse env msg events w = ra"
      using Some True ra by (simp add: turnResponse_def)
    note pm = processMessage_triggered[OF Some True, of events, simplified ra prod.case]
    show ?thesis
    proof (cases ra)
      case Pending
      with pm tr show ?thesis by simp
    next
      case (Rejected e)
      with pm tr show ?thesis by simp
    next
      case (Resolved response)
      obtain r w' where d: "deliver env msg response wa = (r, w')"
        by (cases "deliver env msg response wa")
      from deliver_eqD[OF d] have "r \<noteq> Pending" by simp
      with pm Resolved d tr show ?thesis by simp
    qed
  qed
qed

lemma processMessages_Cons:
  "processMessages (t # rest) w
     = (if turnResponse (fst t) (turnMsg t) (snd (snd t)) w = Pending
        then snd (processMessage (fst t) (turnMsg t) (snd (snd t)) w)
        else processMessages rest (snd (processMessage (fst t) (turnMsg t) (snd (snd t)) w)))"
proof -
  obtain env msg events where t: "t = (env, msg, events)" by (cases t) auto
  obtain r w' where pm: "processMessage env msg events w = (r, w')"
    by (cases "processMessage env msg events w")
  from pending_response[of env msg events w] pm
  have "(r = Pending) = (turnResponse env msg events w = Pending)" by simp
  with pm t show ?thesis by (cases r) (simp_all add: turnMsg_def)
qed

lemma watermark_origin:
  "watermark (processMessages turns w) j = watermark w j
   \<or> watermark (processMessages turns w) j \<in> set (chatTimes j turns)"
proof (induction turns arbitrary: w)
  case Nil
  then show ?case by simp
next
  case (Cons t rest)
  let ?w1 = "snd (processMessage (fst t) (turnMsg t) (snd (snd t)) w)"
  from Cons.IH[of ?w1] watermark_step[of "fst t" "turnMsg t" "snd (snd t)" w j]
  show ?case
    by (auto simp add: processMessages_Cons chatTimes_def simp del: processMessages.simps(2))
qed

lemma watermark_grows:
  assumes "sorted (chatTimes j turns)"
    and "\<forall>t \<in> set (chatTimes j turns). watermark w j \<le> t"
  shows "watermark w j \<le> watermark (processMessages turns w) j"
  using watermark_origin[of turns w j] assms by auto

lemma chatTimes_Cons:
  "chatTimes j (t # turns)
     = (if chat_jid (turnMsg t) = j then [timestamp (turnMsg t)] else []) @ chatTimes j turns"
  by (simp add: chatTimes_def)

lemma watermark_monotone:
  assumes "sorted (chatTimes j (pre @ post))"
    and "\<forall>t \<in> set (chatTimes j (pre @ post)). watermark w j \<le> t"
  shows "watermark (processMessages pre w) j \<le> watermark (processMessages (pre @ post) w) j"
  using assms
proof (induction pre arbitrary: w)
  case Nil
  from watermark_grows[of j post w] Nil show ?case by simp
next
  case (Cons t pre)
  let ?w1 = "snd (processMessage (fst t) (turnMsg t) (snd (snd t)) w)"
  show ?case
  proof (cases "turnResponse (fst t) (turnMsg t) (snd (snd t)) w = Pending")
    case True
    then show ?thesis
      by (simp add: processMessages_Cons del: processMessages.simps(2))
  next
    case False
    from Cons.prems(1) have s: "sorted (chatTimes j (pre @ post))"
      by (simp add: chatTimes_Cons split: if_splits)
    have b: "\<forall>t' \<in> set (chatTimes j (pre @ post)). watermark ?w1 j \<le> t'"
      using watermark_step[of "fst t" "turnMsg t" "snd (snd t)" w j] Cons.prems
      by (auto simp add: chatTimes_Cons split: if_splits)
    from Cons.IH[OF s b] False show ?thesis
      by (simp add: processMessages_Cons del: processMessages.simps(2))
  qed
qed

lemma response_means_spawn:
  assumes "turnResponse env msg events w = Resolved (Some t)"
  shows "\<exists>grp c a. registeredGroups w (chat_jid msg) = Some grp
           \<and> spawned (snd (processMessage env msg events w))
               = spawned w @ [\<lparr>cmd = c, args = a,
                    stdin = agentInput grp (turnPrompt env msg w) (chat_jid msg) w\<rparr>]"
proof (cases "registeredGroups w (chat_jid msg)")
  case None
  with assms show ?thesis by (simp add: turnResponse_def)
next
  case (Some grp)
  show ?thesis
  proof (cases "folder grp = MAIN_GROUP_FOLDER \<or> TRIGGER_PATTERN_test env (trim (content msg))")
    case False
    with Some assms show ?thesis by (auto simp add: turnResponse_def)
  next
    case True
    obtain ra wa where ra: "runAgent env grp (turnPrompt env msg w) (chat_jid msg) events
                              (typingIndicator msg w) = (ra, wa)"
      by (cases "runAgent env grp (turnPrompt env msg w) (chat_jid msg) events (typingIndicator msg w)")
    have tr: "ra = Resolved (Some t)"
      using Some True ra assms by (simp add: turnResponse_def)
    note A = runAgent_eqD[OF ra, simplified typingIndicator_fields agentInput_typing]
    from A tr obtain c a where sp: "spawned wa = spawned w @
        [\<lparr>cmd = c, args = a, stdin = agentInput grp (turnPrompt env msg w) (chat_jid msg) w\<rparr>]"
      by auto
    obtain r w' where d: "deliver env msg (Some t) wa = (r, w')"
      by (cases "deliver env msg (Some t) wa")
    from deliver_eqD[OF d] have "spawned w' = spawned wa" by simp
    moreover from processMessage_triggered[OF Some True, of events] ra tr d
    have "snd (processMessage env msg events w) = w'" by simp
    ultimately show ?thesis using sp Some by auto
  qed
qed

section \<open>Evaluation on the concrete host\<close>

lemmas string_defs = indexOf_def splitLines_def trim_def trimStart_def trimEnd_def
  isWhitespace_def nl_def dq_def quoted_def OUTPUT_START_MARKER_def OUTPUT_END_MARKER_def

lemma demoEnv_fields:
  "cwd demoEnv = ''/srv/gigaclaw''" "ASSISTANT_NAME demoEnv = ''Neo''" "MESSAGE_PREFIX demoEnv = []"
  "CONTAINER_IMAGE demoEnv = ''gigaclaw-agent:latest''"
  "CONTAINER_MAX_OUTPUT_SIZE demoEnv = 10485760" "platform demoEnv = ''linux''"
  "getuid demoEnv = Some 1000" "getgid demoEnv = Some 1000" "now demoEnv = ''2026-01-01T00:00:00.000Z''"
  "JSON_parse demoEnv = demoParse" "JSON_stringify demoEnv = demoStringify"
  "validateAdditionalMounts demoEnv = (\<lambda>_ _ _. [])" "saveJson demoEnv = demoSaveJson"
  "getMessagesSince demoEnv = messagesSince [mainMessage]"
  "getAllTasks demoEnv = []" "getAllChats demoEnv = []"
  by (simp_all add: demoEnv_def hostEnv_def)

lemma hostEnv_fields:
  "cwd (hostEnv store) = ''/srv/gigaclaw''" "ASSISTANT_NAME (hostEnv store) = ''Neo''"
  "MESSAGE_PREFIX (hostEnv store) = []"
  "CONTAINER_IMAGE (hostEnv store) = ''gigaclaw-agent:latest''"
  "CONTAINER_MAX_OUTPUT_SIZE (hostEnv store) = 10485760" "platform (hostEnv store) = ''linux''"
  "getuid (hostEnv store) = Some 1000" "getgid (hostEnv store) = Some 1000"
  "now (hostEnv store) = ''2026-01-01T00:00:00.000Z''"
  "JSON_parse (hostEnv store) = demoParse" "JSON_stringify (hostEnv store) = demoStringify"
  "validateAdditionalMounts (hostEnv store) = (\<lambda>_ _ _. [])"
  "saveJson (hostEnv store) = demoSaveJson"
  "getMessagesSince (hostEnv store) = messagesSince store"
  "getAllTasks (hostEnv store) = []" "getAllChats (hostEnv store) = []"
  by (simp_all add: hostEnv_def)

lemma demo_payload_error: "extractJsonLine errorJson = errorJson"
  by (simp add: extractJsonLine_def errorJson_def string_defs Let_def)

lemma demo_error_output:
  "turnOutput (hostEnv store) [StdoutData errorJson, Close (Some 0)]
   = \<lparr>status = Error, result = None, newSessionId = Some ''s2'', error = Some ''x''\<rparr>"
proof -
  have "length errorJson \<le> 10485760"
    by (simp add: errorJson_def quoted_def)
  then have a: "stdoutAtSettlement (hostEnv store) [StdoutData errorJson, Close (Some 0)] = errorJson"
    by (simp add: stdoutAtSettlement_def stdoutChunks_def hostEnv_fields)
  have b: "decisive [StdoutData errorJson, Close (Some 0)] = Close (Some 0)"
    by (simp add: decisive_def)
  have c: "demoParse errorJson
            = Some \<lparr>status = Error, result = None, newSessionId = Some ''s2'', error = Some ''x''\<rparr>"
    by (simp add: demoParse_def errorJson_def successJson_def quoted_def)
  show ?thesis by (simp add: turnOutput_def a b c demo_payload_error hostEnv_fields)
qed

lemma demo_success_output:
  "turnOutput (hostEnv store) [StdoutData successJson, Close (Some 0)]
   = \<lparr>status = Success, result = Some ''hello'', newSessionId = Some ''s1'', error = None\<rparr>"
proof -
  have "length successJson \<le> 10485760"
    by (simp add: successJson_def quoted_def)
  then have a: "stdoutAtSettlement (hostEnv store) [StdoutData successJson, Close (Some 0)] = successJson"
    by (simp add: stdoutAtSettlement_def stdoutChunks_def hostEnv_fields)
  have b: "decisive [StdoutData successJson, Close (Some 0)] = Close (Some 0)"
    by (simp add: decisive_def)
  have c: "demoParse successJson
            = Some \<lparr>status = Success, result = Some ''hello'', newSessionId = Some ''s1'', error = None\<rparr>"
    by (simp add: demoParse_def)
  have d: "extractJsonLine successJson = successJson"
    by (simp add: extractJsonLine_def successJson_def string_defs Let_def)
  show ?thesis by (simp add: turnOutput_def a b c d hostEnv_fields)
qed

lemma demo_empty_output:
  "turnOutput (hostEnv store) [StdoutData emptyResultJson, Close (Some 0)]
   = \<lparr>status = Success, result = Some [], newSessionId = None, error = None\<rparr>"
proof -
  have "length emptyResultJson \<le> 10485760"
    by (simp add: emptyResultJson_def quoted_def)
  then have a: "stdoutAtSettlement (hostEnv store) [StdoutData emptyResultJson, Close (Some 0)] = emptyResultJson"
    by (simp add: stdoutAtSettlement_def stdoutChunks_def hostEnv_fields)
  have b: "decisive [StdoutData emptyResultJson, Close (Some 0)] = Close (Some 0)"
    by (simp add: decisive_def)
  have c: "demoParse emptyResultJson
            = Some \<lparr>status = Success, result = Some [], newSessionId = None, error = None\<rparr>"
    by (simp add: demoParse_def emptyResultJson_def successJson_def errorJson_def quoted_def)
  have d: "extractJsonLine emptyResultJson = emptyResultJson"
    by (simp add: extractJsonLine_def emptyResultJson_def string_defs Let_def)
  show ?thesis by (simp add: turnOutput_def a b c d hostEnv_fields)
qed

lemmas turn_defs = processMessage_def runAgent_def runContainerAgent_def prepareRun_def
  buildVolumeMounts_def envFileStep_def writeTasksSnapshot_def writeGroupsSnapshot_def
  getAvailableGroups_def typingIndicator_fields storeSession_def deliver_def
  saveState_def demoSaveJson_def sendMessage_fields
  fs_defs hostEnv_fields hostEnv_fields demoWorld_def MAIN_GROUP_FOLDER_def

lemma demoMessage_fields:
  "chat_jid mainMessage = ''telegram@chat:1''"
  "timestamp mainMessage = ''2026-01-01T00:00:01.000Z''"
  "chat_jid laterMessage = ''telegram@chat:1''"
  "timestamp laterMessage = ''2026-01-01T00:00:02.000Z''"
  "chat_jid sameSecondMessage = ''telegram@chat:1''"
  "timestamp sameSecondMessage = ''2026-01-01T00:00:01.000Z''"
  by (simp_all add: mainMessage_def laterMessage_def sameSecondMessage_def demoMessage_def)

lemma demo_first_turn:
  assumes "chat_jid m = ''telegram@chat:1''"
  shows "turnResponse (hostEnv store) m [StdoutData successJson, Close (Some 0)] demoWorld
     = Resolved (Some ''hello'')"
  using assms
  by (simp add: turnResponse_def turn_defs Let_def runChild_settled decisive_chunk_close demo_success_output)

lemma demo_second_turn:
  assumes "chat_jid m1 = ''telegram@chat:1''" and "chat_jid m2 = ''telegram@chat:1''"
  shows "turnResponse (hostEnv store2) m2 [StdoutData successJson, Close (Some 0)]
     (snd (processMessage (hostEnv store1) m1 [StdoutData successJson, Close (Some 0)] demoWorld))
     = Resolved (Some ''hello'')"
  using assms
  by (simp add: turnResponse_def turn_defs Let_def runChild_settled decisive_chunk_close
        demo_success_output turnPrompt_nonempty)

lemma demo_empty_turn:
  assumes "chat_jid m = ''telegram@chat:1''"
  shows "turnResponse (hostEnv store) m [StdoutData emptyResultJson, Close (Some 0)] demoWorld
     = Resolved (Some [])"
  using assms
  by (simp add: turnResponse_def turn_defs Let_def runChild_settled decisive_chunk_close demo_empty_output)

lemma demoWorld_marks: "lastAgentTimestamp demoWorld j = None"
  by (simp add: demoWorld_def)

lemma family_fields:
  "chat_jid familyMessage = ''telegram@chat:2''"
  "timestamp familyMessage = ''2026-01-01T00:00:02.000Z''"
  "content familyMessage = ''@Neo hi''"
  "chat_jid familyChatter = ''telegram@chat:2''"
  "timestamp familyChatter = ''2026-01-01T00:00:03.000Z''"
  "sender_name familyChatter = ''alice''"
  "chat_jid familyOlder = ''telegram@chat:2''"
  "timestamp familyOlder = ''2026-01-01T00:00:01.000Z''"
  "content familyOlder = ''@Neo and this''"
  by (simp_all add: familyMessage_def familyChatter_def familyOlder_def demoMessage_def)

lemma family_triggers:
  "TRIGGER_PATTERN_test (hostEnv store) (trim ''@Neo hi'')"
  "TRIGGER_PATTERN_test (hostEnv store) (trim ''@Neo and this'')"
  "\<not> TRIGGER_PATTERN_test (hostEnv store) (trim ''see you at 8'')"
  by (simp_all add: TRIGGER_PATTERN_test_def hostEnv_fields canonicalize_def isWordChar_def
        trim_def trimStart_def trimEnd_def isWhitespace_def Let_def)

lemma demo_family_turn:
  assumes "chat_jid m = ''telegram@chat:2''"
    and "TRIGGER_PATTERN_test (hostEnv store) (trim (content m))"
  shows "turnResponse (hostEnv store) m [StdoutData successJson, Close (Some 0)] demoWorld
     = Resolved (Some ''hello'')"
  using assms
  by (simp add: turnResponse_def turn_defs Let_def runChild_settled decisive_chunk_close demo_success_output)

lemma demo_family_second_turn:
  assumes "chat_jid m1 = ''telegram@chat:2''"
    and "TRIGGER_PATTERN_test (hostEnv store1) (trim (content m1))"
    and "chat_jid m2 = ''telegram@chat:2''"
    and "TRIGGER_PATTERN_test (hostEnv store2) (trim (content m2))"
  shows "turnResponse (hostEnv store2) m2 [StdoutData successJson, Close (Some 0)]
     (snd (processMessage (hostEnv store1) m1 [StdoutData successJson, Close (Some 0)] demoWorld))
     = Resolved (Some ''hello'')"
  using assms
  by (simp add: turnResponse_def turn_defs Let_def runChild_settled decisive_chunk_close
        demo_success_output turnPrompt_nonempty)
section \<open>Environment filtering\<close>

lemma allowed_names:
  "v \<in> set ALLOWED_ENV_VARS \<Longrightarrow> v \<noteq> [] \<and> CHR ''='' \<notin> set v \<and> trim v = v \<and> hd v \<noteq> CHR ''#''"
  by (auto simp add: ALLOWED_ENV_VARS_def trim_def trimStart_def trimEnd_def isWhitespace_def)

lemma allowedLine_shape:
  assumes "allowedLine t"
  obtains v rest where "v \<in> set ALLOWED_ENV_VARS" and "t = v @ CHR ''='' # rest"
  using assms by (auto simp add: allowedLine_def list_ex_iff prefix_def)

lemma allowedLine_not_comment:
  assumes "allowedLine t"
  shows "t \<noteq> [] \<and> \<not> prefix ''#'' t"
proof -
  from assms obtain v rest where v: "v \<in> set ALLOWED_ENV_VARS" and t: "t = v @ CHR ''='' # rest"
    by (rule allowedLine_shape)
  from allowed_names[OF v] have "v \<noteq> []" "hd v \<noteq> CHR ''#''" by simp_all
  then show ?thesis using t by (cases v) (auto simp add: prefix_def)
qed

lemma filterEnvLines_eq:
  "filterEnvLines c = filter (\<lambda>l. allowedLine (trim l)) (splitLines c)"
proof -
  have "filterEnvLines c
          = filter (\<lambda>line. let trimmed = trim line
                           in if trimmed = [] \<or> prefix ''#'' trimmed then False
                              else allowedLine trimmed) (splitLines c)"
    by (simp add: filterEnvLines_def allowedLine_def)
  also have "\<dots> = filter (\<lambda>l. allowedLine (trim l)) (splitLines c)"
    by (rule filter_cong) (use allowedLine_not_comment in \<open>auto simp add: Let_def\<close>)
  finally show ?thesis .
qed

lemma indexOf_char:
  "c \<notin> set xs \<Longrightarrow> indexOfFrom [c] (xs @ c # rest) i = int (i + length xs)"
  by (induction xs arbitrary: i) auto

lemma splitOn_nonempty [simp]: "splitOn sep s \<noteq> []"
  by (induction s) (auto split: list.splits)

lemma splitOn_no_sep: "l \<in> set (splitOn sep s) \<Longrightarrow> sep \<notin> set l"
  by (induction s arbitrary: l) (auto split: list.splits if_splits)

lemma splitOn_free: "sep \<notin> set l \<Longrightarrow> splitOn sep l = [l]"
  by (induction l) auto

lemma splitOn_append:
  "sep \<notin> set l \<Longrightarrow> splitOn sep (l @ sep # s) = l # splitOn sep s"
  by (induction l) auto

lemma splitOn_join:
  "ls \<noteq> [] \<Longrightarrow> \<forall>l \<in> set ls. nl \<notin> set l \<Longrightarrow> splitOn nl (joinLines ls) = ls"
proof (induction ls rule: joinLines.induct)
  case 1
  then show ?case by simp
next
  case (2 l)
  then show ?case by (simp add: splitOn_free)
next
  case (3 l l' ls)
  then show ?case by (simp add: splitOn_append)
qed

lemma splitOn_snoc_sep: "splitOn sep (s @ [sep]) = splitOn sep s @ [[]]"
  by (induction s) (auto split: list.splits)

lemma envFile_lines:
  "set (splitLines (envFileContent c)) = set (filterEnvLines c) \<union> {[]}"
proof (cases "filterEnvLines c = []")
  case True
  then show ?thesis by (simp add: envFileContent_def splitLines_def)
next
  case False
  have "\<forall>l \<in> set (filterEnvLines c). nl \<notin> set l"
    by (auto simp add: filterEnvLines_def splitLines_def dest: splitOn_no_sep)
  from splitOn_join[OF False this] show ?thesis
    by (simp add: envFileContent_def splitLines_def splitOn_snoc_sep)
qed

lemma loaded_key:
  assumes "allowedLine (trim l)"
  shows "\<exists>v val. v \<in> set ALLOWED_ENV_VARS \<and>
     (let trimmed = trim l
        in if trimmed = [] \<or> prefix ''#'' trimmed then []
           else let eqIndex = indexOf trimmed ''=''
                in if eqIndex > 0
                   then [(trim (slice trimmed 0 eqIndex),
                          trim (slice trimmed (eqIndex + 1) (int (length trimmed))))]
                   else []) = [(v, val)]"
proof -
  from assms obtain v rest where v: "v \<in> set ALLOWED_ENV_VARS" and t: "trim l = v @ CHR ''='' # rest"
    by (rule allowedLine_shape)
  note N = allowed_names[OF v]
  from N have idx: "indexOf (trim l) ''='' = int (length v)"
    using indexOf_char[of "CHR ''=''" v rest 0] by (simp add: indexOf_def t)
  have pos: "0 < length v" using N by simp
  have key: "slice (trim l) 0 (int (length v)) = v"
    by (simp add: slice_from_zero t)
  from allowedLine_not_comment[OF assms] idx pos key N v show ?thesis
    by (auto simp add: Let_def)
qed

lemma loaded_keys_allowed:
  "kv \<in> set (loadContainerEnv (envFileContent c)) \<Longrightarrow> fst kv \<in> set ALLOWED_ENV_VARS"
proof -
  assume kv: "kv \<in> set (loadContainerEnv (envFileContent c))"
  then obtain l where l: "l \<in> set (filterEnvLines c) \<union> {[]}"
    and in_l: "kv \<in> set (let trimmed = trim l
        in if trimmed = [] \<or> prefix ''#'' trimmed then []
           else let eqIndex = indexOf trimmed ''=''
                in if eqIndex > 0
                   then [(trim (slice trimmed 0 eqIndex),
                          trim (slice trimmed (eqIndex + 1) (int (length trimmed))))]
                   else [])"
    unfolding loadContainerEnv_def using envFile_lines[of c] by auto
  show ?thesis
  proof (cases "l = []")
    case True
    with in_l show ?thesis by (simp add: trim_def trimStart_def trimEnd_def)
  next
    case False
    with l have "allowedLine (trim l)" by (auto simp add: filterEnvLines_eq)
    from loaded_key[OF this] in_l show ?thesis by auto
  qed
qed

lemma thenDo_InrE:
  assumes "thenDo m f s = (Inr b, s2)"
  obtains a s1 where "m s = (Inr a, s1)" and "f a s1 = (Inr b, s2)"
proof -
  from assms have "fst (thenDo m f s) = Inr b" by simp
  from thenDo_Inr[OF this] assms show ?thesis using that by auto
qed

lemma mkdirSync_files:
  "mkdirSync p fs0 = (r, fs1) \<Longrightarrow> (fs1 q = Some (File c)) = (fs0 q = Some (File c))"
  by (auto simp add: mkdirSync_def split: option.splits node.splits if_splits)

lemma envFileStep_result:
  assumes "envFileStep env mounts fs0 = (Inr ms, fs1)"
  shows "ms = mounts @ (case fs0 (pathJoin (cwd env) ''.env'') of
                          Some (File envContent) \<Rightarrow>
                            if filterEnvLines envContent \<noteq> [] then [envDirMount env] else []
                        | _ \<Rightarrow> [])
       \<and> (\<forall>envContent. fs0 (pathJoin (cwd env) ''.env'') = Some (File envContent)
              \<and> filterEnvLines envContent \<noteq> []
            \<longrightarrow> fs1 (pathJoin (pathJoin (DATA_DIR env) ''env'') ''env'')
                  = Some (File (envFileContent envContent)))"
proof -
  let ?envDir = "pathJoin (DATA_DIR env) ''env''"
  let ?envFile = "pathJoin (cwd env) ''.env''"
  from assms obtain u fsA where mk: "mkdirSync ?envDir fs0 = (Inr u, fsA)"
    and rest: "thenDo (existsSync ?envFile) (\<lambda>ex.
           if ex then
             thenDo (readFileSync ?envFile) (\<lambda>envContent.
               let filteredLines = filterEnvLines envContent
               in if length filteredLines > 0
                  then thenDo (writeFileSync (pathJoin ?envDir ''env'')
                                 (joinLines filteredLines @ [nl]))
                         (\<lambda>_. returnOk (mounts @ [envDirMount env]))
                  else returnOk mounts)
           else returnOk mounts) fsA = (Inr ms, fs1)"
    unfolding envFileStep_def Let_def by (rule thenDo_InrE)
  note keep = mkdirSync_files[OF mk, of ?envFile]
  show ?thesis
  proof (cases "fsA ?envFile")
    case None
    with rest have "ms = mounts" by (simp add: thenDo_def existsSync_def returnOk_def)
    moreover from None keep have "\<And>c. fs0 ?envFile \<noteq> Some (File c)" by simp
    ultimately show ?thesis by (auto split: option.splits node.splits)
  next
    case (Some n)
    show ?thesis
    proof (cases n)
      case Dir
      with Some rest show ?thesis
        by (simp add: thenDo_def existsSync_def readFileSync_def)
    next
      case (File envContent)
      with Some keep have f0: "fs0 ?envFile = Some (File envContent)" by simp
      show ?thesis
      proof (cases "filterEnvLines envContent = []")
        case True
        with Some File rest have "ms = mounts"
          by (simp add: thenDo_def existsSync_def readFileSync_def returnOk_def)
        with True f0 show ?thesis by simp
      next
        case False
        with Some File rest
        have w: "thenDo (writeFileSync (pathJoin ?envDir ''env'') (joinLines (filterEnvLines envContent) @ [nl]))
                   (\<lambda>_. returnOk (mounts @ [envDirMount env])) fsA = (Inr ms, fs1)"
          by (simp add: thenDo_def existsSync_def readFileSync_def Let_def)
        then obtain u2 fsB where
          wr: "writeFileSync (pathJoin ?envDir ''env'') (joinLines (filterEnvLines envContent) @ [nl]) fsA
                 = (Inr u2, fsB)"
          and ret: "returnOk (mounts @ [envDirMount env]) fsB = (Inr ms, fs1)"
          by (rule thenDo_InrE)
        from ret have ms: "ms = mounts @ [envDirMount env]" and fs1: "fs1 = fsB"
          by (simp_all add: returnOk_def)
        from wr have "fst (writeFileSync (pathJoin ?envDir ''env'')
                             (joinLines (filterEnvLines envContent) @ [nl]) fsA) = Inr u2"
          and "snd (writeFileSync (pathJoin ?envDir ''env'')
                             (joinLines (filterEnvLines envContent) @ [nl]) fsA) = fsB"
          by simp_all
        with writeFileSync_Inr[of "pathJoin ?envDir ''env''"
               "joinLines (filterEnvLines envContent) @ [nl]" fsA u2]
        have "fsB (pathJoin ?envDir ''env'') = Some (File (envFileContent envContent))"
          by (simp add: envFileContent_def)
        with ms fs1 f0 False show ?thesis by simp
      qed
    qed
  qed
qed

lemma buildVolumeMounts_unfold:
  "buildVolumeMounts env grp im =
     thenDo (if im
             then returnOk [\<lparr>hostPath = cwd env, containerPath = ''/workspace/project'',
                              readonly = False\<rparr>,
                            \<lparr>hostPath = pathJoin (GROUPS_DIR env) (folder grp),
                             containerPath = ''/workspace/group'', readonly = False\<rparr>]
             else thenDo (existsSync (pathJoin (GROUPS_DIR env) ''global'')) (\<lambda>ex.
                    returnOk (if ex
                              then [\<lparr>hostPath = pathJoin (GROUPS_DIR env) (folder grp),
                                     containerPath = ''/workspace/group'', readonly = False\<rparr>,
                                    \<lparr>hostPath = pathJoin (GROUPS_DIR env) ''global'',
                                     containerPath = ''/workspace/global'', readonly = True\<rparr>]
                              else [\<lparr>hostPath = pathJoin (GROUPS_DIR env) (folder grp),
                                     containerPath = ''/workspace/group'', readonly = False\<rparr>])))
       (\<lambda>mounts1.
         thenDo (mkdirSync (pathJoin (pathJoin (pathJoin (DATA_DIR env) ''sessions'') (folder grp)) ''.claude'')) (\<lambda>_.
         thenDo (mkdirSync (pathJoin (pathJoin (pathJoin (DATA_DIR env) ''ipc'') (folder grp)) ''messages'')) (\<lambda>_.
         thenDo (mkdirSync (pathJoin (pathJoin (pathJoin (DATA_DIR env) ''ipc'') (folder grp)) ''tasks'')) (\<lambda>_.
         thenDo (envFileStep env
                   (mounts1 @
                    [\<lparr>hostPath = pathJoin (pathJoin (DATA_DIR env) ''sessions'') (folder grp),
                      containerPath = ''/home/user'', readonly = False\<rparr>,
                     \<lparr>hostPath = pathJoin (pathJoin (DATA_DIR env) ''ipc'') (folder grp),
                      containerPath = ''/workspace/ipc'', readonly = False\<rparr>])) (\<lambda>mounts2.
         returnOk (mounts2 @ validatedMounts env grp im))))))"
  by (simp add: buildVolumeMounts_def Let_def validatedMounts_def)

lemma initialMounts_result:
  assumes "(if im
             then returnOk [\<lparr>hostPath = a, containerPath = ''/workspace/project'', readonly = False\<rparr>,
                            \<lparr>hostPath = b, containerPath = ''/workspace/group'', readonly = False\<rparr>]
             else thenDo (existsSync g) (\<lambda>ex.
                    returnOk (if ex
                              then [\<lparr>hostPath = b, containerPath = ''/workspace/group'', readonly = False\<rparr>,
                                    \<lparr>hostPath = g, containerPath = ''/workspace/global'', readonly = True\<rparr>]
                              else [\<lparr>hostPath = b, containerPath = ''/workspace/group'', readonly = False\<rparr>])))
            fs0 = (Inr mounts1, fs1)"
  shows "fs1 = fs0 \<and> envMounts mounts1 = []
       \<and> (im \<longrightarrow> mounts1 = [\<lparr>hostPath = a, containerPath = ''/workspace/project'', readonly = False\<rparr>,
                            \<lparr>hostPath = b, containerPath = ''/workspace/group'', readonly = False\<rparr>])"
  using assms
  by (auto simp add: returnOk_def thenDo_def existsSync_def envMounts_def split: if_splits)

lemma buildVolumeMounts_env:
  assumes "buildVolumeMounts env grp im fs0 = (Inr ms, fs1)"
  shows "envMounts ms
           = (case fs0 (pathJoin (cwd env) ''.env'') of
                Some (File envContent) \<Rightarrow>
                  if filterEnvLines envContent \<noteq> [] then [envDirMount env] else []
              | _ \<Rightarrow> [])
             @ envMounts (validatedMounts env grp im)
       \<and> (\<forall>envContent. fs0 (pathJoin (cwd env) ''.env'') = Some (File envContent)
              \<and> filterEnvLines envContent \<noteq> []
            \<longrightarrow> fs1 (pathJoin (pathJoin (DATA_DIR env) ''env'') ''env'')
                  = Some (File (envFileContent envContent)))
       \<and> (im \<longrightarrow> hd ms = \<lparr>hostPath = cwd env, containerPath = ''/workspace/project'',
                           readonly = False\<rparr>)"
proof -
  let ?envFile = "pathJoin (cwd env) ''.env''"
  from assms[unfolded buildVolumeMounts_unfold]
  obtain mounts1 fsA where init: "(if im
             then returnOk [\<lparr>hostPath = cwd env, containerPath = ''/workspace/project'',
                              readonly = False\<rparr>,
                            \<lparr>hostPath = pathJoin (GROUPS_DIR env) (folder grp),
                             containerPath = ''/workspace/group'', readonly = False\<rparr>]
             else thenDo (existsSync (pathJoin (GROUPS_DIR env) ''global'')) (\<lambda>ex.
                    returnOk (if ex
                              then [\<lparr>hostPath = pathJoin (GROUPS_DIR env) (folder grp),
                                     containerPath = ''/workspace/group'', readonly = False\<rparr>,
                                    \<lparr>hostPath = pathJoin (GROUPS_DIR env) ''global'',
                                     containerPath = ''/workspace/global'', readonly = True\<rparr>]
                              else [\<lparr>hostPath = pathJoin (GROUPS_DIR env) (folder grp),
                                     containerPath = ''/workspace/group'', readonly = False\<rparr>])))
            fs0 = (Inr mounts1, fsA)"
    and r1: "thenDo (mkdirSync (pathJoin (pathJoin (pathJoin (DATA_DIR env) ''sessions'') (folder grp)) ''.claude'')) (\<lambda>_.
         thenDo (mkdirSync (pathJoin (pathJoin (pathJoin (DATA_DIR env) ''ipc'') (folder grp)) ''messages'')) (\<lambda>_.
         thenDo (mkdirSync (pathJoin (pathJoin (pathJoin (DATA_DIR env) ''ipc'') (folder grp)) ''tasks'')) (\<lambda>_.
         thenDo (envFileStep env
                   (mounts1 @
                    [\<lparr>hostPath = pathJoin (pathJoin (DATA_DIR env) ''sessions'') (folder grp),
                      containerPath = ''/home/user'', readonly = False\<rparr>,
                     \<lparr>hostPath = pathJoin (pathJoin (DATA_DIR env) ''ipc'') (folder grp),
                      containerPath = ''/workspace/ipc'', readonly = False\<rparr>])) (\<lambda>mounts2.
         returnOk (mounts2 @ validatedMounts env grp im))))) fsA = (Inr ms, fs1)"
    by (rule thenDo_InrE)
  from initialMounts_result[OF init] have fsA: "fsA = fs0" and e1: "envMounts mounts1 = []"
    and proj: "im \<longrightarrow> mounts1 = [\<lparr>hostPath = cwd env, containerPath = ''/workspace/project'',
                                   readonly = False\<rparr>,
                                 \<lparr>hostPath = pathJoin (GROUPS_DIR env) (folder grp),
                                  containerPath = ''/workspace/group'', readonly = False\<rparr>]"
    by simp_all
  from r1 obtain u1 fsB where m1: "mkdirSync (pathJoin (pathJoin (pathJoin (DATA_DIR env) ''sessions'') (folder grp)) ''.claude'') fsA = (Inr u1, fsB)"
    and r2: "thenDo (mkdirSync (pathJoin (pathJoin (pathJoin (DATA_DIR env) ''ipc'') (folder grp)) ''messages'')) (\<lambda>_.
         thenDo (mkdirSync (pathJoin (pathJoin (pathJoin (DATA_DIR env) ''ipc'') (folder grp)) ''tasks'')) (\<lambda>_.
         thenDo (envFileStep env
                   (mounts1 @
                    [\<lparr>hostPath = pathJoin (pathJoin (DATA_DIR env) ''sessions'') (folder grp),
                      containerPath = ''/home/user'', readonly = False\<rparr>,
                     \<lparr>hostPath = pathJoin (pathJoin (DATA_DIR env) ''ipc'') (folder grp),
                      containerPath = ''/workspace/ipc'', readonly = False\<rparr>])) (\<lambda>mounts2.
         returnOk (mounts2 @ validatedMounts env grp im)))) fsB = (Inr ms, fs1)"
    by (rule thenDo_InrE)
  from r2 obtain u2 fsC where m2: "mkdirSync (pathJoin (pathJoin (pathJoin (DATA_DIR env) ''ipc'') (folder grp)) ''messages'') fsB = (Inr u2, fsC)"
    and r3: "thenDo (mkdirSync (pathJoin (pathJoin (pathJoin (DATA_DIR env) ''ipc'') (folder grp)) ''tasks'')) (\<lambda>_.
         thenDo (envFileStep env
                   (mounts1 @
                    [\<lparr>hostPath = pathJoin (pathJoin (DATA_DIR env) ''sessions'') (folder grp),
                      containerPath = ''/home/user'', readonly = False\<rparr>,
                     \<lparr>hostPath = pathJoin (pathJoin (DATA_DIR env) ''ipc'') (folder grp),
                      containerPath = ''/workspace/ipc'', readonly = False\<rparr>])) (\<lambda>mounts2.
         returnOk (mounts2 @ validatedMounts env grp im))) fsC = (Inr ms, fs1)"
    by (rule thenDo_InrE)
  from r3 obtain u3 fsD where m3: "mkdirSync (pathJoin (pathJoin (pathJoin (DATA_DIR env) ''ipc'') (folder grp)) ''tasks'') fsC = (Inr u3, fsD)"
    and r4: "thenDo (envFileStep env
                   (mounts1 @
                    [\<lparr>hostPath = pathJoin (pathJoin (DATA_DIR env) ''sessions'') (folder grp),
                      containerPath = ''/home/user'', readonly = False\<rparr>,
                     \<lparr>hostPath = pathJoin (pathJoin (DATA_DIR env) ''ipc'') (folder grp),
                      containerPath = ''/workspace/ipc'', readonly = False\<rparr>])) (\<lambda>mounts2.
         returnOk (mounts2 @ validatedMounts env grp im)) fsD = (Inr ms, fs1)"
    by (rule thenDo_InrE)
  from r4 obtain mounts2 fsE where ef: "envFileStep env
                   (mounts1 @
                    [\<lparr>hostPath = pathJoin (pathJoin (DATA_DIR env) ''sessions'') (folder grp),
                      containerPath = ''/home/user'', readonly = False\<rparr>,
                     \<lparr>hostPath = pathJoin (pathJoin (DATA_DIR env) ''ipc'') (folder grp),
                      containerPath = ''/workspace/ipc'', readonly = False\<rparr>]) fsD = (Inr mounts2, fsE)"
    and r5: "returnOk (mounts2 @ validatedMounts env grp im) fsE = (Inr ms, fs1)"
    by (rule thenDo_InrE)
  from r5 have ms: "ms = mounts2 @ validatedMounts env grp im" and fs1: "fs1 = fsE"
    by (simp_all add: returnOk_def)
  have keep: "\<And>c. (fsD ?envFile = Some (File c)) = (fs0 ?envFile = Some (File c))"
    using mkdirSync_files[OF m1, of ?envFile] mkdirSync_files[OF m2, of ?envFile]
      mkdirSync_files[OF m3, of ?envFile] fsA by simp
  have same: "(case fsD ?envFile of
                Some (File envContent) \<Rightarrow>
                  if filterEnvLines envContent \<noteq> [] then [envDirMount env] else []
              | _ \<Rightarrow> [])
            = (case fs0 ?envFile of
                Some (File envContent) \<Rightarrow>
                  if filterEnvLines envContent \<noteq> [] then [envDirMount env] else []
              | _ \<Rightarrow> [])"
  proof (cases "\<exists>c. fs0 ?envFile = Some (File c)")
    case True
    then obtain c where c: "fs0 ?envFile = Some (File c)" by blast
    with keep[of c] have "fsD ?envFile = Some (File c)" by simp
    with c show ?thesis by simp
  next
    case False
    with keep have "\<not> (\<exists>c. fsD ?envFile = Some (File c))" by simp
    with False show ?thesis by (auto split: option.splits node.splits)
  qed
  have envm: "envMounts [envDirMount env] = [envDirMount env]"
    by (simp add: envMounts_def envDirMount_def)
  from envFileStep_result[OF ef] same
  have m2: "mounts2 = (mounts1 @
                    [\<lparr>hostPath = pathJoin (pathJoin (DATA_DIR env) ''sessions'') (folder grp),
                      containerPath = ''/home/user'', readonly = False\<rparr>,
                     \<lparr>hostPath = pathJoin (pathJoin (DATA_DIR env) ''ipc'') (folder grp),
                      containerPath = ''/workspace/ipc'', readonly = False\<rparr>])
               @ (case fs0 ?envFile of
                    Some (File envContent) \<Rightarrow>
                      if filterEnvLines envContent \<noteq> [] then [envDirMount env] else []
                  | _ \<Rightarrow> [])"
    and wr: "\<forall>envContent. fsD ?envFile = Some (File envContent)
              \<and> filterEnvLines envContent \<noteq> []
            \<longrightarrow> fsE (pathJoin (pathJoin (DATA_DIR env) ''env'') ''env'')
                  = Some (File (envFileContent envContent))"
    by simp_all
  have part1: "envMounts ms
           = (case fs0 ?envFile of
                Some (File envContent) \<Rightarrow>
                  if filterEnvLines envContent \<noteq> [] then [envDirMount env] else []
              | _ \<Rightarrow> [])
             @ envMounts (validatedMounts env grp im)"
    using e1 envm unfolding ms m2
    by (auto simp add: envMounts_def split: option.splits node.splits)
  have part2: "\<forall>envContent. fs0 ?envFile = Some (File envContent)
              \<and> filterEnvLines envContent \<noteq> []
            \<longrightarrow> fs1 (pathJoin (pathJoin (DATA_DIR env) ''env'') ''env'')
                  = Some (File (envFileContent envContent))"
    using wr keep fs1 by simp
  have part3: "im \<longrightarrow> hd ms = \<lparr>hostPath = cwd env, containerPath = ''/workspace/project'',
                                 readonly = False\<rparr>"
    using proj unfolding ms m2 by simp
  from part1 part2 part3 show ?thesis by simp
qed

lemma demo_filter:
  "filterEnvLines demoDotEnv = ['' TZ=UTC'', ''ANTHROPIC_API_KEY=k'']"
  by (simp add: filterEnvLines_def demoDotEnv_def ALLOWED_ENV_VARS_def
        splitLines_def trim_def trimStart_def trimEnd_def isWhitespace_def nl_def Let_def)

lemma demo_secret_filter: "filterEnvLines secretDotEnv = []"
  by (simp add: filterEnvLines_def secretDotEnv_def ALLOWED_ENV_VARS_def
        splitLines_def trim_def trimStart_def trimEnd_def isWhitespace_def nl_def Let_def)

lemma demo_wordy_filter: "filterEnvLines wordyDotEnv = [''TZ=UTC SECRET=hunter2'']"
  by (simp add: filterEnvLines_def wordyDotEnv_def ALLOWED_ENV_VARS_def
        splitLines_def trim_def trimStart_def trimEnd_def isWhitespace_def nl_def Let_def)

lemma demo_loaded:
  "loadContainerEnv (envFileContent demoDotEnv) = [(''TZ'', ''UTC''), (''ANTHROPIC_API_KEY'', ''k'')]"
  by (simp add: envFileContent_def demo_filter loadContainerEnv_def
        splitLines_def trim_def trimStart_def trimEnd_def isWhitespace_def nl_def Let_def
        indexOf_def slice_def sliceIndex_def)

lemma demo_wordy_exports:
  "entrypointExports (envFileContent wordyDotEnv) = Some [(''TZ'', ''UTC''), (''SECRET'', ''hunter2'')]"
  by (simp add: envFileContent_def demo_wordy_filter entrypointExports_def shellWords_def
        isShellSpecial_def isBlank_def exportWord_def isIdentifier_def isDigit_def isWordChar_def
        nl_def dq_def Let_def)

lemma demo_main_mounts:
  "fst (buildVolumeMounts demoEnv \<lparr>name = ''Main'', folder = ''main'', containerConfig = None\<rparr> True
          [''/srv/gigaclaw/.env'' \<mapsto> File secretDotEnv])
   = Inr [\<lparr>hostPath = ''/srv/gigaclaw'', containerPath = ''/workspace/project'', readonly = False\<rparr>,
          \<lparr>hostPath = ''/srv/gigaclaw/groups/main'', containerPath = ''/workspace/group'',
           readonly = False\<rparr>,
          \<lparr>hostPath = ''/srv/gigaclaw/data/sessions/main'', containerPath = ''/home/user'',
           readonly = False\<rparr>,
          \<lparr>hostPath = ''/srv/gigaclaw/data/ipc/main'', containerPath = ''/workspace/ipc'',
           readonly = False\<rparr>]"
  by (simp add: buildVolumeMounts_def envFileStep_def fs_defs demoEnv_fields demo_secret_filter
        Let_def)

text \<open>
  C5, as stated, fails three times. The filter tests the trimmed line but keeps the line as
  it is, so an allowed variable that is indented in the host file reaches the mounted file
  with its indentation, and that line does not begin with the name of a variable. A line
  is kept whole, with what follows the allowed assignment: the entrypoint of the container
  splits the mounted file into words and exports each of them, so the second assignment
  on the line of an allowed one reaches the environment of the agent. And for the main
  group the builder mounts the project root, read-write, which holds the unfiltered file
  and the environment directory, also when no line survives the filter.
\<close>

theorem C5_counterexample:
  "filterEnvLines '' TZ=UTC'' = ['' TZ=UTC''] \<and> \<not> allowedLine '' TZ=UTC''
   \<and> filterEnvLines wordyDotEnv = [wordyDotEnv]
   \<and> entrypointExports (envFileContent wordyDotEnv)
       = Some [(''TZ'', ''UTC''), (''SECRET'', ''hunter2'')]
   \<and> ''SECRET'' \<notin> set ALLOWED_ENV_VARS
   \<and> filterEnvLines secretDotEnv = []
   \<and> fst (buildVolumeMounts demoEnv \<lparr>name = ''Main'', folder = ''main'', containerConfig = None\<rparr>
            True [''/srv/gigaclaw/.env'' \<mapsto> File secretDotEnv])
       = Inr [\<lparr>hostPath = ''/srv/gigaclaw'', containerPath = ''/workspace/project'',
               readonly = False\<rparr>,
              \<lparr>hostPath = ''/srv/gigaclaw/groups/main'', containerPath = ''/workspace/group'',
               readonly = False\<rparr>,
              \<lparr>hostPath = ''/srv/gigaclaw/data/sessions/main'', containerPath = ''/home/user'',
               readonly = False\<rparr>,
              \<lparr>hostPath = ''/srv/gigaclaw/data/ipc/main'', containerPath = ''/workspace/ipc'',
               readonly = False\<rparr>]
   \<and> pathJoin (cwd demoEnv) ''.env'' = ''/srv/gigaclaw/.env''
   \<and> pathJoin (DATA_DIR demoEnv) ''env'' = ''/srv/gigaclaw/data/env''"
proof -
  have a: "filterEnvLines '' TZ=UTC'' = ['' TZ=UTC''] \<and> \<not> allowedLine '' TZ=UTC''"
    by (simp add: filterEnvLines_def allowedLine_def ALLOWED_ENV_VARS_def
          splitLines_def trim_def trimStart_def trimEnd_def isWhitespace_def nl_def Let_def)
  have b: "filterEnvLines wordyDotEnv = [wordyDotEnv]"
    by (simp add: demo_wordy_filter) (simp add: wordyDotEnv_def)
  have c: "''SECRET'' \<notin> set ALLOWED_ENV_VARS"
    by (simp add: ALLOWED_ENV_VARS_def)
  have d: "pathJoin (cwd demoEnv) ''.env'' = ''/srv/gigaclaw/.env''"
    "pathJoin (DATA_DIR demoEnv) ''env'' = ''/srv/gigaclaw/data/env''"
    by (simp_all add: pathJoin_def DATA_DIR_def demoEnv_fields)
  from a b c d demo_wordy_exports demo_secret_filter demo_main_mounts show ?thesis
    by (intro conjI) simp_all
qed

text \<open>
  C5, amended: the filtered environment file holds exactly the lines of the host file that,
  once trimmed of surrounding white space, begin with an allowed variable name followed by
  \<open>=\<close>, each of them whole and untrimmed; every variable that \<open>loadContainerEnv\<close> reads
  from the mounted file has an allowed name. The builder mounts the environment directory
  at \<open>/workspace/env-dir\<close> exactly when the host file exists and at least one of its lines
  survives the filter, and the mounted file then holds the surviving lines; with no
  surviving line it adds no such mount. For the main group the first mount is the project
  root.
\<close>

theorem C5_env_filter:
  "filterEnvLines c = filter (\<lambda>l. allowedLine (trim l)) (splitLines c)
   \<and> (\<forall>l \<in> set (filterEnvLines c). allowedLine (trim l))
   \<and> (\<forall>kv \<in> set (loadContainerEnv (envFileContent c)). fst kv \<in> set ALLOWED_ENV_VARS)
   \<and> (fst (buildVolumeMounts env grp im fs0) = Inr ms
        \<longrightarrow> envMounts ms
              = (case fs0 (pathJoin (cwd env) ''.env'') of
                   Some (File envContent) \<Rightarrow>
                     if filterEnvLines envContent \<noteq> [] then [envDirMount env] else []
                 | _ \<Rightarrow> [])
                @ envMounts (validatedMounts env grp im)
            \<and> (\<forall>envContent. fs0 (pathJoin (cwd env) ''.env'') = Some (File envContent)
                   \<and> filterEnvLines envContent \<noteq> []
                 \<longrightarrow> snd (buildVolumeMounts env grp im fs0)
                       (pathJoin (pathJoin (DATA_DIR env) ''env'') ''env'')
                     = Some (File (envFileContent envContent)))
            \<and> (im \<longrightarrow> hd ms = \<lparr>hostPath = cwd env, containerPath = ''/workspace/project'',
                                readonly = False\<rparr>))"
proof -
  have a: "filterEnvLines c = filter (\<lambda>l. allowedLine (trim l)) (splitLines c)"
    by (rule filterEnvLines_eq)
  have b: "\<forall>l \<in> set (filterEnvLines c). allowedLine (trim l)"
    by (simp add: filterEnvLines_eq)
  have c: "\<forall>kv \<in> set (loadContainerEnv (envFileContent c)). fst kv \<in> set ALLOWED_ENV_VARS"
    using loaded_keys_allowed by blast
  have d: "fst (buildVolumeMounts env grp im fs0) = Inr ms
        \<longrightarrow> envMounts ms
              = (case fs0 (pathJoin (cwd env) ''.env'') of
                   Some (File envContent) \<Rightarrow>
                     if filterEnvLines envContent \<noteq> [] then [envDirMount env] else []
                 | _ \<Rightarrow> [])
                @ envMounts (validatedMounts env grp im)
            \<and> (\<forall>envContent. fs0 (pathJoin (cwd env) ''.env'') = Some (File envContent)
                   \<and> filterEnvLines envContent \<noteq> []
                 \<longrightarrow> snd (buildVolumeMounts env grp im fs0)
                       (pathJoin (pathJoin (DATA_DIR env) ''env'') ''env'')
                     = Some (File (envFileContent envContent)))
            \<and> (im \<longrightarrow> hd ms = \<lparr>hostPath = cwd env, containerPath = ''/workspace/project'',
                                readonly = False\<rparr>)"
  proof
    assume h: "fst (buildVolumeMounts env grp im fs0) = Inr ms"
    then have "buildVolumeMounts env grp im fs0 = (Inr ms, snd (buildVolumeMounts env grp im fs0))"
      by (simp add: prod_eq_iff)
    from buildVolumeMounts_env[OF this] show "envMounts ms
              = (case fs0 (pathJoin (cwd env) ''.env'') of
                   Some (File envContent) \<Rightarrow>
                     if filterEnvLines envContent \<noteq> [] then [envDirMount env] else []
                 | _ \<Rightarrow> [])
                @ envMounts (validatedMounts env grp im)
            \<and> (\<forall>envContent. fs0 (pathJoin (cwd env) ''.env'') = Some (File envContent)
                   \<and> filterEnvLines envContent \<noteq> []
                 \<longrightarrow> snd (buildVolumeMounts env grp im fs0)
                       (pathJoin (pathJoin (DATA_DIR env) ''env'') ''env'')
                     = Some (File (envFileContent envContent)))
            \<and> (im \<longrightarrow> hd ms = \<lparr>hostPath = cwd env, containerPath = ''/workspace/project'',
                                readonly = False\<rparr>)" .
  qed
  from a b c d show ?thesis by blast
qed

theorem C5_env_filter_witness:
  "filterEnvLines demoDotEnv = ['' TZ=UTC'', ''ANTHROPIC_API_KEY=k'']
   \<and> allowedLine (trim '' TZ=UTC'') \<and> allowedLine (trim ''ANTHROPIC_API_KEY=k'')
   \<and> loadContainerEnv (envFileContent demoDotEnv) = [(''TZ'', ''UTC''), (''ANTHROPIC_API_KEY'', ''k'')]
   \<and> ''TZ'' \<in> set ALLOWED_ENV_VARS \<and> ''ANTHROPIC_API_KEY'' \<in> set ALLOWED_ENV_VARS
   \<and> (\<exists>ms. fst (buildVolumeMounts demoEnv familyGroup False
                  [''/srv/gigaclaw/.env'' \<mapsto> File demoDotEnv]) = Inr ms
          \<and> envMounts ms = [envDirMount demoEnv])
   \<and> snd (buildVolumeMounts demoEnv familyGroup False [''/srv/gigaclaw/.env'' \<mapsto> File demoDotEnv])
        ''/srv/gigaclaw/data/env/env''
      = Some (File ('' TZ=UTC'' @ [nl] @ ''ANTHROPIC_API_KEY=k'' @ [nl]))
   \<and> (\<exists>ms. fst (buildVolumeMounts demoEnv familyGroup False
                  [''/srv/gigaclaw/.env'' \<mapsto> File secretDotEnv]) = Inr ms
          \<and> envMounts ms = [])
   \<and> (\<exists>ms. fst (buildVolumeMounts demoEnv \<lparr>name = ''Main'', folder = ''main'', containerConfig = None\<rparr>
                  True [''/srv/gigaclaw/.env'' \<mapsto> File secretDotEnv]) = Inr ms
          \<and> envMounts ms = []
          \<and> hd ms = \<lparr>hostPath = ''/srv/gigaclaw'', containerPath = ''/workspace/project'',
                      readonly = False\<rparr>)"
proof -
  let ?fs1 = "[''/srv/gigaclaw/.env'' \<mapsto> File demoDotEnv]"
  let ?fs2 = "[''/srv/gigaclaw/.env'' \<mapsto> File secretDotEnv]"
  let ?main = "\<lparr>name = ''Main'', folder = ''main'', containerConfig = None\<rparr>"
  obtain ms1 where ok1: "fst (buildVolumeMounts demoEnv familyGroup False ?fs1) = Inr ms1"
    by (simp add: buildVolumeMounts_def envFileStep_def fs_defs demoEnv_fields familyGroup_def
          demo_filter Let_def)
  obtain ms2 where ok2: "fst (buildVolumeMounts demoEnv familyGroup False ?fs2) = Inr ms2"
    by (simp add: buildVolumeMounts_def envFileStep_def fs_defs demoEnv_fields familyGroup_def
          demo_secret_filter Let_def)
  obtain ms3 where ok3: "fst (buildVolumeMounts demoEnv ?main True ?fs2) = Inr ms3"
    by (simp add: demo_main_mounts)
  have v: "validatedMounts demoEnv familyGroup False = []"
    "validatedMounts demoEnv ?main True = []"
    by (simp_all add: validatedMounts_def familyGroup_def)
  have p: "pathJoin (cwd demoEnv) ''.env'' = ''/srv/gigaclaw/.env''"
    "pathJoin (pathJoin (DATA_DIR demoEnv) ''env'') ''env'' = ''/srv/gigaclaw/data/env/env''"
    by (simp_all add: pathJoin_def DATA_DIR_def demoEnv_fields)
  note T1 = C5_env_filter[of demoDotEnv demoEnv familyGroup False ?fs1 ms1]
  note T2 = C5_env_filter[of demoDotEnv demoEnv familyGroup False ?fs2 ms2]
  note T3 = C5_env_filter[of demoDotEnv demoEnv ?main True ?fs2 ms3]
  from T1 have lines: "\<forall>l \<in> set (filterEnvLines demoDotEnv). allowedLine (trim l)"
    and keys: "\<forall>kv \<in> set (loadContainerEnv (envFileContent demoDotEnv)).
                 fst kv \<in> set ALLOWED_ENV_VARS"
    by blast+
  from T1 ok1 have m1: "envMounts ms1 = [envDirMount demoEnv]"
    and w1: "snd (buildVolumeMounts demoEnv familyGroup False ?fs1) ''/srv/gigaclaw/data/env/env''
               = Some (File (envFileContent demoDotEnv))"
    by (simp_all add: p v demo_filter envMounts_def)
  from T2 ok2 have m2: "envMounts ms2 = []"
    by (simp add: p v demo_secret_filter envMounts_def)
  from T3 ok3 have m3: "envMounts ms3 = []"
    and h3: "hd ms3 = \<lparr>hostPath = ''/srv/gigaclaw'', containerPath = ''/workspace/project'',
                        readonly = False\<rparr>"
    by (simp_all add: p v demo_secret_filter envMounts_def demoEnv_fields)
  have content: "envFileContent demoDotEnv = '' TZ=UTC'' @ [nl] @ ''ANTHROPIC_API_KEY=k'' @ [nl]"
    by (simp add: envFileContent_def demo_filter)
  from lines have l1: "allowedLine (trim '' TZ=UTC'')"
    and l2: "allowedLine (trim ''ANTHROPIC_API_KEY=k'')"
    by (simp_all add: demo_filter)
  from keys have "\<forall>kv \<in> set [(''TZ'', ''UTC''), (''ANTHROPIC_API_KEY'', ''k'')].
                    fst kv \<in> set ALLOWED_ENV_VARS"
    by (simp only: demo_loaded)
  then have k1: "''TZ'' \<in> set ALLOWED_ENV_VARS" and k2: "''ANTHROPIC_API_KEY'' \<in> set ALLOWED_ENV_VARS"
    by simp_all
  from w1 have w1': "snd (buildVolumeMounts demoEnv familyGroup False ?fs1)
        ''/srv/gigaclaw/data/env/env''
      = Some (File ('' TZ=UTC'' @ [nl] @ ''ANTHROPIC_API_KEY=k'' @ [nl]))"
    by (simp only: content)
  from ok1 m1 have e1: "\<exists>ms. fst (buildVolumeMounts demoEnv familyGroup False ?fs1) = Inr ms
          \<and> envMounts ms = [envDirMount demoEnv]" by blast
  from ok2 m2 have e2: "\<exists>ms. fst (buildVolumeMounts demoEnv familyGroup False ?fs2) = Inr ms
          \<and> envMounts ms = []" by blast
  from ok3 m3 h3 have e3: "\<exists>ms. fst (buildVolumeMounts demoEnv ?main True ?fs2) = Inr ms
          \<and> envMounts ms = []
          \<and> hd ms = \<lparr>hostPath = ''/srv/gigaclaw'', containerPath = ''/workspace/project'',
                      readonly = False\<rparr>" by blast
  from demo_filter l1 l2 demo_loaded k1 k2 e1 w1' e2 e3 show ?thesis
    by (intro conjI)
qed

section \<open>Settlement of the promise of the runner\<close>




section \<open>Result extraction\<close>

lemma indexOfFrom_spec:
  "(indexOfFrom pat s k = -1 \<and> (\<forall>m \<le> length s. \<not> prefix pat (drop m s)))
   \<or> (\<exists>n \<le> length s. indexOfFrom pat s k = int (k + n) \<and> prefix pat (drop n s)
         \<and> (\<forall>m < n. \<not> prefix pat (drop m s)))"
proof (induction s arbitrary: k)
  case Nil
  then show ?case by auto
next
  case (Cons c cs)
  show ?case
  proof (cases "prefix pat (c # cs)")
    case True
    then have "indexOfFrom pat (c # cs) k = int (k + 0) \<and> prefix pat (drop 0 (c # cs))
                 \<and> (\<forall>m < 0. \<not> prefix pat (drop m (c # cs)))" by simp
    then show ?thesis by blast
  next
    case False
    from Cons.IH[of "Suc k"] show ?thesis
    proof
      assume a: "indexOfFrom pat cs (Suc k) = -1 \<and> (\<forall>m \<le> length cs. \<not> prefix pat (drop m cs))"
      have "\<forall>m \<le> length (c # cs). \<not> prefix pat (drop m (c # cs))"
      proof (intro allI impI)
        fix m assume "m \<le> length (c # cs)"
        with a False show "\<not> prefix pat (drop m (c # cs))" by (cases m) auto
      qed
      with a False show ?thesis by simp
    next
      assume "\<exists>n \<le> length cs. indexOfFrom pat cs (Suc k) = int (Suc k + n) \<and> prefix pat (drop n cs)
         \<and> (\<forall>m < n. \<not> prefix pat (drop m cs))"
      then obtain n where n: "n \<le> length cs" "indexOfFrom pat cs (Suc k) = int (Suc k + n)"
        "prefix pat (drop n cs)" "\<forall>m < n. \<not> prefix pat (drop m cs)" by blast
      have "\<forall>m < Suc n. \<not> prefix pat (drop m (c # cs))"
      proof (intro allI impI)
        fix m assume "m < Suc n"
        with n(4) False show "\<not> prefix pat (drop m (c # cs))" by (cases m) auto
      qed
      with n False have "Suc n \<le> length (c # cs) \<and> indexOfFrom pat (c # cs) k = int (k + Suc n)
          \<and> prefix pat (drop (Suc n) (c # cs)) \<and> (\<forall>m < Suc n. \<not> prefix pat (drop m (c # cs)))"
        by simp
      then show ?thesis by blast
    qed
  qed
qed

lemma indexOf_found:
  assumes "indexOf s pat \<noteq> -1"
  shows "0 \<le> indexOf s pat \<and> prefix pat (drop (nat (indexOf s pat)) s)
       \<and> nat (indexOf s pat) + length pat \<le> length s
       \<and> (\<forall>m < nat (indexOf s pat). \<not> prefix pat (drop m s))"
proof -
  from indexOfFrom_spec[of pat s 0] assms
  obtain n where n: "n \<le> length s" "indexOf s pat = int n" "prefix pat (drop n s)"
    "\<forall>m < n. \<not> prefix pat (drop m s)"
    by (auto simp add: indexOf_def)
  from n(3) have "length pat \<le> length (drop n s)" by (rule prefix_length_le)
  with n show ?thesis by simp
qed

lemma indexOf_absent:
  "indexOf s pat = -1 \<Longrightarrow> \<forall>m \<le> length s. \<not> prefix pat (drop m s)"
  using indexOfFrom_spec[of pat s 0] by (auto simp add: indexOf_def)

lemma extract_marked:
  assumes "markersFound s"
  shows "extractJsonLine s = trim (take (payloadEnd s - payloadStart s) (drop (payloadStart s) s))"
proof -
  from assms have s: "indexOf s OUTPUT_START_MARKER \<noteq> -1" and e: "indexOf s OUTPUT_END_MARKER \<noteq> -1"
    and lt: "indexOf s OUTPUT_END_MARKER > indexOf s OUTPUT_START_MARKER"
    by (simp_all add: markersFound_def)
  note S = indexOf_found[OF s] and E = indexOf_found[OF e]
  have a: "sliceIndex s (indexOf s OUTPUT_START_MARKER + int (length OUTPUT_START_MARKER))
             = payloadStart s"
    using S by (simp add: sliceIndex_def payloadStart_def nat_add_distrib)
  have b: "sliceIndex s (indexOf s OUTPUT_END_MARKER) = payloadEnd s"
    using E by (simp add: sliceIndex_def payloadEnd_def)
  from s e lt show ?thesis
    by (simp add: extractJsonLine_def Let_def slice_def a b)
qed

lemma prefix_split: "prefix p xs \<Longrightarrow> xs = p @ drop (length p) xs"
  by (auto simp add: prefix_def)

lemma marked_decomposition:
  assumes "markersFound s" and "payloadStart s \<le> payloadEnd s"
  shows "s = take (nat (indexOf s OUTPUT_START_MARKER)) s @ OUTPUT_START_MARKER
             @ take (payloadEnd s - payloadStart s) (drop (payloadStart s) s)
             @ OUTPUT_END_MARKER @ drop (payloadEnd s + length OUTPUT_END_MARKER) s"
proof -
  from assms have s: "indexOf s OUTPUT_START_MARKER \<noteq> -1" and e: "indexOf s OUTPUT_END_MARKER \<noteq> -1"
    by (simp_all add: markersFound_def)
  note S = indexOf_found[OF s] and E = indexOf_found[OF e]
  let ?i = "nat (indexOf s OUTPUT_START_MARKER)"
  let ?a = "payloadStart s"
  let ?j = "payloadEnd s"
  from S have "prefix OUTPUT_START_MARKER (drop ?i s)" by simp
  from prefix_split[OF this]
  have "drop ?i s = OUTPUT_START_MARKER @ drop (length OUTPUT_START_MARKER) (drop ?i s)" .
  then have 1: "drop ?i s = OUTPUT_START_MARKER @ drop ?a s"
    by (simp add: payloadStart_def add.commute)
  from E have "prefix OUTPUT_END_MARKER (drop ?j s)" by (simp add: payloadEnd_def)
  from prefix_split[OF this]
  have "drop ?j s = OUTPUT_END_MARKER @ drop (length OUTPUT_END_MARKER) (drop ?j s)" .
  then have 2: "drop ?j s = OUTPUT_END_MARKER @ drop (?j + length OUTPUT_END_MARKER) s"
    by (simp add: add.commute)
  have "drop ?a s = take (?j - ?a) (drop ?a s) @ drop (?j - ?a) (drop ?a s)"
    by (rule append_take_drop_id[symmetric])
  with assms(2) have 3: "drop ?a s = take (?j - ?a) (drop ?a s) @ drop ?j s" by simp
  have "s = take ?i s @ drop ?i s" by simp
  also have "\<dots> = take ?i s @ OUTPUT_START_MARKER @ drop ?a s" using 1 by simp
  also have "\<dots> = take ?i s @ OUTPUT_START_MARKER @ take (?j - ?a) (drop ?a s) @ drop ?j s"
    using 3 by simp
  also have "\<dots> = take ?i s @ OUTPUT_START_MARKER @ take (?j - ?a) (drop ?a s)
                     @ OUTPUT_END_MARKER @ drop (?j + length OUTPUT_END_MARKER) s"
    using 2 by simp
  finally show ?thesis .
qed

lemma splitOn_nonempty': "splitOn sep s \<noteq> []"
  by (induction s) (auto split: list.splits)

lemma splitOn_snoc_other:
  "c \<noteq> sep \<Longrightarrow> splitOn sep (s @ [c]) = butlast (splitOn sep s) @ [last (splitOn sep s) @ [c]]"
proof (induction s)
  case Nil
  then show ?case by simp
next
  case (Cons x xs)
  obtain l ls where sp: "splitOn sep xs = l # ls"
    using splitOn_nonempty'[of sep xs] by (cases "splitOn sep xs") auto
  obtain l' ls' where sp': "splitOn sep (xs @ [c]) = l' # ls'"
    using splitOn_nonempty'[of sep "xs @ [c]"] by (cases "splitOn sep (xs @ [c])") auto
  from Cons sp sp' show ?case
    by (cases ls) (auto split: if_splits)
qed

lemma last_splitOn: "last (splitOn nl s) = lastLine s"
proof (induction s rule: rev_induct)
  case Nil
  then show ?case by (simp add: lastLine_def)
next
  case (snoc c s)
  show ?case
  proof (cases "c = nl")
    case True
    then show ?thesis by (simp add: splitOn_snoc_sep lastLine_def)
  next
    case False
    with snoc show ?thesis by (simp add: splitOn_snoc_other lastLine_def)
  qed
qed

lemma extract_fallback:
  assumes "\<not> markersFound s"
  shows "extractJsonLine s = lastLine (trim s)"
  using assms
  by (auto simp add: extractJsonLine_def markersFound_def Let_def splitLines_def last_splitOn
        splitOn_nonempty')

lemma last_case: "(case ys @ [z] of [] \<Rightarrow> [] | l # ls \<Rightarrow> last (l # ls)) = z"
  by (cases ys) auto

lemma lastNonEmptyLine_strip: "lastNonEmptyLine s = lastLine (stripNl s)"
proof (induction s rule: rev_induct)
  case Nil
  then show ?case by (simp add: lastNonEmptyLine_def splitLines_def lastLine_def stripNl_def)
next
  case (snoc c s)
  show ?case
  proof (cases "c = nl")
    case True
    with snoc show ?thesis
      by (simp add: lastNonEmptyLine_def splitLines_def splitOn_snoc_sep stripNl_def)
  next
    case False
    have "filter (\<lambda>l. l \<noteq> []) (splitOn nl (s @ [c]))
            = filter (\<lambda>l. l \<noteq> []) (butlast (splitOn nl s)) @ [last (splitOn nl s) @ [c]]"
      using False by (simp add: splitOn_snoc_other)
    then have "lastNonEmptyLine (s @ [c]) = lastLine s @ [c]"
      by (simp add: lastNonEmptyLine_def splitLines_def last_case last_splitOn)
    moreover have "lastLine (stripNl (s @ [c])) = lastLine s @ [c]"
      using False by (simp add: stripNl_def lastLine_def)
    ultimately show ?thesis by simp
  qed
qed

lemma rev_split: "rev (dropWhile P (rev s)) @ rev (takeWhile P (rev s)) = s"
proof -
  have "rev (dropWhile P (rev s)) @ rev (takeWhile P (rev s))
          = rev (takeWhile P (rev s) @ dropWhile P (rev s))"
    by (simp only: rev_append)
  also have "\<dots> = rev (rev s)" by (simp only: takeWhile_dropWhile_id)
  finally show ?thesis by simp
qed

lemma lastLine_decomp:
  "\<exists>p. u = p @ lastLine u \<and> (p = [] \<or> last p = nl) \<and> nl \<notin> set (lastLine u)"
proof -
  let ?P = "\<lambda>c. c \<noteq> nl"
  let ?p = "rev (dropWhile ?P (rev u))"
  have a: "u = ?p @ lastLine u"
    using rev_split[of ?P u] by (simp add: lastLine_def)
  have b: "?p = [] \<or> last ?p = nl"
  proof (cases "dropWhile ?P (rev u)")
    case Nil
    then show ?thesis by simp
  next
    case (Cons x xs)
    with hd_dropWhile[of ?P "rev u"] have "x = nl" by auto
    with Cons show ?thesis by simp
  qed
  have c: "nl \<notin> set (lastLine u)"
    by (auto simp add: lastLine_def dest: set_takeWhileD)
  from a b c show ?thesis by blast
qed

lemma strip_decomp: "\<exists>t. s = stripNl s @ t \<and> (\<forall>c \<in> set t. c = nl)"
proof -
  let ?Q = "\<lambda>c. c = nl"
  have "s = stripNl s @ rev (takeWhile ?Q (rev s))"
    using rev_split[of ?Q s] by (simp add: stripNl_def)
  moreover have "\<forall>c \<in> set (rev (takeWhile ?Q (rev s))). c = nl"
    by (auto dest: set_takeWhileD)
  ultimately show ?thesis by blast
qed

lemma ws_nl: "isWhitespace nl"
  by (simp add: isWhitespace_def nl_def)

lemma trim_last_line:
  assumes l: "l \<noteq> []" and h: "\<not> isWhitespace (hd l)" and e: "\<not> isWhitespace (last l)"
    and t: "\<forall>c \<in> set t. c = nl" and p: "p = [] \<or> last p = nl" and n: "nl \<notin> set l"
  shows "lastLine (trim (p @ l @ t)) = l"
proof -
  let ?p' = "if (\<forall>x \<in> set p. isWhitespace x) then [] else dropWhile isWhitespace p"
  from l h have dl: "dropWhile isWhitespace (l @ t) = l @ t" by (cases l) auto
  have ts: "trimStart (p @ l @ t) = ?p' @ l @ t"
  proof (cases "\<forall>x \<in> set p. isWhitespace x")
    case True
    then have "dropWhile isWhitespace (p @ (l @ t)) = dropWhile isWhitespace (l @ t)"
      by (intro dropWhile_append2) simp
    with True dl show ?thesis by (simp add: trimStart_def)
  next
    case False
    then obtain x where "x \<in> set p" "\<not> isWhitespace x" by blast
    then have "dropWhile isWhitespace (p @ (l @ t)) = dropWhile isWhitespace p @ (l @ t)"
      by (rule dropWhile_append1)
    with False show ?thesis by (simp add: trimStart_def)
  qed
  have p': "?p' = [] \<or> last ?p' = nl"
  proof (cases "\<forall>x \<in> set p. isWhitespace x")
    case True
    then show ?thesis by simp
  next
    case False
    then have ne: "dropWhile isWhitespace p \<noteq> []" by (simp add: dropWhile_eq_Nil_conv)
    have "p = takeWhile isWhitespace p @ dropWhile isWhitespace p" by simp
    then have "last p = last (dropWhile isWhitespace p)" using ne by (metis last_appendR)
    moreover from False p have "last p = nl" by auto
    ultimately show ?thesis using False by simp
  qed
  have tws: "\<forall>x \<in> set (rev t). isWhitespace x" using t ws_nl by auto
  from l e have "dropWhile isWhitespace (rev l @ rev ?p') = rev l @ rev ?p'"
    by (cases "rev l") (auto simp add: last_rev hd_rev)
  then have "dropWhile isWhitespace (rev t @ rev l @ rev ?p') = rev l @ rev ?p'"
    using tws by (simp add: dropWhile_append)
  then have te: "trimEnd (?p' @ l @ t) = ?p' @ l"
    by (simp add: trimEnd_def)
  have "takeWhile (\<lambda>c. c \<noteq> nl) (rev ?p') = []"
  proof (cases "?p' = []")
    case True
    then show ?thesis by simp
  next
    case False
    with p' have "last ?p' = nl" by blast
    with False have "hd (rev ?p') = nl" by (simp add: hd_rev)
    with False show ?thesis by (cases "rev ?p'") auto
  qed
  moreover have "\<forall>x \<in> set (rev l). x \<noteq> nl" using n by auto
  ultimately have "lastLine (?p' @ l) = l"
    by (simp add: lastLine_def takeWhile_append)
  with ts te show ?thesis by (simp add: trim_def)
qed

lemma fallback_is_last_nonempty_line:
  assumes "lastNonEmptyLine s \<noteq> []"
    and "\<not> isWhitespace (hd (lastNonEmptyLine s))"
    and "\<not> isWhitespace (last (lastNonEmptyLine s))"
  shows "lastLine (trim s) = lastNonEmptyLine s"
proof -
  let ?l = "lastNonEmptyLine s"
  obtain t where t: "s = stripNl s @ t" "\<forall>c \<in> set t. c = nl"
    using strip_decomp by blast
  obtain p where p: "stripNl s = p @ ?l" "p = [] \<or> last p = nl" "nl \<notin> set ?l"
    using lastLine_decomp[of "stripNl s"] by (auto simp add: lastNonEmptyLine_strip)
  from t(1) p(1) have s: "s = p @ ?l @ t" by simp
  from trim_last_line[OF assms t(2) p(2) p(3)] have "lastLine (trim (p @ ?l @ t)) = ?l" .
  with s show ?thesis by simp
qed

text \<open>
  C1, amended: when the start marker and the end marker both occur in the stdout of a child
  that exits with code zero, and the first end marker starts after the first start marker,
  the payload is the text after the first start marker and before the first end marker,
  trimmed (the text strictly between the two markers when they do not overlap). Otherwise
  the payload is the last line of the stdout trimmed of surrounding white space, which is
  the last non-empty line of the stdout whenever that line neither begins nor ends with
  white space. In either case the payload is parsed as a \<open>ContainerOutput\<close>, and a payload
  that does not parse resolves to the output with status \<open>error\<close> that reports the parse
  failure.
\<close>

theorem C1_result_extraction:
  "(markersFound s
      \<longrightarrow> extractJsonLine s
          = trim (take (payloadEnd s - payloadStart s) (drop (payloadStart s) s)))
   \<and> (markersFound s \<and> payloadStart s \<le> payloadEnd s
      \<longrightarrow> s = take (nat (indexOf s OUTPUT_START_MARKER)) s @ OUTPUT_START_MARKER
               @ take (payloadEnd s - payloadStart s) (drop (payloadStart s) s)
               @ OUTPUT_END_MARKER @ drop (payloadEnd s + length OUTPUT_END_MARKER) s)
   \<and> (\<not> markersFound s \<longrightarrow> extractJsonLine s = lastLine (trim s))
   \<and> (\<not> markersFound s \<and> lastNonEmptyLine s \<noteq> []
        \<and> \<not> isWhitespace (hd (lastNonEmptyLine s))
        \<and> \<not> isWhitespace (last (lastNonEmptyLine s))
      \<longrightarrow> extractJsonLine s = lastNonEmptyLine s)
   \<and> (decisive events = Close (Some 0)
      \<longrightarrow> turnOutput env events
          = (case JSON_parse env (extractJsonLine (stdoutAtSettlement env events)) of
               Some output \<Rightarrow> output
             | None \<Rightarrow> errorOutput ''Failed to parse container output''))
   \<and> status (errorOutput ''Failed to parse container output'') = Error"
proof -
  have a: "markersFound s
      \<longrightarrow> extractJsonLine s
          = trim (take (payloadEnd s - payloadStart s) (drop (payloadStart s) s))"
    using extract_marked by blast
  have b: "markersFound s \<and> payloadStart s \<le> payloadEnd s
      \<longrightarrow> s = take (nat (indexOf s OUTPUT_START_MARKER)) s @ OUTPUT_START_MARKER
               @ take (payloadEnd s - payloadStart s) (drop (payloadStart s) s)
               @ OUTPUT_END_MARKER @ drop (payloadEnd s + length OUTPUT_END_MARKER) s"
    using marked_decomposition by blast
  have c: "\<not> markersFound s \<longrightarrow> extractJsonLine s = lastLine (trim s)"
    using extract_fallback by blast
  have d: "\<not> markersFound s \<and> lastNonEmptyLine s \<noteq> []
        \<and> \<not> isWhitespace (hd (lastNonEmptyLine s))
        \<and> \<not> isWhitespace (last (lastNonEmptyLine s))
      \<longrightarrow> extractJsonLine s = lastNonEmptyLine s"
    using extract_fallback[of s] fallback_is_last_nonempty_line[of s] by auto
  have e: "decisive events = Close (Some 0)
      \<longrightarrow> turnOutput env events
          = (case JSON_parse env (extractJsonLine (stdoutAtSettlement env events)) of
               Some output \<Rightarrow> output
             | None \<Rightarrow> errorOutput ''Failed to parse container output'')"
    by (simp add: turnOutput_def)
  have f: "status (errorOutput ''Failed to parse container output'') = Error"
    by (simp add: errorOutput_def)
  from a b c d e f show ?thesis by blast
qed

lemma demo_no_markers_blank:
  "indexOf trailingBlankStdout OUTPUT_START_MARKER = -1
   \<and> indexOf trailingBlankStdout OUTPUT_END_MARKER = -1"
  by (simp add: trailingBlankStdout_def successJson_def string_defs)

lemma demo_blank_last_line: "lastNonEmptyLine trailingBlankStdout = '' ''"
  by (simp add: lastNonEmptyLine_def trailingBlankStdout_def successJson_def string_defs)

lemma demo_blank_payload: "extractJsonLine trailingBlankStdout = successJson"
  by (simp add: extractJsonLine_def demo_no_markers_blank Let_def)
     (simp add: trailingBlankStdout_def successJson_def string_defs)

lemma demo_blank_output:
  "turnOutput demoEnv [StdoutData trailingBlankStdout, Close (Some 0)]
   = \<lparr>status = Success, result = Some ''hello'', newSessionId = Some ''s1'', error = None\<rparr>"
proof -
  have "length trailingBlankStdout \<le> 10485760"
    by (simp add: trailingBlankStdout_def successJson_def quoted_def)
  then have a: "stdoutAtSettlement demoEnv [StdoutData trailingBlankStdout, Close (Some 0)]
                  = trailingBlankStdout"
    by (simp add: stdoutAtSettlement_def stdoutChunks_def demoEnv_fields)
  have b: "decisive [StdoutData trailingBlankStdout, Close (Some 0)] = Close (Some 0)"
    by (simp add: decisive_def)
  show ?thesis
    by (simp add: turnOutput_def a b demo_blank_payload demoEnv_fields demoParse_def)
qed

text \<open>
  C1, as stated, fails on the fallback path: the handler trims the whole stdout before it
  takes the last line, so a last non-empty line that holds white space only is passed
  over. Here the result line is followed by a line of one space: the last non-empty line
  does not parse, and the runner resolves with the parsed result line.
\<close>

theorem C1_counterexample:
  "\<not> markersFound trailingBlankStdout
   \<and> lastNonEmptyLine trailingBlankStdout = '' ''
   \<and> extractJsonLine trailingBlankStdout = successJson
   \<and> successJson \<noteq> '' ''
   \<and> JSON_parse demoEnv '' '' = None
   \<and> status (turnOutput demoEnv [StdoutData trailingBlankStdout, Close (Some 0)]) = Success"
proof -
  have a: "\<not> markersFound trailingBlankStdout"
    by (simp add: markersFound_def demo_no_markers_blank)
  have b: "successJson \<noteq> '' ''"
    by (simp add: successJson_def)
  have c: "JSON_parse demoEnv '' '' = None"
    by (simp add: demoEnv_fields demoParse_def successJson_def errorJson_def emptyResultJson_def)
  from a b c demo_blank_last_line demo_blank_payload show ?thesis
    by (simp add: demo_blank_output)
qed


lemma demo_marked_indices:
  "indexOf markedStdout OUTPUT_START_MARKER = 6 \<and> indexOf markedStdout OUTPUT_END_MARKER = 92"
  by (simp add: markedStdout_def successJson_def string_defs)

lemma demo_marked_found: "markersFound markedStdout"
  by (simp add: markersFound_def demo_marked_indices)

lemma demo_marked_between:
  "trim (take (payloadEnd markedStdout - payloadStart markedStdout)
           (drop (payloadStart markedStdout) markedStdout)) = successJson"
  by (simp add: payloadEnd_def payloadStart_def demo_marked_indices)
     (simp add: markedStdout_def successJson_def string_defs)

lemma demo_plain_no_markers: "\<not> markersFound plainStdout"
  by (simp add: markersFound_def plainStdout_def errorJson_def string_defs)

lemma demo_plain_last_line: "lastNonEmptyLine plainStdout = errorJson"
  by (simp add: lastNonEmptyLine_def plainStdout_def errorJson_def string_defs)

theorem C1_result_extraction_witness:
  "markersFound markedStdout
   \<and> payloadStart markedStdout \<le> payloadEnd markedStdout
   \<and> extractJsonLine markedStdout = successJson
   \<and> \<not> markersFound plainStdout
   \<and> lastNonEmptyLine plainStdout \<noteq> []
   \<and> \<not> isWhitespace (hd (lastNonEmptyLine plainStdout))
   \<and> \<not> isWhitespace (last (lastNonEmptyLine plainStdout))
   \<and> extractJsonLine plainStdout = errorJson
   \<and> decisive [StdoutData ''garbage'', Close (Some 0)] = Close (Some 0)
   \<and> turnOutput demoEnv [StdoutData ''garbage'', Close (Some 0)]
       = errorOutput ''Failed to parse container output''"
proof -
  have h1: "markersFound markedStdout" by (rule demo_marked_found)
  have h2: "payloadStart markedStdout \<le> payloadEnd markedStdout"
    by (simp add: payloadEnd_def payloadStart_def demo_marked_indices)
       (simp add: OUTPUT_START_MARKER_def)
  have h3: "\<not> markersFound plainStdout" by (rule demo_plain_no_markers)
  have h4: "lastNonEmptyLine plainStdout \<noteq> []"
    "\<not> isWhitespace (hd (lastNonEmptyLine plainStdout))"
    "\<not> isWhitespace (last (lastNonEmptyLine plainStdout))"
    by (simp_all add: demo_plain_last_line errorJson_def quoted_def isWhitespace_def)
  have h5: "decisive [StdoutData ''garbage'', Close (Some 0)] = Close (Some 0)"
    by (simp add: decisive_def)
  have g: "extractJsonLine (stdoutAtSettlement demoEnv [StdoutData ''garbage'', Close (Some 0)])
             = ''garbage''"
    by (simp add: stdoutAtSettlement_def stdoutChunks_def demoEnv_fields extractJsonLine_def
          string_defs Let_def)
  have p: "JSON_parse demoEnv ''garbage'' = None"
    by (simp add: demoEnv_fields demoParse_def successJson_def errorJson_def emptyResultJson_def)
  note T1 = C1_result_extraction[of markedStdout "[StdoutData ''garbage'', Close (Some 0)]" demoEnv]
  note T2 = C1_result_extraction[of plainStdout "[StdoutData ''garbage'', Close (Some 0)]" demoEnv]
  from T1 h1 have m: "extractJsonLine markedStdout
      = trim (take (payloadEnd markedStdout - payloadStart markedStdout)
                (drop (payloadStart markedStdout) markedStdout))"
    by blast
  from T2 h3 h4 have f: "extractJsonLine plainStdout = lastNonEmptyLine plainStdout"
    by blast
  from T1 h5 have "turnOutput demoEnv [StdoutData ''garbage'', Close (Some 0)]
          = (case JSON_parse demoEnv
                    (extractJsonLine (stdoutAtSettlement demoEnv [StdoutData ''garbage'', Close (Some 0)])) of
               Some output \<Rightarrow> output
             | None \<Rightarrow> errorOutput ''Failed to parse container output'')"
    by blast
  then have t: "turnOutput demoEnv [StdoutData ''garbage'', Close (Some 0)]
       = errorOutput ''Failed to parse container output''"
    by (simp only: g p option.case)
  from m have m': "extractJsonLine markedStdout = successJson"
    by (simp only: demo_marked_between)
  from f have f': "extractJsonLine plainStdout = errorJson"
    by (simp only: demo_plain_last_line)
  from h1 h2 m' h3 h4 f' h5 t show ?thesis by (intro conjI)
qed

section \<open>Message router\<close>

text \<open>
  C10: a message whose chat has no registered group makes \<open>processMessage\<close> return at
  once: no child is spawned and the host state (file system with its snapshot files,
  sessions, watermarks, transport) is what it was.
\<close>

theorem C10_unregistered_chat:
  assumes "registeredGroups w (chat_jid msg) = None"
  shows "processMessage env msg events w = (Resolved (), w)"
  using assms by (simp add: processMessage_def)

theorem C10_unregistered_chat_witness:
  "registeredGroups demoWorld (chat_jid (demoMessage ''telegram@chat:9'' ''hi'' ''2026-01-01T00:00:01.000Z'')) = None
   \<and> processMessage demoEnv (demoMessage ''telegram@chat:9'' ''hi'' ''2026-01-01T00:00:01.000Z'')
        [StdoutData successJson, Close (Some 0)] demoWorld = (Resolved (), demoWorld)"
proof -
  have h: "registeredGroups demoWorld
             (chat_jid (demoMessage ''telegram@chat:9'' ''hi'' ''2026-01-01T00:00:01.000Z'')) = None"
    by (simp add: demoWorld_def demoMessage_def)
  from C10_unregistered_chat[OF h] h show ?thesis by simp
qed

text \<open>
  C2, as stated, fails: \<open>runAgent\<close> stores \<open>output.newSessionId\<close> before it looks at
  \<open>output.status\<close>, so an error output of the child that carries a session handle
  replaces the stored one.
\<close>

theorem C2_counterexample:
  "status (turnOutput (hostEnv [mainMessage]) [StdoutData errorJson, Close (Some 0)]) = Error
   \<and> sessions demoWorld ''main'' = None
   \<and> sessions (snd (processMessage (hostEnv [mainMessage]) mainMessage
                      [StdoutData errorJson, Close (Some 0)] demoWorld)) ''main'' = Some ''s2''"
proof -
  have a: "status (turnOutput (hostEnv [mainMessage]) [StdoutData errorJson, Close (Some 0)]) = Error"
    by (simp add: demo_error_output)
  have b: "sessions demoWorld ''main'' = None"
    by (simp add: demoWorld_def)
  have c: "sessions (snd (processMessage (hostEnv [mainMessage]) mainMessage
                      [StdoutData errorJson, Close (Some 0)] demoWorld)) ''main'' = Some ''s2''"
    by (simp add: turn_defs demoMessage_fields Let_def runChild_settled decisive_chunk_close
          demo_error_output turnPrompt_nonempty)
  from a b c show ?thesis by simp
qed

text \<open>
  C2, amended: a turn whose \<open>ContainerOutput\<close> has status \<open>error\<close> leaves the watermarks
  unchanged. When the child was spawned and the output carries a non-empty
  \<open>newSessionId\<close>, the turn replaces the stored session handle of the group by it, and
  changes no other handle; otherwise it leaves the session handles unchanged. The errors
  that the runner produces itself (spawn error, timeout, non-zero exit, unparseable output)
  carry no \<open>newSessionId\<close>, so the handles are unchanged after them.
\<close>

theorem C2_error_turn:
  assumes "decisive events \<noteq> StdinError"
    and "status (turnOutput env events) = Error"
  shows "lastAgentTimestamp (snd (processMessage env msg events w)) = lastAgentTimestamp w
       \<and> (spawned (snd (processMessage env msg events w)) \<noteq> spawned w
            \<longrightarrow> registeredGroups w (chat_jid msg) \<noteq> None)
       \<and> (\<forall>grp. registeredGroups w (chat_jid msg) = Some grp
              \<and> spawned (snd (processMessage env msg events w)) \<noteq> spawned w
              \<and> truthy (newSessionId (turnOutput env events))
            \<longrightarrow> sessions (snd (processMessage env msg events w))
                  = (sessions w)(folder grp := newSessionId (turnOutput env events)))
       \<and> (spawned (snd (processMessage env msg events w)) = spawned w
            \<or> \<not> truthy (newSessionId (turnOutput env events))
            \<longrightarrow> sessions (snd (processMessage env msg events w)) = sessions w)
       \<and> (decisive events \<noteq> Close (Some 0)
            \<or> JSON_parse env (extractJsonLine (stdoutAtSettlement env events)) = None
            \<longrightarrow> sessions (snd (processMessage env msg events w)) = sessions w)"
proof -
  obtain r w' where pm: "processMessage env msg events w = (r, w')"
    by (cases "processMessage env msg events w")
  note D = processMessage_eqD[OF pm]
  have own: "decisive events \<noteq> Close (Some 0)
             \<or> JSON_parse env (extractJsonLine (stdoutAtSettlement env events)) = None
             \<Longrightarrow> \<not> truthy (newSessionId (turnOutput env events))"
    by (cases "decisive events")
       (auto simp add: turnOutput_def errorOutput_def split: option.splits)
  from D assms have wm: "lastAgentTimestamp w' = lastAgentTimestamp w" by auto
  from D have reg: "spawned w' \<noteq> spawned w \<Longrightarrow> registeredGroups w (chat_jid msg) \<noteq> None"
    by auto
  from D assms(1) have s1: "\<And>grp. registeredGroups w (chat_jid msg) = Some grp
              \<Longrightarrow> spawned w' \<noteq> spawned w
              \<Longrightarrow> truthy (newSessionId (turnOutput env events))
              \<Longrightarrow> sessions w' = (sessions w)(folder grp := newSessionId (turnOutput env events))"
    by auto
  from D have s2: "spawned w' = spawned w \<or> \<not> truthy (newSessionId (turnOutput env events))
              \<Longrightarrow> sessions w' = sessions w"
    by (auto split: if_splits)
  from s2 own have s3: "decisive events \<noteq> Close (Some 0)
             \<or> JSON_parse env (extractJsonLine (stdoutAtSettlement env events)) = None
             \<Longrightarrow> sessions w' = sessions w"
    by blast
  from wm reg s1 s2 s3 show ?thesis unfolding pm snd_conv by blast
qed

theorem C2_error_turn_witness:
  "decisive [StderrData ''boom'', Close (Some 1)] \<noteq> StdinError
   \<and> status (turnOutput (hostEnv [mainMessage]) [StderrData ''boom'', Close (Some 1)]) = Error
   \<and> lastAgentTimestamp (snd (processMessage (hostEnv [mainMessage]) mainMessage
         [StderrData ''boom'', Close (Some 1)] demoWorld)) = lastAgentTimestamp demoWorld
   \<and> sessions (snd (processMessage (hostEnv [mainMessage]) mainMessage
         [StderrData ''boom'', Close (Some 1)] demoWorld)) = sessions demoWorld
   \<and> decisive [StdoutData errorJson, Close (Some 0)] \<noteq> StdinError
   \<and> status (turnOutput (hostEnv [mainMessage]) [StdoutData errorJson, Close (Some 0)]) = Error
   \<and> registeredGroups demoWorld (chat_jid mainMessage)
       = Some \<lparr>name = ''Main'', folder = ''main'', containerConfig = None\<rparr>
   \<and> spawned (snd (processMessage (hostEnv [mainMessage]) mainMessage
         [StdoutData errorJson, Close (Some 0)] demoWorld)) \<noteq> spawned demoWorld
   \<and> truthy (newSessionId (turnOutput (hostEnv [mainMessage]) [StdoutData errorJson, Close (Some 0)]))
   \<and> lastAgentTimestamp (snd (processMessage (hostEnv [mainMessage]) mainMessage
         [StdoutData errorJson, Close (Some 0)] demoWorld)) = lastAgentTimestamp demoWorld
   \<and> sessions (snd (processMessage (hostEnv [mainMessage]) mainMessage
         [StdoutData errorJson, Close (Some 0)] demoWorld))
       = (sessions demoWorld)(''main'' \<mapsto> ''s2'')"
proof -
  let ?e = "hostEnv [mainMessage]"
  let ?boom = "[StderrData ''boom'', Close (Some 1)]"
  let ?err = "[StdoutData errorJson, Close (Some 0)]"
  let ?main = "\<lparr>name = ''Main'', folder = ''main'', containerConfig = None\<rparr>"
  have d: "decisive ?boom = Close (Some 1)"
    by (simp add: decisive_def)
  then have d1: "decisive ?boom \<noteq> StdinError" by simp
  have h1: "status (turnOutput ?e ?boom) = Error"
    by (simp add: turnOutput_def d errorOutput_def)
  have d2: "decisive ?err \<noteq> StdinError"
    by (simp add: decisive_chunk_close)
  have h2: "status (turnOutput ?e ?err) = Error"
    by (simp add: demo_error_output)
  have reg: "registeredGroups demoWorld (chat_jid mainMessage) = Some ?main"
    by (simp add: demoWorld_def demoMessage_fields)
  have sp: "spawned (snd (processMessage ?e mainMessage ?err demoWorld)) \<noteq> spawned demoWorld"
    by (simp add: turn_defs demoMessage_fields Let_def runChild_settled decisive_chunk_close
          demo_error_output turnPrompt_nonempty)
  have tr: "truthy (newSessionId (turnOutput ?e ?err))"
    by (simp add: demo_error_output)
  note T1 = C2_error_turn[OF d1 h1, of mainMessage demoWorld]
  note T2 = C2_error_turn[OF d2 h2, of mainMessage demoWorld]
  from T1 d have a1: "lastAgentTimestamp (snd (processMessage ?e mainMessage ?boom demoWorld))
                        = lastAgentTimestamp demoWorld"
    and a2: "sessions (snd (processMessage ?e mainMessage ?boom demoWorld)) = sessions demoWorld"
    by simp_all
  from T2 have b1: "lastAgentTimestamp (snd (processMessage ?e mainMessage ?err demoWorld))
                        = lastAgentTimestamp demoWorld"
    by blast
  from T2 reg sp tr
  have "sessions (snd (processMessage ?e mainMessage ?err demoWorld))
          = (sessions demoWorld)(folder ?main := newSessionId (turnOutput ?e ?err))"
    by blast
  then have b2: "sessions (snd (processMessage ?e mainMessage ?err demoWorld))
          = (sessions demoWorld)(''main'' \<mapsto> ''s2'')"
    by (simp add: demo_error_output)
  from d1 h1 a1 a2 d2 h2 reg sp tr b1 b2 show ?thesis by (intro conjI)
qed

text \<open>
  C9: the claim is that an empty window of unconsumed messages runs no turn. The guard
  \<open>if (!prompt) return\<close> is there for it, but the prompt always carries the
  \<open><messages>\<close> wrapper and is never empty. Here a first message has been answered, which
  set the watermark to its timestamp; a second message arrives within the same second, so
  no stored message is strictly after the watermark, and the router still spawns the
  container, on the prompt that holds the wrapper alone.
\<close>

theorem C9_empty_window_runs_turn:
  "watermark (snd (processMessage (hostEnv [mainMessage]) mainMessage
                     [StdoutData successJson, Close (Some 0)] demoWorld)) ''telegram@chat:1''
     = ''2026-01-01T00:00:01.000Z''
   \<and> getMessagesSince (hostEnv [mainMessage, sameSecondMessage]) (chat_jid sameSecondMessage)
         (watermark (snd (processMessage (hostEnv [mainMessage]) mainMessage
                            [StdoutData successJson, Close (Some 0)] demoWorld))
            (chat_jid sameSecondMessage))
         (ASSISTANT_NAME (hostEnv [mainMessage, sameSecondMessage])) = []
   \<and> length (spawned (snd (processMessage (hostEnv [mainMessage, sameSecondMessage])
                 sameSecondMessage [StdoutData successJson, Close (Some 0)]
                 (snd (processMessage (hostEnv [mainMessage]) mainMessage
                         [StdoutData successJson, Close (Some 0)] demoWorld)))))
       = length (spawned (snd (processMessage (hostEnv [mainMessage]) mainMessage
                         [StdoutData successJson, Close (Some 0)] demoWorld))) + 1
   \<and> prompt (stdin (last (spawned (snd (processMessage (hostEnv [mainMessage, sameSecondMessage])
                 sameSecondMessage [StdoutData successJson, Close (Some 0)]
                 (snd (processMessage (hostEnv [mainMessage]) mainMessage
                         [StdoutData successJson, Close (Some 0)] demoWorld)))))))
       = ''<messages>'' @ [nl, nl] @ ''</messages>''"
proof -
  let ?ok = "[StdoutData successJson, Close (Some 0)]"
  let ?e2 = "hostEnv [mainMessage, sameSecondMessage]"
  let ?w1 = "snd (processMessage (hostEnv [mainMessage]) mainMessage ?ok demoWorld)"
  let ?w2 = "snd (processMessage ?e2 sameSecondMessage ?ok ?w1)"
  have mark: "lastAgentTimestamp ?w1 ''telegram@chat:1'' = Some ''2026-01-01T00:00:01.000Z''"
    by (simp add: processMessage_watermarks demo_first_turn advanced_def demoMessage_fields)
  then have wm: "watermark ?w1 ''telegram@chat:1'' = ''2026-01-01T00:00:01.000Z''"
    by (simp add: watermark_def)
  have window: "messagesSince [mainMessage, sameSecondMessage] ''telegram@chat:1''
                  ''2026-01-01T00:00:01.000Z'' ''Neo'' = []"
    by (simp add: messagesSince_def demoMessage_fields)
  have p: "turnPrompt ?e2 sameSecondMessage ?w1 = ''<messages>'' @ [nl, nl] @ ''</messages>''"
    by (simp add: turnPrompt_def hostEnv_fields demoMessage_fields mark window Let_def)
  have "turnResponse ?e2 sameSecondMessage ?ok ?w1 = Resolved (Some ''hello'')"
    by (simp add: demo_second_turn demoMessage_fields)
  from response_means_spawn[OF this] obtain grp c a where
    sp: "spawned ?w2 = spawned ?w1 @
          [\<lparr>cmd = c, args = a,
            stdin = agentInput grp (turnPrompt ?e2 sameSecondMessage ?w1)
                      (chat_jid sameSecondMessage) ?w1\<rparr>]"
    by blast
  from sp have len: "length (spawned ?w2) = length (spawned ?w1) + 1" by simp
  from sp have "prompt (stdin (last (spawned ?w2))) = turnPrompt ?e2 sameSecondMessage ?w1"
    by (simp add: agentInput_def)
  with p have pr: "prompt (stdin (last (spawned ?w2))) = ''<messages>'' @ [nl, nl] @ ''</messages>''"
    by simp
  from wm window len pr show ?thesis
    by (simp add: hostEnv_fields demoMessage_fields)
qed

text \<open>
  C3, as stated, fails twice. The watermark is set to the timestamp of the triggering
  message without comparing it to the stored one: in the family chat a message is
  answered, a later message that does not address the assistant is stored, and then a
  message that carries an older timestamp is answered, which moves the watermark back.
  And a turn whose result is the empty string, which is not null, does not move the
  watermark.
\<close>

theorem C3_counterexample:
  "watermark (processMessages
       [(hostEnv [familyMessage], familyMessage, [StdoutData successJson, Close (Some 0)])]
       demoWorld) ''telegram@chat:2'' = ''2026-01-01T00:00:02.000Z''
   \<and> getMessagesSince (hostEnv [familyMessage, familyChatter, familyOlder]) ''telegram@chat:2''
         ''2026-01-01T00:00:02.000Z'' ''Neo'' = [familyChatter]
   \<and> watermark (processMessages
       [(hostEnv [familyMessage], familyMessage, [StdoutData successJson, Close (Some 0)]),
        (hostEnv [familyMessage, familyChatter, familyOlder], familyOlder,
         [StdoutData successJson, Close (Some 0)])]
       demoWorld) ''telegram@chat:2'' = ''2026-01-01T00:00:01.000Z''
   \<and> \<not> (''2026-01-01T00:00:02.000Z'' \<le> ''2026-01-01T00:00:01.000Z'')
   \<and> status (turnOutput (hostEnv [mainMessage]) [StdoutData emptyResultJson, Close (Some 0)]) = Success
   \<and> result (turnOutput (hostEnv [mainMessage]) [StdoutData emptyResultJson, Close (Some 0)]) = Some []
   \<and> lastAgentTimestamp (snd (processMessage (hostEnv [mainMessage]) mainMessage
         [StdoutData emptyResultJson, Close (Some 0)] demoWorld)) ''telegram@chat:1'' = None"
proof -
  let ?ok = "[StdoutData successJson, Close (Some 0)]"
  let ?e1 = "hostEnv [familyMessage]"
  let ?e2 = "hostEnv [familyMessage, familyChatter, familyOlder]"
  let ?w1 = "snd (processMessage ?e1 familyMessage ?ok demoWorld)"
  have r1: "turnResponse ?e1 familyMessage ?ok demoWorld = Resolved (Some ''hello'')"
    by (rule demo_family_turn) (simp_all add: family_fields family_triggers)
  have r2: "turnResponse ?e2 familyOlder ?ok ?w1 = Resolved (Some ''hello'')"
    by (rule demo_family_second_turn) (simp_all add: family_fields family_triggers)
  have m1: "lastAgentTimestamp ?w1 ''telegram@chat:2'' = Some ''2026-01-01T00:00:02.000Z''"
    by (simp add: processMessage_watermarks r1 advanced_def family_fields)
  have m2: "lastAgentTimestamp (snd (processMessage ?e2 familyOlder ?ok ?w1)) ''telegram@chat:2''
              = Some ''2026-01-01T00:00:01.000Z''"
    by (simp add: processMessage_watermarks[of ?e2 familyOlder ?ok ?w1] r2 advanced_def
          family_fields)
  have a: "watermark (processMessages [(?e1, familyMessage, ?ok)] demoWorld) ''telegram@chat:2''
             = ''2026-01-01T00:00:02.000Z''"
    using m1 r1
    by (simp add: processMessages_Cons turnMsg_def watermark_def del: processMessages.simps(2))
  have b: "watermark (processMessages [(?e1, familyMessage, ?ok), (?e2, familyOlder, ?ok)]
             demoWorld) ''telegram@chat:2'' = ''2026-01-01T00:00:01.000Z''"
    using m2 r1 r2
    by (simp add: processMessages_Cons turnMsg_def watermark_def del: processMessages.simps(2))
  have win: "getMessagesSince ?e2 ''telegram@chat:2'' ''2026-01-01T00:00:02.000Z'' ''Neo''
               = [familyChatter]"
    by (simp add: hostEnv_fields messagesSince_def family_fields familyMessage_def familyOlder_def
          demoMessage_def)
  have c: "\<not> (''2026-01-01T00:00:02.000Z'' \<le> ''2026-01-01T00:00:01.000Z'')"
    by simp
  have d: "lastAgentTimestamp (snd (processMessage (hostEnv [mainMessage]) mainMessage
         [StdoutData emptyResultJson, Close (Some 0)] demoWorld)) ''telegram@chat:1'' = None"
    by (simp add: processMessage_watermarks demo_empty_turn advanced_def demoWorld_marks
          demoMessage_fields)
  from a b win c d show ?thesis by (simp add: demo_empty_output)
qed

text \<open>
  C3, amended: a call of \<open>processMessage\<close> changes the watermarks only when the turn
  returns a non-empty textual result, which is then the result of a \<open>ContainerOutput\<close>
  with status \<open>success\<close>, and it then sets the watermark of the chat to the timestamp of
  the triggering message; a turn that returns null or the empty string never changes it.
  Over any sequence of turns in which the triggering messages of a chat arrive with
  non-decreasing timestamps, none older than the stored watermark, the watermark of that
  chat is non-decreasing.
\<close>

theorem C3_watermark:
  "lastAgentTimestamp (snd (processMessage env msg events w))
     = advanced msg (turnResponse env msg events w) (lastAgentTimestamp w)
   \<and> (\<forall>text. turnResponse env msg events w = Resolved (Some text)
         \<longrightarrow> status (turnOutput env events) = Success
             \<and> result (turnOutput env events) = Some text)
   \<and> (sorted (chatTimes j (pre @ post))
        \<and> (\<forall>t \<in> set (chatTimes j (pre @ post)). watermark w0 j \<le> t)
        \<longrightarrow> watermark (processMessages pre w0) j
            \<le> watermark (processMessages (pre @ post) w0) j)"
  using processMessage_watermarks[of env msg events w]
    turnResponse_output[of env msg events w]
    watermark_monotone[of j pre post w0]
  by blast

theorem C3_watermark_witness:
  "turnResponse (hostEnv [mainMessage]) mainMessage [StdoutData successJson, Close (Some 0)] demoWorld
     = Resolved (Some ''hello'')
   \<and> lastAgentTimestamp (snd (processMessage (hostEnv [mainMessage]) mainMessage
         [StdoutData successJson, Close (Some 0)] demoWorld)) ''telegram@chat:1''
       = Some ''2026-01-01T00:00:01.000Z''
   \<and> status (turnOutput (hostEnv [mainMessage]) [StdoutData successJson, Close (Some 0)]) = Success
   \<and> sorted (chatTimes ''telegram@chat:1''
        ([((hostEnv [mainMessage]), mainMessage, [StdoutData successJson, Close (Some 0)])]
         @ [(hostEnv [mainMessage, laterMessage], laterMessage,
            [StdoutData successJson, Close (Some 0)])]))
   \<and> watermark (processMessages
         [((hostEnv [mainMessage]), mainMessage, [StdoutData successJson, Close (Some 0)])] demoWorld)
         ''telegram@chat:1''
       \<le> watermark (processMessages
         ([((hostEnv [mainMessage]), mainMessage, [StdoutData successJson, Close (Some 0)])]
          @ [(hostEnv [mainMessage, laterMessage], laterMessage,
            [StdoutData successJson, Close (Some 0)])]) demoWorld)
         ''telegram@chat:1''"
proof -
  let ?ok = "[StdoutData successJson, Close (Some 0)]"
  let ?pre = "[((hostEnv [mainMessage]), mainMessage, ?ok)]"
  let ?post = "[(hostEnv [mainMessage, laterMessage], laterMessage, ?ok)]"
  have times: "chatTimes ''telegram@chat:1'' (?pre @ ?post)
                = [''2026-01-01T00:00:01.000Z'', ''2026-01-01T00:00:02.000Z'']"
    by (simp add: chatTimes_def turnMsg_def mainMessage_def laterMessage_def demoMessage_def)
  have h1: "sorted (chatTimes ''telegram@chat:1'' (?pre @ ?post))"
    unfolding times by simp
  have h2: "\<forall>t \<in> set (chatTimes ''telegram@chat:1'' (?pre @ ?post)).
              watermark demoWorld ''telegram@chat:1'' \<le> t"
    unfolding times by (simp add: watermark_def demoWorld_def)
  note T = C3_watermark[of "hostEnv [mainMessage]" mainMessage ?ok demoWorld "''telegram@chat:1''" ?pre ?post
      demoWorld]
  from T h1 h2 have mono: "watermark (processMessages ?pre demoWorld) ''telegram@chat:1''
       \<le> watermark (processMessages (?pre @ ?post) demoWorld) ''telegram@chat:1''"
    by blast
  from T have "lastAgentTimestamp (snd (processMessage (hostEnv [mainMessage]) mainMessage ?ok demoWorld))
     = advanced mainMessage (turnResponse (hostEnv [mainMessage]) mainMessage ?ok demoWorld)
         (lastAgentTimestamp demoWorld)"
    by blast
  then have adv: "lastAgentTimestamp (snd (processMessage (hostEnv [mainMessage]) mainMessage ?ok demoWorld))
      ''telegram@chat:1'' = Some ''2026-01-01T00:00:01.000Z''"
    by (simp add: demo_first_turn advanced_def demoMessage_fields)
  from mono adv h1 show ?thesis
    by (simp add: demo_first_turn demo_success_output demoMessage_fields)
qed
end
